theory Spec2Isabelle
  imports Complex_Main "HOL-Library.While_Combinator" "HOL-Library.Product_Lexorder"
begin

section \<open>Data model\<close>

text \<open>
  A shallow embedding of \<^verbatim>\<open>include/igl/cgal/propagate_winding_numbers.cpp\<close>.

  An Eigen integer matrix is the list of its rows; \<^verbatim>\<open>M(r, c)\<close> is \<open>M ! r ! c\<close>. Faces are
  rows of three vertex indices, unique edges rows of two. Index vectors (\<^verbatim>\<open>P\<close>, labels,
  orders) hold natural numbers; winding numbers are integers. The sentinel
  \<^verbatim>\<open>std::numeric_limits<int>::max()\<close> is the 32-bit value \<open>2147483647\<close>.

  The functions the file calls but does not define (\<^verbatim>\<open>unique_edge_map\<close>,
  \<^verbatim>\<open>extract_manifold_patches\<close>, \<^verbatim>\<open>order_facets_around_edge\<close>, \<^verbatim>\<open>outer_facet\<close>, ...) are
  parameters, collected in the record \<open>externals\<close>.

  A \<^verbatim>\<open>throw\<close> and a failing \<^verbatim>\<open>assert\<close> are values of the type \<open>error\<close>; an assertion is
  modelled as the source writes it, as a check that stops the computation when it fails,
  and carries the number of its source line. A \<^verbatim>\<open>while\<close> loop over a queue is
  \<open>while_option\<close>, so a loop that does not end has the value \<open>None\<close>.
\<close>

type_synonym matrix = "int list list"
type_synonym faces = "nat list list"
type_synonym vertices = "rat list list"

datatype error =
    OddFacesPerEdge
  | EdgeNotInFace
  | InvalidFace
  | AssertionFailed nat

record externals =
  unique_edge_map :: "faces \<Rightarrow> nat list list \<times> nat list list \<times> nat list \<times> nat list list"
  extract_manifold_patches :: "faces \<Rightarrow> nat list \<Rightarrow> nat list list \<Rightarrow> nat \<times> nat list"
  extract_non_manifold_edge_curves :: "faces \<Rightarrow> nat list \<Rightarrow> nat list list \<Rightarrow> nat list list"
  order_facets_around_edge :: "vertices \<Rightarrow> faces \<Rightarrow> nat \<Rightarrow> nat \<Rightarrow> int list \<Rightarrow> nat list"
  outer_facet :: "vertices \<Rightarrow> faces \<Rightarrow> nat list \<Rightarrow> nat \<times> bool"
  triangle_triangle_adjacency :: "nat list list \<Rightarrow> nat list \<Rightarrow> nat list list \<Rightarrow> bool \<Rightarrow> nat list list list"
  facet_components :: "nat list list list \<Rightarrow> nat list \<times> nat list"
  closest_facet :: "vertices \<Rightarrow> faces \<Rightarrow> vertices \<Rightarrow> nat list \<times> bool list"
  extract_cells :: "vertices \<Rightarrow> faces \<Rightarrow> nat list \<Rightarrow> nat list list \<Rightarrow> nat list list \<Rightarrow> nat list list \<Rightarrow> nat list \<Rightarrow> nat \<times> nat list list"

definition INVALID :: int where
  "INVALID = 2147483647"

text \<open>\<^verbatim>\<open>M.cols()\<close> of a matrix with at least one row.\<close>

definition cols :: "'a list list \<Rightarrow> nat" where
  "cols M = (case M of [] \<Rightarrow> 0 | r # _ \<Rightarrow> length r)"

text \<open>\<^verbatim>\<open>M(r, c) = v\<close>.\<close>

definition set_coeff :: "'a list list \<Rightarrow> nat \<Rightarrow> nat \<Rightarrow> 'a \<Rightarrow> 'a list list" where
  "set_coeff M r c v = M[r := (M ! r)[c := v]]"

section \<open>The helper namespace\<close>

text \<open>
  \<^verbatim>\<open>winding_number_assignment_is_consistent\<close> (lines 29-64): the three nested loops, with
  the assertion of line 39 on each curve and the early \<^verbatim>\<open>return false\<close> at the first
  mismatch.
\<close>

definition labels_agree :: "nat list \<Rightarrow> bool list \<Rightarrow> matrix \<Rightarrow> nat \<Rightarrow> nat \<Rightarrow> nat \<Rightarrow> bool" where
  "labels_agree order orientation per_patch_winding_number curr_j next_j k =
     (let curr_winding_number =
            per_patch_winding_number ! (order ! curr_j) ! (k * 2 + (if orientation ! curr_j then 0 else 1));
          next_winding_number =
            per_patch_winding_number ! (order ! next_j) ! (k * 2 + (if orientation ! next_j then 1 else 0))
      in curr_winding_number = next_winding_number)"

definition curve_is_consistent :: "nat list \<Rightarrow> bool list \<Rightarrow> matrix \<Rightarrow> nat \<Rightarrow> bool" where
  "curve_is_consistent order orientation per_patch_winding_number num_labels =
     (let order_size = length order in
      list_all (\<lambda>j. list_all (labels_agree order orientation per_patch_winding_number j ((j + 1) mod order_size))
                          [0..<num_labels])
        [0..<order_size])"

fun curves_are_consistent :: "nat list list \<Rightarrow> bool list list \<Rightarrow> matrix \<Rightarrow> nat \<Rightarrow> nat list \<Rightarrow> error + bool" where
  "curves_are_consistent orders orientations W num_labels [] = Inr True"
| "curves_are_consistent orders orientations W num_labels (i # is) =
     (if length (orders ! i) \<noteq> length (orientations ! i) then Inl (AssertionFailed 39)
      else if curve_is_consistent (orders ! i) (orientations ! i) W num_labels
        then curves_are_consistent orders orientations W num_labels is
        else Inr False)"

definition winding_number_assignment_is_consistent ::
    "nat list list \<Rightarrow> bool list list \<Rightarrow> matrix \<Rightarrow> error + bool" where
  "winding_number_assignment_is_consistent orders orientations per_patch_winding_number =
     (let num_edge_curves = length orders;
          num_labels = cols per_patch_winding_number div 2
      in curves_are_consistent orders orientations per_patch_winding_number num_labels [0..<num_edge_curves])"

section \<open>The patch-wise propagator\<close>

subsection \<open>Ordering the patches around each intersection curve (lines 127-192)\<close>

definition edge_index_to_face_index :: "nat \<Rightarrow> nat \<Rightarrow> nat" where
  "edge_index_to_face_index num_faces ei = ei mod num_faces"

definition is_positively_orientated :: "faces \<Rightarrow> nat \<Rightarrow> nat \<Rightarrow> nat \<Rightarrow> error + bool" where
  "is_positively_orientated F fi s d =
     (let f = F ! fi in
      if f ! 0 = d \<and> f ! 1 = s then Inr True
      else if f ! 1 = d \<and> f ! 2 = s then Inr True
      else if f ! 2 = d \<and> f ! 0 = s then Inr True
      else if f ! 0 = s \<and> f ! 1 = d then Inr False
      else if f ! 1 = s \<and> f ! 2 = d then Inr False
      else if f ! 2 = s \<and> f ! 0 = d then Inr False
      else Inl EdgeNotInFace)"

definition compute_signed_index :: "faces \<Rightarrow> nat \<Rightarrow> nat \<Rightarrow> nat \<Rightarrow> error + int" where
  "compute_signed_index F fi s d =
     (case is_positively_orientated F fi s d of
        Inl e \<Rightarrow> Inl e
      | Inr b \<Rightarrow> Inr (int (fi + 1) * (if b then 1 else - 1)))"

definition compute_unsigned_index :: "int \<Rightarrow> nat" where
  "compute_unsigned_index signed_idx = nat (\<bar>signed_idx\<bar> - 1)"

text \<open>
  The loop of lines 169-175 over the half-edges of the curve's first unique edge: the
  signed face indices, and the curve pushed on the adjacency list of each face's patch.
\<close>

fun adjacent_faces :: "faces \<Rightarrow> nat list \<Rightarrow> nat \<Rightarrow> nat \<Rightarrow> nat \<Rightarrow> nat list \<Rightarrow>
    int list \<times> nat list list \<Rightarrow> error + int list \<times> nat list list" where
  "adjacent_faces F P i s d [] acc = Inr acc"
| "adjacent_faces F P i s d (ei # eis) (adj_faces, patch_curve_adjacency) =
     (let fi = edge_index_to_face_index (length F) ei in
      case compute_signed_index F fi s d of
        Inl e \<Rightarrow> Inl e
      | Inr signed_fi \<Rightarrow>
          adjacent_faces F P i s d eis
            (adj_faces @ [signed_fi],
             patch_curve_adjacency[P ! fi := patch_curve_adjacency ! (P ! fi) @ [i]]))"

definition order_curve :: "externals \<Rightarrow> vertices \<Rightarrow> faces \<Rightarrow> nat list list \<Rightarrow> nat list list \<Rightarrow> nat list \<Rightarrow>
    nat list list \<Rightarrow> nat \<Rightarrow> nat list list \<Rightarrow> error + (nat list \<times> bool list) \<times> nat list list" where
  "order_curve ext V F uE uE2E P intersection_curves i patch_curve_adjacency =
     (let curve = intersection_curves ! i;
          uei = curve ! 0;
          s = uE ! uei ! 0;
          d = uE ! uei ! 1
      in case adjacent_faces F P i s d (uE2E ! uei) ([], patch_curve_adjacency) of
           Inl e \<Rightarrow> Inl e
         | Inr (adj_faces, adjacency) \<Rightarrow>
             (let order = order_facets_around_edge ext V F s d adj_faces in
              if order = [] \<or> Min (set order) \<noteq> 0 then Inl (AssertionFailed 180)
              else if adj_faces = [] \<or> Max (set order) \<noteq> length adj_faces - 1 then Inl (AssertionFailed 181)
              else Inr ((map (\<lambda>index. P ! compute_unsigned_index (adj_faces ! index)) order,
                         map (\<lambda>index. adj_faces ! index > 0) order),
                        adjacency)))"

fun order_curves :: "externals \<Rightarrow> vertices \<Rightarrow> faces \<Rightarrow> nat list list \<Rightarrow> nat list list \<Rightarrow> nat list \<Rightarrow>
    nat list list \<Rightarrow> nat list \<Rightarrow> (nat list \<times> bool list) list \<times> nat list list \<Rightarrow>
    error + (nat list \<times> bool list) list \<times> nat list list" where
  "order_curves ext V F uE uE2E P intersection_curves [] acc = Inr acc"
| "order_curves ext V F uE uE2E P intersection_curves (i # is) (ordered, patch_curve_adjacency) =
     (case order_curve ext V F uE uE2E P intersection_curves i patch_curve_adjacency of
        Inl e \<Rightarrow> Inl e
      | Inr (oo, adjacency) \<Rightarrow>
          order_curves ext V F uE uE2E P intersection_curves is (ordered @ [oo], adjacency))"

subsection \<open>The seed (lines 196-214)\<close>

definition seed_patch_W :: "nat \<Rightarrow> nat \<Rightarrow> nat \<Rightarrow> nat \<Rightarrow> bool \<Rightarrow> matrix" where
  "seed_patch_W num_patches num_labels outer_patch_idx outer_patch_label outer_facet_is_flipped =
     (let patch_W = replicate num_patches (replicate (2 * num_labels) INVALID);
          patch_W = patch_W[outer_patch_idx := replicate (2 * num_labels) 0]
      in if outer_facet_is_flipped
         then set_coeff patch_W outer_patch_idx (outer_patch_label * 2) (- 1)
         else set_coeff patch_W outer_patch_idx (outer_patch_label * 2 + 1) 1)"

definition winding_num_assigned :: "matrix \<Rightarrow> nat \<Rightarrow> bool" where
  "winding_num_assigned patch_W patch_idx = list_all (\<lambda>w. w \<noteq> INVALID) (patch_W ! patch_idx)"

subsection \<open>The breadth-first traversal (lines 220-316)\<close>

text \<open>Lines 264-284: the forward neighbour's row, label by label.\<close>

definition derive_next :: "nat list \<Rightarrow> nat \<Rightarrow> matrix \<Rightarrow> nat \<Rightarrow> nat \<Rightarrow> bool \<Rightarrow> matrix" where
  "derive_next labels num_labels patch_W curr_patch_idx next_patch_idx next_cons =
     foldl (\<lambda>W i.
        (let shared_winding_number = W ! curr_patch_idx ! (i * 2) in
         if i = labels ! next_patch_idx
         then set_coeff
                (set_coeff W next_patch_idx (i * 2 + (if next_cons then 0 else 1)) shared_winding_number)
                next_patch_idx (i * 2 + (if next_cons then 1 else 0))
                (shared_winding_number + (if next_cons then 1 else - 1))
         else set_coeff (set_coeff W next_patch_idx (i * 2) shared_winding_number)
                next_patch_idx (i * 2 + 1) shared_winding_number))
       patch_W [0..<num_labels]"

text \<open>Lines 292-312: the backward neighbour's row.\<close>

definition derive_prev :: "nat list \<Rightarrow> nat \<Rightarrow> matrix \<Rightarrow> nat \<Rightarrow> nat \<Rightarrow> bool \<Rightarrow> matrix" where
  "derive_prev labels num_labels patch_W curr_patch_idx prev_patch_idx prev_cons =
     foldl (\<lambda>W i.
        (let shared_winding_number = W ! curr_patch_idx ! (i * 2 + 1) in
         if i = labels ! prev_patch_idx
         then set_coeff
                (set_coeff W prev_patch_idx (i * 2 + (if prev_cons then 1 else 0)) shared_winding_number)
                prev_patch_idx (i * 2 + (if prev_cons then 0 else 1))
                (shared_winding_number + (if prev_cons then - 1 else 1))
         else set_coeff (set_coeff W prev_patch_idx (i * 2) shared_winding_number)
                prev_patch_idx (i * 2 + 1) shared_winding_number))
       patch_W [0..<num_labels]"

text \<open>Lines 252-256: the positions of the forward and of the backward neighbour.\<close>

definition next_index :: "nat \<Rightarrow> nat \<Rightarrow> bool \<Rightarrow> nat" where
  "next_index num_adj_patches curr_i curr_ori =
     (if curr_ori then (curr_i + 1) mod num_adj_patches
      else (curr_i + num_adj_patches - 1) mod num_adj_patches)"

definition prev_index :: "nat \<Rightarrow> nat \<Rightarrow> bool \<Rightarrow> nat" where
  "prev_index num_adj_patches curr_i curr_ori =
     (if curr_ori then (curr_i + num_adj_patches - 1) mod num_adj_patches
      else (curr_i + 1) mod num_adj_patches)"

text \<open>Lines 257 and 260-286: the forward neighbour, derived and queued unless it is assigned.\<close>

definition assign_next :: "nat list \<Rightarrow> nat \<Rightarrow> nat list \<Rightarrow> bool list \<Rightarrow> nat \<Rightarrow> nat \<Rightarrow>
    matrix \<times> nat list \<Rightarrow> matrix \<times> nat list" where
  "assign_next labels num_labels order orientation curr_patch_idx curr_i s =
     (let curr_ori = orientation ! curr_i;
          next_i = next_index (length order) curr_i curr_ori;
          next_patch_idx = order ! next_i
      in if \<not> winding_num_assigned (fst s) next_patch_idx
         then (let next_ori = orientation ! next_i;
                   next_cons = (next_ori \<noteq> curr_ori)
               in (derive_next labels num_labels (fst s) curr_patch_idx next_patch_idx next_cons,
                   snd s @ [next_patch_idx]))
         else s)"

text \<open>Lines 258 and 287-314: the backward neighbour.\<close>

definition assign_prev :: "nat list \<Rightarrow> nat \<Rightarrow> nat list \<Rightarrow> bool list \<Rightarrow> nat \<Rightarrow> nat \<Rightarrow>
    matrix \<times> nat list \<Rightarrow> matrix \<times> nat list" where
  "assign_prev labels num_labels order orientation curr_patch_idx curr_i s =
     (let curr_ori = orientation ! curr_i;
          prev_i = prev_index (length order) curr_i curr_ori;
          prev_patch_idx = order ! prev_i
      in if \<not> winding_num_assigned (fst s) prev_patch_idx
         then (let prev_ori = orientation ! prev_i;
                   prev_cons = (prev_ori \<noteq> curr_ori)
               in (derive_prev labels num_labels (fst s) curr_patch_idx prev_patch_idx prev_cons,
                   snd s @ [prev_patch_idx]))
         else s)"

text \<open>Lines 229-314: one curve adjacent to the dequeued patch.\<close>

definition visit_curve :: "nat list \<Rightarrow> nat \<Rightarrow> nat list list \<Rightarrow> bool list list \<Rightarrow> nat \<Rightarrow>
    matrix \<times> nat list \<Rightarrow> nat \<Rightarrow> error + matrix \<times> nat list" where
  "visit_curve labels num_labels orders orientations curr_patch_idx s curve_idx =
     (let order = orders ! curve_idx;
          orientation = orientations ! curve_idx;
          num_adj_patches = length order
      in if num_adj_patches \<noteq> length orientation then Inl (AssertionFailed 232)
         else case find (\<lambda>i. order ! i = curr_patch_idx) [0..<num_adj_patches] of
           None \<Rightarrow> Inl (AssertionFailed 241)
         | Some curr_i \<Rightarrow>
             Inr (assign_prev labels num_labels order orientation curr_patch_idx curr_i
                    (assign_next labels num_labels order orientation curr_patch_idx curr_i s)))"

fun visit_curves :: "nat list \<Rightarrow> nat \<Rightarrow> nat list list \<Rightarrow> bool list list \<Rightarrow> nat \<Rightarrow>
    matrix \<times> nat list \<Rightarrow> nat list \<Rightarrow> error + matrix \<times> nat list" where
  "visit_curves labels num_labels orders orientations curr_patch_idx s [] = Inr s"
| "visit_curves labels num_labels orders orientations curr_patch_idx s (curve_idx # adj_curves) =
     (case visit_curve labels num_labels orders orientations curr_patch_idx s curve_idx of
        Inl e \<Rightarrow> Inl e
      | Inr s' \<Rightarrow> visit_curves labels num_labels orders orientations curr_patch_idx s' adj_curves)"

text \<open>
  The \<^verbatim>\<open>while (!Q.empty())\<close> loop. Its state is the pair of \<^verbatim>\<open>patch_W\<close> and the queue, or
  the error that stopped it.
\<close>

definition queue_nonempty :: "error + matrix \<times> nat list \<Rightarrow> bool" where
  "queue_nonempty st = (case st of Inl e \<Rightarrow> False | Inr s \<Rightarrow> snd s \<noteq> [])"

definition dequeue_patch :: "nat list \<Rightarrow> nat \<Rightarrow> nat list list \<Rightarrow> bool list list \<Rightarrow> nat list list \<Rightarrow>
    error + matrix \<times> nat list \<Rightarrow> error + matrix \<times> nat list" where
  "dequeue_patch labels num_labels orders orientations patch_curve_adjacency st =
     (case st of
        Inl e \<Rightarrow> Inl e
      | Inr s \<Rightarrow>
          (let curr_patch_idx = hd (snd s) in
           visit_curves labels num_labels orders orientations curr_patch_idx (fst s, tl (snd s))
             (patch_curve_adjacency ! curr_patch_idx)))"

definition propagate_over_patches :: "nat list \<Rightarrow> nat \<Rightarrow> nat list list \<Rightarrow> bool list list \<Rightarrow> nat list list \<Rightarrow>
    matrix \<Rightarrow> nat \<Rightarrow> (error + matrix \<times> nat list) option" where
  "propagate_over_patches labels num_labels orders orientations patch_curve_adjacency patch_W outer_patch_idx =
     while_option queue_nonempty
       (dequeue_patch labels num_labels orders orientations patch_curve_adjacency)
       (Inr (patch_W, [outer_patch_idx]))"

text \<open>The row lengths of the matrix a traversal state carries.\<close>

definition rows_are :: "nat list \<Rightarrow> error + matrix \<times> nat list \<Rightarrow> bool" where
  "rows_are L st \<longleftrightarrow> (case st of Inl e \<Rightarrow> True | Inr s \<Rightarrow> map length (fst s) = L)"

subsection \<open>The function\<close>

text \<open>
  Lines 196-320, once the curves are ordered: seed, traversal, the assertion of line 317
  and the consistency check.
\<close>

definition propagate_from_orders :: "nat list \<Rightarrow> nat list \<Rightarrow> nat list list \<Rightarrow> bool list list \<Rightarrow> nat list list \<Rightarrow>
    nat \<Rightarrow> bool \<Rightarrow> (error + bool \<times> matrix) option" where
  "propagate_from_orders labels P orders orientations patch_curve_adjacency outer_facet_idx outer_facet_is_flipped =
     (let num_patches = Max (set P) + 1;
          num_labels = Max (set labels) + 1;
          outer_patch_idx = P ! outer_facet_idx;
          outer_patch_label = labels ! outer_patch_idx;
          patch_W = seed_patch_W num_patches num_labels outer_patch_idx outer_patch_label outer_facet_is_flipped
      in case propagate_over_patches labels num_labels orders orientations patch_curve_adjacency
                patch_W outer_patch_idx of
           None \<Rightarrow> None
         | Some (Inl e) \<Rightarrow> Some (Inl e)
         | Some (Inr s) \<Rightarrow>
             (if \<not> list_all (list_all (\<lambda>w. w \<noteq> INVALID)) (fst s) then Some (Inl (AssertionFailed 317))
              else case winding_number_assignment_is_consistent orders orientations (fst s) of
                     Inl e \<Rightarrow> Some (Inl e)
                   | Inr b \<Rightarrow> Some (Inr (b, fst s))))"

definition propagate_winding_numbers_single_component_patch_wise ::
    "externals \<Rightarrow> vertices \<Rightarrow> faces \<Rightarrow> nat list list \<Rightarrow> nat list list \<Rightarrow> nat list \<Rightarrow> nat list \<Rightarrow>
     nat list list \<Rightarrow> (error + bool \<times> matrix) option" where
  "propagate_winding_numbers_single_component_patch_wise ext V F uE uE2E labels P intersection_curves =
     (let num_faces = length F in
      if P = [] then Some (Inl (AssertionFailed 124))
      else let num_patches = Max (set P) + 1 in
      if length labels \<noteq> num_patches then Some (Inl (AssertionFailed 125))
      else case order_curves ext V F uE uE2E P intersection_curves [0..<length intersection_curves]
                  ([], replicate num_patches []) of
             Inl e \<Rightarrow> Some (Inl e)
           | Inr (oo, patch_curve_adjacency) \<Rightarrow>
               (let (outer_facet_idx, outer_facet_is_flipped) = outer_facet ext V F [0..<num_faces]
                in propagate_from_orders labels P (map fst oo) (map snd oo) patch_curve_adjacency
                     outer_facet_idx outer_facet_is_flipped))"

section \<open>One connected component\<close>

text \<open>
  Lines 639-648 (and 948-957): the label of each patch, taken from its first face; the
  assertion compares every later face of the patch with it. \<^verbatim>\<open>patch_labels\<close> is a vector of
  \<^verbatim>\<open>int\<close> that starts at the sentinel.
\<close>

fun gather_patch_labels :: "nat \<Rightarrow> nat list \<Rightarrow> nat list \<Rightarrow> int list \<Rightarrow> nat list \<Rightarrow> error + int list" where
  "gather_patch_labels line P labels patch_labels [] = Inr patch_labels"
| "gather_patch_labels line P labels patch_labels (i # is) =
     (if patch_labels ! (P ! i) = INVALID
      then gather_patch_labels line P labels (patch_labels[P ! i := int (labels ! i)]) is
      else if patch_labels ! (P ! i) \<noteq> int (labels ! i) then Inl (AssertionFailed line)
      else gather_patch_labels line P labels patch_labels is)"

definition propagate_winding_numbers_single_component ::
    "externals \<Rightarrow> vertices \<Rightarrow> faces \<Rightarrow> nat list \<Rightarrow> (error + bool \<times> matrix) option" where
  "propagate_winding_numbers_single_component ext V F labels =
     (let num_faces = length F;
          (E, uE, EMAP, uE2E) = unique_edge_map ext F;
          (num_patches, P) = extract_manifold_patches ext F EMAP uE2E;
          intersection_curves = extract_non_manifold_edge_curves ext F EMAP uE2E
      in if length P \<noteq> num_faces then Some (Inl (AssertionFailed 636))
         else if P = [] \<or> Max (set P) + 1 \<noteq> num_patches then Some (Inl (AssertionFailed 637))
         else case gather_patch_labels 646 P labels (replicate num_patches INVALID) [0..<num_faces] of
           Inl e \<Rightarrow> Some (Inl e)
         | Inr patch_labels \<Rightarrow>
             if \<not> list_all (\<lambda>l. l \<noteq> INVALID) patch_labels then Some (Inl (AssertionFailed 649))
             else let num_labels = nat (Max (set patch_labels) + 1) in
               case propagate_winding_numbers_single_component_patch_wise
                      ext V F uE uE2E (map nat patch_labels) P intersection_curves of
                 None \<Rightarrow> None
               | Some (Inl e) \<Rightarrow> Some (Inl e)
               | Some (Inr (is_consistent, winding_numbers)) \<Rightarrow>
                   if length winding_numbers \<noteq> num_patches then Some (Inl (AssertionFailed 656))
                   else if cols winding_numbers \<noteq> 2 * num_labels then Some (Inl (AssertionFailed 657))
                   else let W = map (\<lambda>i. winding_numbers ! (P ! i)) [0..<num_faces] in
                     if \<not> list_ex (list_ex (\<lambda>w. w \<noteq> INVALID)) W then Some (Inl (AssertionFailed 664))
                     else Some (Inr (is_consistent, W)))"

section \<open>The public entry point\<close>

text \<open>
  What \<^verbatim>\<open>propagate_winding_numbers\<close> leaves behind: the matrix \<^verbatim>\<open>W\<close> it fills for the caller
  (the function itself returns \<^verbatim>\<open>void\<close>), and the components it reports on the standard
  output as inconsistent (lines 760-775).
\<close>

record outcome =
  W_out :: matrix
  reported :: "nat list"

text \<open>Lines 704-713.\<close>

definition has_odd_edge :: "nat list list \<Rightarrow> bool" where
  "has_odd_edge uE2E = list_ex (\<lambda>adj_faces. length adj_faces mod 2 = 1) uE2E"

text \<open>Lines 722-740.\<close>

definition gather_components :: "nat list \<Rightarrow> nat \<Rightarrow> nat \<Rightarrow> nat list list" where
  "gather_components C num_components num_faces =
     foldl (\<lambda>components i. components[C ! i := components ! (C ! i) @ [i]])
       (replicate num_components []) [0..<num_faces]"

text \<open>Lines 755-758: the rows of a component written into \<^verbatim>\<open>W\<close>.\<close>

definition store_component :: "matrix \<Rightarrow> nat list \<Rightarrow> matrix \<Rightarrow> nat \<Rightarrow> matrix" where
  "store_component W component Ws_i width =
     foldl (\<lambda>W j. W[component ! j := take width (Ws_i ! j) @ drop width (W ! (component ! j))])
       W [0..<length component]"

text \<open>Lines 747-776: the loop over the components.\<close>

fun propagate_components :: "externals \<Rightarrow> vertices \<Rightarrow> faces list \<Rightarrow> nat list list \<Rightarrow> nat list list \<Rightarrow>
    nat list \<Rightarrow> outcome \<Rightarrow> (error + outcome) option" where
  "propagate_components ext V comp_faces comp_labels components [] out = Some (Inr out)"
| "propagate_components ext V comp_faces comp_labels components (i # is) out =
     (case propagate_winding_numbers_single_component ext V (comp_faces ! i) (comp_labels ! i) of
        None \<Rightarrow> None
      | Some (Inl e) \<Rightarrow> Some (Inl e)
      | Some (Inr (is_consistent, Ws_i)) \<Rightarrow>
          if comp_labels ! i = [] then Some (Inl (AssertionFailed 750))
          else let num_labels_in_i = Max (set (comp_labels ! i)) + 1;
                   num_faces_in_comp = length (comp_faces ! i)
          in if cols Ws_i \<noteq> num_labels_in_i * 2 then Some (Inl (AssertionFailed 752))
             else if length Ws_i \<noteq> num_faces_in_comp then Some (Inl (AssertionFailed 753))
             else propagate_components ext V comp_faces comp_labels components is
                    \<lparr>W_out = store_component (W_out out) (components ! i) Ws_i (num_labels_in_i * 2),
                     reported = (if \<not> is_consistent then reported out @ [i] else reported out)\<rparr>)"

subsection \<open>The nesting correction (lines 778-823)\<close>

definition sample_component :: "vertices \<Rightarrow> faces list \<Rightarrow> nat \<Rightarrow> rat list" where
  "sample_component V comp_faces cid =
     (let f = comp_faces ! cid ! 0 in
      map (\<lambda>k. (V ! (f ! 0) ! k + V ! (f ! 1) ! k + V ! (f ! 2) ! k) / 3) [0..<3])"

definition index_without_i :: "nat \<Rightarrow> nat \<Rightarrow> nat" where
  "index_without_i i index = (if index < i then index else index - 1)"

text \<open>Lines 808-812: one sampled face's entries added to the correction of component \<open>j\<close>.\<close>

definition accumulate_correction :: "matrix \<Rightarrow> nat \<Rightarrow> matrix \<Rightarrow> nat \<Rightarrow> nat \<Rightarrow> bool \<Rightarrow> matrix" where
  "accumulate_correction W num_labels ambient_correction j row ori =
     foldl (\<lambda>ac k.
        (let correction = W ! row ! (k * 2 + (if ori then 0 else 1));
             ac = set_coeff ac j (k * 2) (ac ! j ! (k * 2) + correction)
         in set_coeff ac j (k * 2 + 1) (ac ! j ! (k * 2 + 1) + correction)))
       ambient_correction [0..<num_labels]"

text \<open>Lines 788-813: component \<open>i\<close> queried with the samples of all the others.\<close>

definition correct_against :: "externals \<Rightarrow> vertices \<Rightarrow> faces list \<Rightarrow> nat list list \<Rightarrow> matrix \<Rightarrow> nat \<Rightarrow>
    nat \<Rightarrow> matrix \<Rightarrow> nat \<Rightarrow> matrix" where
  "correct_against ext V comp_faces components W num_labels num_components ambient_correction i =
     (let samples = map (sample_component V comp_faces) (filter (\<lambda>j. j \<noteq> i) [0..<num_components]);
          (fids, orientation) = closest_facet ext V (comp_faces ! i) samples;
          component = components ! i
      in foldl (\<lambda>ac j.
           if i = j then ac
           else (let index = index_without_i i j;
                     fid = fids ! index;
                     ori = orientation ! index
                 in accumulate_correction W num_labels ac j (component ! fid) ori))
         ambient_correction [0..<num_components])"

definition ambient_corrections :: "externals \<Rightarrow> vertices \<Rightarrow> faces list \<Rightarrow> nat list list \<Rightarrow> matrix \<Rightarrow> nat \<Rightarrow>
    nat \<Rightarrow> matrix" where
  "ambient_corrections ext V comp_faces components W num_labels num_components =
     (let ambient_correction = replicate num_components (replicate (2 * num_labels) 0) in
      if num_components > 1
      then foldl (correct_against ext V comp_faces components W num_labels num_components)
             ambient_correction [0..<num_components]
      else ambient_correction)"

text \<open>
  Lines 794-808: the entry of \<^verbatim>\<open>W\<close> read for the ordered pair \<open>(i, j)\<close> and the label \<open>k\<close>:
  component \<open>i\<close> is queried with the samples of the others, and the face nearest to the
  sample of component \<open>j\<close> gives its front or its back entry.
\<close>

definition nearest_entry :: "externals \<Rightarrow> vertices \<Rightarrow> faces list \<Rightarrow> nat list list \<Rightarrow> matrix \<Rightarrow> nat \<Rightarrow>
    nat \<Rightarrow> nat \<Rightarrow> nat \<Rightarrow> int" where
  "nearest_entry ext V comp_faces components W num_components i j k =
     (let samples = map (sample_component V comp_faces) (filter (\<lambda>j. j \<noteq> i) [0..<num_components]);
          (fids, orientation) = closest_facet ext V (comp_faces ! i) samples;
          index = index_without_i i j
      in W ! (components ! i ! (fids ! index)) ! (k * 2 + (if orientation ! index then 0 else 1)))"

text \<open>Lines 817-823: \<^verbatim>\<open>W.row(fid) += correction\<close> for every face of every component.\<close>

definition add_row :: "int list \<Rightarrow> int list \<Rightarrow> int list" where
  "add_row r correction = map (\<lambda>c. r ! c + correction ! c) [0..<length r]"

definition apply_corrections :: "nat list list \<Rightarrow> matrix \<Rightarrow> matrix \<Rightarrow> matrix" where
  "apply_corrections components ambient_correction W =
     foldl (\<lambda>W i. foldl (\<lambda>W fid. W[fid := add_row (W ! fid) (ambient_correction ! i)]) W (components ! i))
       W [0..<length components]"

definition nesting_correction :: "externals \<Rightarrow> vertices \<Rightarrow> faces list \<Rightarrow> nat list list \<Rightarrow> nat \<Rightarrow> matrix \<Rightarrow> matrix" where
  "nesting_correction ext V comp_faces components num_labels W =
     apply_corrections components
       (ambient_corrections ext V comp_faces components W num_labels (length components)) W"

subsection \<open>The function (lines 683-824)\<close>

definition propagate_winding_numbers ::
    "externals \<Rightarrow> vertices \<Rightarrow> faces \<Rightarrow> nat list \<Rightarrow> (error + outcome) option" where
  "propagate_winding_numbers ext V F labels =
     (let num_faces = length F;
          (E, uE, EMAP, uE2E) = unique_edge_map ext F
      in if has_odd_edge uE2E then Some (Inl OddFacesPerEdge)
         else let TT = triangle_triangle_adjacency ext E EMAP uE2E False;
                  (C, counts) = facet_components ext TT;
                  num_components = length counts;
                  components = gather_components C num_components num_faces;
                  comp_faces = map (map (\<lambda>j. F ! j)) components;
                  comp_labels = map (map (\<lambda>j. labels ! j)) components
         in if labels = [] then Some (Inl (AssertionFailed 743))
            else let num_labels = Max (set labels) + 1;
                     W = replicate num_faces (replicate (2 * num_labels) 0)
            in case propagate_components ext V comp_faces comp_labels components [0..<num_components]
                      \<lparr>W_out = W, reported = []\<rparr> of
                 None \<Rightarrow> None
               | Some (Inl e) \<Rightarrow> Some (Inl e)
               | Some (Inr out) \<Rightarrow>
                   Some (Inr (out\<lparr>W_out := nesting_correction ext V comp_faces components num_labels (W_out out)\<rparr>)))"

subsection \<open>The components and their consistency flags\<close>

text \<open>
  Lines 715-740: the connected components \<^verbatim>\<open>propagate_winding_numbers\<close> works on, and the
  value the call of line 748 gives for the \<open>i\<close>-th of them (the local variable
  \<^verbatim>\<open>is_consistent\<close> of the loop body).
\<close>

definition mesh_components :: "externals \<Rightarrow> faces \<Rightarrow> nat list list" where
  "mesh_components ext F =
     (let (E, uE, EMAP, uE2E) = unique_edge_map ext F;
          TT = triangle_triangle_adjacency ext E EMAP uE2E False;
          (C, counts) = facet_components ext TT
      in gather_components C (length counts) (length F))"

definition component_flag :: "externals \<Rightarrow> vertices \<Rightarrow> faces list \<Rightarrow> nat list list \<Rightarrow> nat \<Rightarrow> (error + bool) option" where
  "component_flag ext V comp_faces comp_labels i =
     map_option (map_sum id fst)
       (propagate_winding_numbers_single_component ext V (comp_faces ! i) (comp_labels ! i))"

definition is_consistent_component :: "externals \<Rightarrow> vertices \<Rightarrow> faces \<Rightarrow> nat list \<Rightarrow> nat \<Rightarrow> (error + bool) option" where
  "is_consistent_component ext V F labels i =
     component_flag ext V (map (map (\<lambda>j. F ! j)) (mesh_components ext F))
       (map (map (\<lambda>j. labels ! j)) (mesh_components ext F)) i"


section \<open>The cell-wise propagator\<close>

text \<open>\<^verbatim>\<open>is_orientable\<close> (lines 66-103), which the assertion of line 843 evaluates.\<close>

definition is_consistent :: "faces \<Rightarrow> nat \<Rightarrow> nat \<Rightarrow> nat \<Rightarrow> error + bool" where
  "is_consistent F fid s d =
     (if F ! fid ! 0 = s \<and> F ! fid ! 1 = d then Inr True
      else if F ! fid ! 1 = s \<and> F ! fid ! 2 = d then Inr True
      else if F ! fid ! 2 = s \<and> F ! fid ! 0 = d then Inr True
      else if F ! fid ! 0 = d \<and> F ! fid ! 1 = s then Inr False
      else if F ! fid ! 1 = d \<and> F ! fid ! 2 = s then Inr False
      else if F ! fid ! 2 = d \<and> F ! fid ! 0 = s then Inr False
      else Inl InvalidFace)"




subsection \<open>The cell adjacency (lines 852-859)\<close>

text \<open>
  A \<^verbatim>\<open>std::set<std::tuple<size_t, bool, size_t>>\<close> is the sorted list of its elements, in
  the lexicographic order of the tuples; \<^verbatim>\<open>emplace\<close> inserts an element that is not there.
\<close>

type_synonym CellConnection = "nat \<times> bool \<times> nat"

definition emplace :: "CellConnection \<Rightarrow> CellConnection list \<Rightarrow> CellConnection list" where
  "emplace x xs = (if x \<in> set xs then xs else insort x xs)"


subsection \<open>The check for an odd cycle (lines 886-937)\<close>








subsection \<open>The traversal of the cells (lines 961-994)\<close>

definition cell_unassigned :: "matrix \<Rightarrow> nat \<Rightarrow> bool" where
  "cell_unassigned per_cell_W cell = list_ex (\<lambda>w. w = INVALID) (per_cell_W ! cell)"

text \<open>Lines 974-980: the row of a cell reached for the first time.\<close>

definition assign_neighbor :: "nat list \<Rightarrow> nat \<Rightarrow> matrix \<Rightarrow> nat \<Rightarrow> CellConnection \<Rightarrow> matrix" where
  "assign_neighbor patch_labels num_labels per_cell_W curr_cell neighbor =
     (let neighbor_cell = fst neighbor; direction = fst (snd neighbor); patch_idx = snd (snd neighbor);
          per_cell_W = per_cell_W[neighbor_cell := per_cell_W ! curr_cell]
      in foldl (\<lambda>W i.
           (let inc = (if patch_labels ! patch_idx = i then (if direction then - 1 else 1) else 0)
            in set_coeff W neighbor_cell i (W ! curr_cell ! i + inc)))
         per_cell_W [0..<num_labels])"

text \<open>Lines 982-991: the assertions on a cell reached again.\<close>

definition revisit_mismatch :: "nat list \<Rightarrow> nat \<Rightarrow> matrix \<Rightarrow> nat \<Rightarrow> CellConnection \<Rightarrow> error option" where
  "revisit_mismatch patch_labels num_labels per_cell_W curr_cell neighbor =
     (let neighbor_cell = fst neighbor; direction = fst (snd neighbor); patch_idx = snd (snd neighbor) in
      case find (\<lambda>i.
             if i = patch_labels ! patch_idx
             then per_cell_W ! neighbor_cell ! i \<noteq> per_cell_W ! curr_cell ! i + (if direction then - 1 else 1)
             else per_cell_W ! neighbor_cell ! i \<noteq> per_cell_W ! curr_cell ! i) [0..<num_labels] of
        None \<Rightarrow> None
      | Some i \<Rightarrow> Some (AssertionFailed (if i = patch_labels ! patch_idx then 985 else 988)))"

definition visit_neighbor :: "nat list \<Rightarrow> nat \<Rightarrow> nat \<Rightarrow> error + matrix \<Rightarrow> CellConnection \<Rightarrow> error + matrix" where
  "visit_neighbor patch_labels num_labels curr_cell st neighbor =
     (case st of
        Inl e \<Rightarrow> Inl e
      | Inr per_cell_W \<Rightarrow>
          if cell_unassigned per_cell_W (fst neighbor)
          then Inr (assign_neighbor patch_labels num_labels per_cell_W curr_cell neighbor)
          else (case revisit_mismatch patch_labels num_labels per_cell_W curr_cell neighbor of
                  Some e \<Rightarrow> Inl e
                | None \<Rightarrow> Inr per_cell_W))"

text \<open>
  The \<^verbatim>\<open>while (!Q.empty())\<close> loop of lines 966-994. Nothing is pushed on the queue inside
  the loop, so its state keeps the queue only to pop it.
\<close>

definition cells_remain :: "(error + matrix) \<times> nat list \<Rightarrow> bool" where
  "cells_remain st = (case fst st of Inl e \<Rightarrow> False | Inr W \<Rightarrow> snd st \<noteq> [])"

definition dequeue_cell :: "CellConnection list list \<Rightarrow> nat list \<Rightarrow> nat \<Rightarrow>
    (error + matrix) \<times> nat list \<Rightarrow> (error + matrix) \<times> nat list" where
  "dequeue_cell cell_adjacency patch_labels num_labels st =
     (let curr_cell = hd (snd st) in
      (foldl (visit_neighbor patch_labels num_labels curr_cell) (fst st) (cell_adjacency ! curr_cell),
       tl (snd st)))"

text \<open>Lines 961-963: the seed.\<close>

definition seed_cell_W :: "nat \<Rightarrow> nat \<Rightarrow> nat \<Rightarrow> matrix" where
  "seed_cell_W num_cells num_labels infinity_cell =
     (replicate num_cells (replicate num_labels INVALID))[infinity_cell := replicate num_labels 0]"

definition propagate_over_cells :: "CellConnection list list \<Rightarrow> nat list \<Rightarrow> nat \<Rightarrow> nat \<Rightarrow> nat \<Rightarrow>
    ((error + matrix) \<times> nat list) option" where
  "propagate_over_cells cell_adjacency patch_labels num_labels num_cells infinity_cell =
     while_option cells_remain (dequeue_cell cell_adjacency patch_labels num_labels)
       (Inr (seed_cell_W num_cells num_labels infinity_cell), [infinity_cell])"

text \<open>Lines 996-1005.\<close>

definition read_off_faces :: "nat list \<Rightarrow> nat list list \<Rightarrow> matrix \<Rightarrow> nat \<Rightarrow> nat \<Rightarrow> matrix" where
  "read_off_faces P per_patch_cells per_cell_W num_labels num_faces =
     map (\<lambda>i.
        (let patch = P ! i;
             positive_cell = per_patch_cells ! patch ! 0;
             negative_cell = per_patch_cells ! patch ! 1
         in concat (map (\<lambda>j. [per_cell_W ! positive_cell ! j, per_cell_W ! negative_cell ! j])
                      [0..<num_labels])))
       [0..<num_faces]"

subsection \<open>The function (lines 831-1006)\<close>


definition propagate_cells_and_read_off :: "vertices \<Rightarrow> faces \<Rightarrow> nat list \<Rightarrow> nat \<Rightarrow> nat list \<Rightarrow>
    nat \<Rightarrow> nat list list \<Rightarrow> CellConnection list list \<Rightarrow> nat \<times> bool \<Rightarrow> (error + matrix) option" where
  "propagate_cells_and_read_off V F labels num_patches P num_cells per_patch_cells cell_adjacency outer =
     (let num_faces = length F;
          outer_facet = fst outer; flipped = snd outer;
          outer_patch = P ! outer_facet;
          infinity_cell = per_patch_cells ! outer_patch ! (if flipped then 1 else 0)
      in case gather_patch_labels 955 P labels (replicate num_patches INVALID) [0..<num_faces] of
           Inl e \<Rightarrow> Some (Inl e)
         | Inr patch_labels \<Rightarrow>
             if \<not> list_all (\<lambda>l. l \<noteq> INVALID) patch_labels then Some (Inl (AssertionFailed 958))
             else if patch_labels = [] then Some (Inl (AssertionFailed 959))
             else let num_labels = nat (Max (set patch_labels) + 1) in
               case propagate_over_cells cell_adjacency (map nat patch_labels) num_labels num_cells
                      infinity_cell of
                 None \<Rightarrow> None
               | Some st \<Rightarrow>
                   (case fst st of
                      Inl e \<Rightarrow> Some (Inl e)
                    | Inr per_cell_W \<Rightarrow>
                        Some (Inr (read_off_faces P per_patch_cells per_cell_W num_labels num_faces))))"


section \<open>Example inputs\<close>

text \<open>
  Small meshes, with the tables that \<^verbatim>\<open>unique_edge_map\<close> and its companions compute on
  them.

  Two tetrahedra that share the edge between the vertices 0 and 1, the second one inside
  the first: eight faces, one connected component, two patches, one intersection curve
  (the shared edge, with four incident faces). \<open>F_nested\<close> orients all faces outwards; in
  \<open>F_flipped\<close> the faces 0 and 4 are turned over.
\<close>

definition V_example :: vertices where
  "V_example = [[0, 0, 0], [0, 0, 4], [0, 4, 2], [4, 0, 2], [1, 2, 2], [2, 1, 2]]"

definition F_nested :: faces where
  "F_nested = [[0, 1, 2], [0, 3, 1], [1, 3, 2], [0, 2, 3], [0, 1, 4], [0, 5, 1], [1, 5, 4], [0, 4, 5]]"

definition E_nested :: "nat list list" where
  "E_nested = [[1, 2], [3, 1], [3, 2], [2, 3], [1, 4], [5, 1], [5, 4], [4, 5], [2, 0], [1, 0], [2, 1], [3, 0], [4, 0], [1, 0], [4, 1], [5, 0], [0, 1], [0, 3], [1, 3], [0, 2], [0, 1], [0, 5], [1, 5], [0, 4]]"

definition uE_nested :: "nat list list" where
  "uE_nested = [[0, 1], [0, 2], [0, 3], [0, 4], [0, 5], [1, 2], [1, 3], [1, 4], [1, 5], [2, 3], [4, 5]]"

definition EMAP_nested :: "nat list" where
  "EMAP_nested = [5, 6, 9, 9, 7, 8, 10, 10, 1, 0, 5, 2, 3, 0, 7, 4, 0, 2, 6, 1, 0, 4, 8, 3]"

definition uE2E_nested :: "nat list list" where
  "uE2E_nested = [[9, 13, 16, 20], [8, 19], [11, 17], [12, 23], [15, 21], [0, 10], [1, 18], [4, 14], [5, 22], [2, 3], [6, 7]]"

definition TT_nested :: "nat list list list" where
  "TT_nested = [[[2], [3], [1, 5, 4]], [[2], [5, 0, 4], [3]], [[3], [0], [1]], [[2], [1], [0]], [[6], [7], [1, 5, 0]], [[6], [1, 0, 4], [7]], [[7], [4], [5]], [[6], [5], [4]]]"

definition ext_nested :: externals where
  "ext_nested =
     \<lparr>unique_edge_map = (\<lambda>F. (E_nested, uE_nested, EMAP_nested, uE2E_nested)),
      extract_manifold_patches = (\<lambda>F EMAP uE2E. (2, [0, 0, 0, 0, 1, 1, 1, 1])),
      extract_non_manifold_edge_curves = (\<lambda>F EMAP uE2E. [[0]]),
      order_facets_around_edge = (\<lambda>V F s d adj_faces. [0, 2, 3, 1]),
      outer_facet = (\<lambda>V F I. (1, False)),
      triangle_triangle_adjacency = (\<lambda>E EMAP uE2E b. TT_nested),
      facet_components = (\<lambda>TT. ([0, 0, 0, 0, 0, 0, 0, 0], [8])),
      closest_facet = (\<lambda>V F samples. ([], [])),
      extract_cells = (\<lambda>V F P E uE uE2E EMAP. (3, [[0, 1], [1, 2]]))\<rparr>"

definition F_flipped :: faces where
  "F_flipped = [[1, 0, 2], [0, 3, 1], [1, 3, 2], [0, 2, 3], [1, 0, 4], [0, 5, 1], [1, 5, 4], [0, 4, 5]]"

definition E_flipped :: "nat list list" where
  "E_flipped = [[0, 2], [3, 1], [3, 2], [2, 3], [0, 4], [5, 1], [5, 4], [4, 5], [2, 1], [1, 0], [2, 1], [3, 0], [4, 1], [1, 0], [4, 1], [5, 0], [1, 0], [0, 3], [1, 3], [0, 2], [1, 0], [0, 5], [1, 5], [0, 4]]"

definition uE_flipped :: "nat list list" where
  "uE_flipped = [[0, 1], [0, 2], [0, 3], [0, 4], [0, 5], [1, 2], [1, 3], [1, 4], [1, 5], [2, 3], [4, 5]]"

definition EMAP_flipped :: "nat list" where
  "EMAP_flipped = [1, 6, 9, 9, 3, 8, 10, 10, 5, 0, 5, 2, 7, 0, 7, 4, 0, 2, 6, 1, 0, 4, 8, 3]"

definition uE2E_flipped :: "nat list list" where
  "uE2E_flipped = [[9, 13, 16, 20], [0, 19], [11, 17], [4, 23], [15, 21], [8, 10], [1, 18], [12, 14], [5, 22], [2, 3], [6, 7]]"

definition TT_flipped :: "nat list list list" where
  "TT_flipped = [[[3], [2], [1, 5, 4]], [[2], [5, 0, 4], [3]], [[3], [0], [1]], [[2], [1], [0]], [[7], [6], [1, 5, 0]], [[6], [1, 0, 4], [7]], [[7], [4], [5]], [[6], [5], [4]]]"

definition ext_flipped :: externals where
  "ext_flipped =
     \<lparr>unique_edge_map = (\<lambda>F. (E_flipped, uE_flipped, EMAP_flipped, uE2E_flipped)),
      extract_manifold_patches = (\<lambda>F EMAP uE2E. (2, [0, 0, 0, 0, 1, 1, 1, 1])),
      extract_non_manifold_edge_curves = (\<lambda>F EMAP uE2E. [[0]]),
      order_facets_around_edge = (\<lambda>V F s d adj_faces. [0, 2, 3, 1]),
      outer_facet = (\<lambda>V F I. (1, False)),
      triangle_triangle_adjacency = (\<lambda>E EMAP uE2E b. TT_flipped),
      facet_components = (\<lambda>TT. ([0, 0, 0, 0, 0, 0, 0, 0], [8])),
      closest_facet = (\<lambda>V F samples. ([], [])),
      extract_cells = (\<lambda>V F P E uE uE2E EMAP. (3, [[0, 1], [1, 2]]))\<rparr>"

text \<open>A single tetrahedron: four faces, one patch, no intersection curve, two cells.\<close>

definition F_tetrahedron :: faces where
  "F_tetrahedron = [[0, 1, 2], [0, 3, 1], [1, 3, 2], [0, 2, 3]]"

definition E_tetrahedron :: "nat list list" where
  "E_tetrahedron = [[1, 2], [3, 1], [3, 2], [2, 3], [2, 0], [1, 0], [2, 1], [3, 0], [0, 1], [0, 3], [1, 3], [0, 2]]"

definition uE_tetrahedron :: "nat list list" where
  "uE_tetrahedron = [[0, 1], [0, 2], [0, 3], [1, 2], [1, 3], [2, 3]]"

definition EMAP_tetrahedron :: "nat list" where
  "EMAP_tetrahedron = [3, 4, 5, 5, 1, 0, 3, 2, 0, 2, 4, 1]"

definition uE2E_tetrahedron :: "nat list list" where
  "uE2E_tetrahedron = [[5, 8], [4, 11], [7, 9], [0, 6], [1, 10], [2, 3]]"

definition TT_tetrahedron :: "nat list list list" where
  "TT_tetrahedron = [[[2], [3], [1]], [[2], [0], [3]], [[3], [0], [1]], [[2], [1], [0]]]"

definition ext_tetrahedron :: externals where
  "ext_tetrahedron =
     \<lparr>unique_edge_map = (\<lambda>F. (E_tetrahedron, uE_tetrahedron, EMAP_tetrahedron, uE2E_tetrahedron)),
      extract_manifold_patches = (\<lambda>F EMAP uE2E. (1, [0, 0, 0, 0])),
      extract_non_manifold_edge_curves = (\<lambda>F EMAP uE2E. []),
      order_facets_around_edge = (\<lambda>V F s d adj_faces. []),
      outer_facet = (\<lambda>V F I. (0, False)),
      triangle_triangle_adjacency = (\<lambda>E EMAP uE2E b. TT_tetrahedron),
      facet_components = (\<lambda>TT. ([0, 0, 0, 0], [4])),
      closest_facet = (\<lambda>V F samples. ([], [])),
      extract_cells = (\<lambda>V F P E uE uE2E EMAP. (2, [[0, 1]]))\<rparr>"

text \<open>A single triangle: each of its three edges has one incident face.\<close>

definition F_triangle :: faces where
  "F_triangle = [[0, 1, 2]]"

definition E_triangle :: "nat list list" where
  "E_triangle = [[1, 2], [2, 0], [0, 1]]"

definition uE_triangle :: "nat list list" where
  "uE_triangle = [[0, 1], [0, 2], [1, 2]]"

definition EMAP_triangle :: "nat list" where
  "EMAP_triangle = [2, 1, 0]"

definition uE2E_triangle :: "nat list list" where
  "uE2E_triangle = [[2], [1], [0]]"

definition TT_triangle :: "nat list list list" where
  "TT_triangle = [[[], [], []]]"

definition ext_triangle :: externals where
  "ext_triangle =
     \<lparr>unique_edge_map = (\<lambda>F. (E_triangle, uE_triangle, EMAP_triangle, uE2E_triangle)),
      extract_manifold_patches = (\<lambda>F EMAP uE2E. (1, [0])),
      extract_non_manifold_edge_curves = (\<lambda>F EMAP uE2E. []),
      order_facets_around_edge = (\<lambda>V F s d adj_faces. []),
      outer_facet = (\<lambda>V F I. (0, False)),
      triangle_triangle_adjacency = (\<lambda>E EMAP uE2E b. TT_triangle),
      facet_components = (\<lambda>TT. ([0], [1])),
      closest_facet = (\<lambda>V F samples. ([], [])),
      extract_cells = (\<lambda>V F P E uE uE2E EMAP. (1, [[0, 0]]))\<rparr>"

text \<open>
  Two disjoint tetrahedra, the second (vertices 4 to 7) strictly inside the first: two
  connected components of four faces each. A point of the inner component is inside the
  outer one, and a point of the outer component is outside the inner one.
\<close>

definition V_disjoint :: vertices where
  "V_disjoint = [[0, 0, 0], [0, 0, 4], [0, 4, 2], [4, 0, 2],
                 [1, 1, 3 / 2], [1, 1, 5 / 2], [1, 3 / 2, 2], [3 / 2, 1, 2]]"

definition F_inner :: faces where
  "F_inner = [[4, 5, 6], [4, 7, 5], [5, 7, 6], [4, 6, 7]]"

definition E_inner :: "nat list list" where
  "E_inner = [[5, 6], [7, 5], [7, 6], [6, 7], [6, 4], [5, 4], [6, 5], [7, 4], [4, 5], [4, 7], [5, 7], [4, 6]]"

definition uE_inner :: "nat list list" where
  "uE_inner = [[4, 5], [4, 6], [4, 7], [5, 6], [5, 7], [6, 7]]"

definition EMAP_inner :: "nat list" where
  "EMAP_inner = [3, 4, 5, 5, 1, 0, 3, 2, 0, 2, 4, 1]"

definition uE2E_inner :: "nat list list" where
  "uE2E_inner = [[5, 8], [4, 11], [7, 9], [0, 6], [1, 10], [2, 3]]"

definition TT_inner :: "nat list list list" where
  "TT_inner = [[[2], [3], [1]], [[2], [0], [3]], [[3], [0], [1]], [[2], [1], [0]]]"

definition F_disjoint :: faces where
  "F_disjoint = [[0, 1, 2], [0, 3, 1], [1, 3, 2], [0, 2, 3], [4, 5, 6], [4, 7, 5], [5, 7, 6], [4, 6, 7]]"

definition E_disjoint :: "nat list list" where
  "E_disjoint = [[1, 2], [3, 1], [3, 2], [2, 3], [5, 6], [7, 5], [7, 6], [6, 7], [2, 0], [1, 0], [2, 1], [3, 0], [6, 4], [5, 4], [6, 5], [7, 4], [0, 1], [0, 3], [1, 3], [0, 2], [4, 5], [4, 7], [5, 7], [4, 6]]"

definition uE_disjoint :: "nat list list" where
  "uE_disjoint = [[0, 1], [0, 2], [0, 3], [1, 2], [1, 3], [2, 3], [4, 5], [4, 6], [4, 7], [5, 6], [5, 7], [6, 7]]"

definition EMAP_disjoint :: "nat list" where
  "EMAP_disjoint = [3, 4, 5, 5, 9, 10, 11, 11, 1, 0, 3, 2, 7, 6, 9, 8, 0, 2, 4, 1, 6, 8, 10, 7]"

definition uE2E_disjoint :: "nat list list" where
  "uE2E_disjoint = [[9, 16], [8, 19], [11, 17], [0, 10], [1, 18], [2, 3], [13, 20], [12, 23], [15, 21], [4, 14], [5, 22], [6, 7]]"

definition TT_disjoint :: "nat list list list" where
  "TT_disjoint = [[[2], [3], [1]], [[2], [0], [3]], [[3], [0], [1]], [[2], [1], [0]], [[6], [7], [5]], [[6], [4], [7]], [[7], [4], [5]], [[6], [5], [4]]]"

definition ext_disjoint :: externals where
  "ext_disjoint =
     \<lparr>unique_edge_map = (\<lambda>F.
        if F = F_tetrahedron then (E_tetrahedron, uE_tetrahedron, EMAP_tetrahedron, uE2E_tetrahedron)
        else if F = F_inner then (E_inner, uE_inner, EMAP_inner, uE2E_inner)
        else (E_disjoint, uE_disjoint, EMAP_disjoint, uE2E_disjoint)),
      extract_manifold_patches = (\<lambda>F EMAP uE2E.
        if F = F_disjoint then (2, [0, 0, 0, 0, 1, 1, 1, 1]) else (1, [0, 0, 0, 0])),
      extract_non_manifold_edge_curves = (\<lambda>F EMAP uE2E. []),
      order_facets_around_edge = (\<lambda>V F s d adj_faces. []),
      outer_facet = (\<lambda>V F I. (0, False)),
      triangle_triangle_adjacency = (\<lambda>E EMAP uE2E b. TT_disjoint),
      facet_components = (\<lambda>TT. ([0, 0, 0, 0, 1, 1, 1, 1], [4, 4])),
      closest_facet = (\<lambda>V F samples. if F = F_tetrahedron then ([0], [False]) else ([0], [True])),
      extract_cells = (\<lambda>V F P E uE uE2E EMAP. (3, [[0, 1], [1, 2]]))\<rparr>"











definition E_wedges_rotated :: "nat list list" where
  "E_wedges_rotated = [[0, 2], [1, 3], [0, 4], [1, 5], [0, 6], [1, 7], [0, 3], [2, 3], [0, 5], [4, 5], [0, 7], [6, 7], [2, 1], [3, 0], [4, 1], [5, 0], [6, 1], [7, 0], [3, 2], [3, 1], [5, 4], [5, 1], [7, 6], [7, 1], [1, 0], [0, 1], [1, 0], [0, 1], [1, 0], [0, 1], [2, 0], [1, 2], [4, 0], [1, 4], [6, 0], [1, 6]]"

definition uE_wedges_rotated :: "nat list list" where
  "uE_wedges_rotated = [[0, 1], [0, 2], [0, 3], [0, 4], [0, 5], [0, 6], [0, 7], [1, 2], [1, 3], [1, 4], [1, 5], [1, 6], [1, 7], [2, 3], [4, 5], [6, 7]]"

definition EMAP_wedges_rotated :: "nat list" where
  "EMAP_wedges_rotated = [1, 8, 3, 10, 5, 12, 2, 13, 4, 14, 6, 15, 7, 2, 9, 4, 11, 6, 13, 8, 14, 10, 15, 12, 0, 0, 0, 0, 0, 0, 1, 7, 3, 9, 5, 11]"

definition uE2E_wedges_rotated :: "nat list list" where
  "uE2E_wedges_rotated = [[24, 25, 26, 27, 28, 29], [0, 30], [6, 13], [2, 32], [8, 15], [4, 34], [10, 17], [12, 31], [1, 19], [14, 33], [3, 21], [16, 35], [5, 23], [7, 18], [9, 20], [11, 22]]"

definition TT_wedges_rotated :: "nat list list list" where
  "TT_wedges_rotated = [[[6], [7], [1, 2, 3, 4, 5]], [[7], [6], [0, 2, 3, 4, 5]], [[8], [9], [0, 1, 3, 4, 5]], [[9], [8], [0, 1, 2, 4, 5]], [[10], [11], [0, 1, 2, 3, 5]], [[11], [10], [0, 1, 2, 3, 4]], [[1], [7], [0]], [[6], [1], [0]], [[3], [9], [2]], [[8], [3], [2]], [[5], [11], [4]], [[10], [5], [4]]]"

definition P_wedges_rotated :: "nat list" where
  "P_wedges_rotated = [0, 0, 1, 1, 2, 2, 0, 0, 1, 1, 2, 2]"


text \<open>
  The same mesh with a table of cells that closes a cycle of three cells: patch 0 between
  the cells 0 and 1, patch 1 between 1 and 2, patch 2 between 2 and 0.
\<close>

definition ext_odd_cycle :: externals where
  "ext_odd_cycle =
     \<lparr>unique_edge_map = (\<lambda>F. (E_wedges_rotated, uE_wedges_rotated, EMAP_wedges_rotated, uE2E_wedges_rotated)),
      extract_manifold_patches = (\<lambda>F EMAP uE2E. (3, P_wedges_rotated)),
      extract_non_manifold_edge_curves = (\<lambda>F EMAP uE2E. [[0]]),
      order_facets_around_edge = (\<lambda>V F s d adj_faces. [0, 1, 2, 3, 4, 5]),
      outer_facet = (\<lambda>V F I. (6, False)),
      triangle_triangle_adjacency = (\<lambda>E EMAP uE2E b. TT_wedges_rotated),
      facet_components = (\<lambda>TT. ([0, 0, 0, 0, 0, 0, 0, 0, 0, 0, 0, 0], [12])),
      closest_facet = (\<lambda>V F samples. ([], [])),
      extract_cells = (\<lambda>V F P E uE uE2E EMAP. (3, [[0, 1], [1, 2], [2, 0]]))\<rparr>"

section \<open>Properties of the matrix operations\<close>

lemma set_coeff_length [simp]: "length (set_coeff M r c v) = length M"
  by (simp add: set_coeff_def)

lemma set_coeff_row_length [simp]: "length (set_coeff M r c v ! p) = length (M ! p)"
  by (cases "r < length M"; cases "p = r") (simp_all add: set_coeff_def list_update_beyond)

lemma set_coeff_nth:
  "r < length M \<Longrightarrow> c < length (M ! r) \<Longrightarrow>
   set_coeff M r c v ! p ! q = (if p = r \<and> q = c then v else M ! p ! q)"
  by (auto simp: set_coeff_def nth_list_update)

lemma set_coeff_other_row: "p \<noteq> r \<Longrightarrow> set_coeff M r c v ! p = M ! p"
  by (simp add: set_coeff_def)

section \<open>The seed of the patch-wise propagator\<close>

lemma seed_patch_W_length: "length (seed_patch_W np nl opi l f) = np"
  by (simp add: seed_patch_W_def Let_def)

lemma seed_patch_W_row_length:
  "p < np \<Longrightarrow> length (seed_patch_W np nl opi l f ! p) = 2 * nl"
  by (cases "p = opi") (simp_all add: seed_patch_W_def Let_def set_coeff_def)

lemma seed_patch_W_other:
  "p < np \<Longrightarrow> p \<noteq> opi \<Longrightarrow> seed_patch_W np nl opi l f ! p = replicate (2 * nl) INVALID"
  by (simp add: seed_patch_W_def Let_def set_coeff_def)

lemma seed_patch_W_outer:
  assumes "opi < np" and "l < nl" and "c < 2 * nl"
  shows "seed_patch_W np nl opi l f ! opi ! c =
           (if f \<and> c = l * 2 then - 1 else if \<not> f \<and> c = l * 2 + 1 then 1 else 0)"
  using assms by (simp add: seed_patch_W_def Let_def set_coeff_def nth_list_update del: replicate_Suc)

text \<open>
  Claim C5. In \<^verbatim>\<open>propagate_winding_numbers_single_component_patch_wise\<close> the matrix
  \<^verbatim>\<open>patch_W\<close> has one row of \<open>2 * num_labels\<close> entries per patch when the traversal
  starts. The row of the patch of the outer facet is zero, except for the pair of the
  patch's own label: its front entry is \<open>-1\<close> when the outer facet is flipped, and its
  back entry is \<open>1\<close> when it is not, so the pair is \<open>(-1, 0)\<close> or \<open>(0, 1)\<close>. Every entry
  of every other row is \<open>INVALID\<close>.
\<close>

theorem seed_patch_W_spec:
  assumes "P \<noteq> []" and "outer_facet_idx < length P" and "length labels = Max (set P) + 1"
  shows "let num_patches = Max (set P) + 1;
             num_labels = Max (set labels) + 1;
             outer_patch_idx = P ! outer_facet_idx;
             outer_patch_label = labels ! outer_patch_idx;
             patch_W = seed_patch_W num_patches num_labels outer_patch_idx outer_patch_label flipped
         in length patch_W = num_patches \<and>
            (\<forall>p < num_patches. length (patch_W ! p) = 2 * num_labels) \<and>
            (\<forall>k < num_labels.
               patch_W ! outer_patch_idx ! (2 * k) = (if k = outer_patch_label \<and> flipped then - 1 else 0) \<and>
               patch_W ! outer_patch_idx ! (2 * k + 1) = (if k = outer_patch_label \<and> \<not> flipped then 1 else 0)) \<and>
            (\<forall>p < num_patches. p \<noteq> outer_patch_idx \<longrightarrow> (\<forall>c < 2 * num_labels. patch_W ! p ! c = INVALID))"
proof -
  define np where "np = Max (set P) + 1"
  define nl where "nl = Max (set labels) + 1"
  define opi where "opi = P ! outer_facet_idx"
  have o: "opi < np"
    using assms(2) by (simp add: opi_def np_def less_Suc_eq_le)
  then have "labels ! opi \<in> set labels"
    using assms(3) by (simp add: np_def)
  then have l: "labels ! opi < nl"
    by (simp add: nl_def less_Suc_eq_le)
  have front_entry: "seed_patch_W np nl opi (labels ! opi) flipped ! opi ! (2 * k) =
      (if k = labels ! opi \<and> flipped then - 1 else 0)" if "k < nl" for k
  proof -
    have "2 * k \<noteq> labels ! opi * 2 + 1" by presburger
    moreover have "2 * k = labels ! opi * 2 \<longleftrightarrow> k = labels ! opi" by presburger
    ultimately show ?thesis
      using that seed_patch_W_outer [OF o l, of "2 * k" flipped] by simp
  qed
  have back_entry: "seed_patch_W np nl opi (labels ! opi) flipped ! opi ! (2 * k + 1) =
      (if k = labels ! opi \<and> \<not> flipped then 1 else 0)" if "k < nl" for k
  proof -
    have "2 * k + 1 \<noteq> labels ! opi * 2" by presburger
    moreover have "2 * k + 1 = labels ! opi * 2 + 1 \<longleftrightarrow> k = labels ! opi" by presburger
    ultimately show ?thesis
      using that seed_patch_W_outer [OF o l, of "2 * k + 1" flipped] by simp
  qed
  have "length (seed_patch_W np nl opi (labels ! opi) flipped) = np \<and>
    (\<forall>p < np. length (seed_patch_W np nl opi (labels ! opi) flipped ! p) = 2 * nl) \<and>
    (\<forall>k < nl.
       seed_patch_W np nl opi (labels ! opi) flipped ! opi ! (2 * k) = (if k = labels ! opi \<and> flipped then - 1 else 0) \<and>
       seed_patch_W np nl opi (labels ! opi) flipped ! opi ! (2 * k + 1) = (if k = labels ! opi \<and> \<not> flipped then 1 else 0)) \<and>
    (\<forall>p < np. p \<noteq> opi \<longrightarrow> (\<forall>c < 2 * nl. seed_patch_W np nl opi (labels ! opi) flipped ! p ! c = INVALID))"
    using front_entry back_entry by (simp add: seed_patch_W_length seed_patch_W_row_length seed_patch_W_other)
  then show ?thesis
    unfolding Let_def np_def nl_def opi_def .
qed

theorem seed_patch_W_spec_witness:
  "(let num_patches = Max (set [0, 1, 1 :: nat]) + 1;
        num_labels = Max (set [1, 0 :: nat]) + 1;
        outer_patch_idx = [0, 1, 1 :: nat] ! 2;
        outer_patch_label = [1, 0 :: nat] ! outer_patch_idx;
        patch_W = seed_patch_W num_patches num_labels outer_patch_idx outer_patch_label True
    in length patch_W = num_patches \<and>
       (\<forall>p < num_patches. length (patch_W ! p) = 2 * num_labels) \<and>
       (\<forall>k < num_labels.
          patch_W ! outer_patch_idx ! (2 * k) = (if k = outer_patch_label \<and> True then - 1 else 0) \<and>
          patch_W ! outer_patch_idx ! (2 * k + 1) = (if k = outer_patch_label \<and> \<not> True then 1 else 0)) \<and>
       (\<forall>p < num_patches. p \<noteq> outer_patch_idx \<longrightarrow> (\<forall>c < 2 * num_labels. patch_W ! p ! c = INVALID))) \<and>
   seed_patch_W 2 2 1 0 True = [[INVALID, INVALID, INVALID, INVALID], [- 1, 0, 0, 0]] \<and>
   seed_patch_W 2 2 1 0 False = [[INVALID, INVALID, INVALID, INVALID], [0, 1, 0, 0]]"
proof (intro conjI)
  show "let num_patches = Max (set [0, 1, 1 :: nat]) + 1;
        num_labels = Max (set [1, 0 :: nat]) + 1;
        outer_patch_idx = [0, 1, 1 :: nat] ! 2;
        outer_patch_label = [1, 0 :: nat] ! outer_patch_idx;
        patch_W = seed_patch_W num_patches num_labels outer_patch_idx outer_patch_label True
    in length patch_W = num_patches \<and>
       (\<forall>p < num_patches. length (patch_W ! p) = 2 * num_labels) \<and>
       (\<forall>k < num_labels.
          patch_W ! outer_patch_idx ! (2 * k) = (if k = outer_patch_label \<and> True then - 1 else 0) \<and>
          patch_W ! outer_patch_idx ! (2 * k + 1) = (if k = outer_patch_label \<and> \<not> True then 1 else 0)) \<and>
       (\<forall>p < num_patches. p \<noteq> outer_patch_idx \<longrightarrow> (\<forall>c < 2 * num_labels. patch_W ! p ! c = INVALID))"
    by (rule seed_patch_W_spec) simp_all
  show "seed_patch_W 2 2 1 0 True = [[INVALID, INVALID, INVALID, INVALID], [- 1, 0, 0, 0]]"
    by code_simp
  show "seed_patch_W 2 2 1 0 False = [[INVALID, INVALID, INVALID, INVALID], [0, 1, 0, 0]]"
    by code_simp
qed

section \<open>The crossing rule of the patch-wise traversal\<close>


lemma derive_next_0: "derive_next labels 0 W cu nx cons = W"
  by (simp add: derive_next_def)

lemma derive_next_Suc:
  "derive_next labels (Suc n) W cu nx cons =
     (let D = derive_next labels n W cu nx cons; shared = D ! cu ! (2 * n) in
      if n = labels ! nx
      then (if cons then set_coeff (set_coeff D nx (2 * n) shared) nx (2 * n + 1) (shared + 1)
            else set_coeff (set_coeff D nx (2 * n + 1) shared) nx (2 * n) (shared - 1))
      else set_coeff (set_coeff D nx (2 * n) shared) nx (2 * n + 1) shared)"
  by (simp add: derive_next_def Let_def mult.commute)

lemma derive_next_upto:
  assumes "nx \<noteq> cu" and "nx < length W" and "length (W ! nx) = 2 * nl" and "n \<le> nl"
  shows "length (derive_next labels n W cu nx cons) = length W \<and>
    (\<forall>p. p \<noteq> nx \<longrightarrow> derive_next labels n W cu nx cons ! p = W ! p) \<and>
    length (derive_next labels n W cu nx cons ! nx) = 2 * nl \<and>
    (\<forall>i < nl. derive_next labels n W cu nx cons ! nx ! (2 * i) =
        (if i < n then (if i = labels ! nx \<and> \<not> cons then W ! cu ! (2 * i) - 1 else W ! cu ! (2 * i))
         else W ! nx ! (2 * i)) \<and>
      derive_next labels n W cu nx cons ! nx ! (2 * i + 1) =
        (if i < n then (if i = labels ! nx \<and> cons then W ! cu ! (2 * i) + 1 else W ! cu ! (2 * i))
         else W ! nx ! (2 * i + 1)))"
  using assms(4)
proof (induction n)
  case 0
  then show ?case using assms(3) by (simp add: derive_next_0)
next
  case (Suc n)
  define D where "D = derive_next labels n W cu nx cons"
  define D' where "D' = derive_next labels (Suc n) W cu nx cons"
  define sh where "sh = W ! cu ! (2 * n)"
  define A where "A = (if n = labels ! nx \<and> \<not> cons then sh - 1 else sh)"
  define B where "B = (if n = labels ! nx \<and> cons then sh + 1 else sh)"
  from Suc have IH: "length D = length W" "\<And>p. p \<noteq> nx \<Longrightarrow> D ! p = W ! p" "length (D ! nx) = 2 * nl"
    "\<And>i. i < nl \<Longrightarrow> D ! nx ! (2 * i) =
        (if i < n then (if i = labels ! nx \<and> \<not> cons then W ! cu ! (2 * i) - 1 else W ! cu ! (2 * i))
         else W ! nx ! (2 * i))"
    "\<And>i. i < nl \<Longrightarrow> D ! nx ! (2 * i + 1) =
        (if i < n then (if i = labels ! nx \<and> cons then W ! cu ! (2 * i) + 1 else W ! cu ! (2 * i))
         else W ! nx ! (2 * i + 1))"
    by (simp_all add: D_def)
  have n: "n < nl" using Suc.prems by simp
  have cu: "D ! cu ! (2 * n) = sh" using IH(2) [of cu] assms(1) by (simp add: sh_def)
  have nxl: "nx < length D" using IH(1) assms(2) by simp
  have c0: "2 * n < length (D ! nx)" "2 * n + 1 < length (D ! nx)"
    using IH(3) n by simp_all
  have D': "D' = set_coeff (set_coeff D nx (2 * n) A) nx (2 * n + 1) B \<or>
            D' = set_coeff (set_coeff D nx (2 * n + 1) B) nx (2 * n) A"
    unfolding D'_def derive_next_Suc D_def [symmetric] Let_def cu A_def B_def
    by (cases "n = labels ! nx"; cases cons) simp_all
  have len: "length D' = length W" using D' IH(1) by auto
  have others: "D' ! p = W ! p" if "p \<noteq> nx" for p
    using D' IH(2) [OF that] that by (auto simp: set_coeff_other_row)
  have rowlen: "length (D' ! nx) = 2 * nl" using D' IH(3) by auto
  have entry: "D' ! nx ! c = (if c = 2 * n then A else if c = 2 * n + 1 then B else D ! nx ! c)" for c
    using D' nxl c0 by (auto simp: set_coeff_nth)
  have even: "D' ! nx ! (2 * i) =
        (if i < Suc n then (if i = labels ! nx \<and> \<not> cons then W ! cu ! (2 * i) - 1 else W ! cu ! (2 * i))
         else W ! nx ! (2 * i))" if "i < nl" for i
  proof (cases "i = n")
    case True
    then show ?thesis by (simp add: entry A_def sh_def)
  next
    case False
    then have "2 * i \<noteq> 2 * n" "2 * i \<noteq> 2 * n + 1" by presburger+
    then show ?thesis using IH(4) [OF that] False by (simp add: entry less_Suc_eq)
  qed
  have odd: "D' ! nx ! (2 * i + 1) =
        (if i < Suc n then (if i = labels ! nx \<and> cons then W ! cu ! (2 * i) + 1 else W ! cu ! (2 * i))
         else W ! nx ! (2 * i + 1))" if "i < nl" for i
  proof (cases "i = n")
    case True
    then show ?thesis by (simp add: entry B_def sh_def)
  next
    case False
    then have "2 * i + 1 \<noteq> 2 * n" "2 * i + 1 \<noteq> 2 * n + 1" by presburger+
    then show ?thesis using IH(5) [OF that] False by (simp add: entry less_Suc_eq)
  qed
  show ?case
    using len others rowlen even odd unfolding D'_def by blast
qed


lemma derive_prev_0: "derive_prev labels 0 W cu pv cons = W"
  by (simp add: derive_prev_def)

lemma derive_prev_Suc:
  "derive_prev labels (Suc n) W cu pv cons =
     (let D = derive_prev labels n W cu pv cons; shared = D ! cu ! (2 * n + 1) in
      if n = labels ! pv
      then (if cons then set_coeff (set_coeff D pv (2 * n + 1) shared) pv (2 * n) (shared - 1)
            else set_coeff (set_coeff D pv (2 * n) shared) pv (2 * n + 1) (shared + 1))
      else set_coeff (set_coeff D pv (2 * n) shared) pv (2 * n + 1) shared)"
  by (simp add: derive_prev_def Let_def mult.commute)

lemma derive_prev_upto:
  assumes "pv \<noteq> cu" and "pv < length W" and "length (W ! pv) = 2 * nl" and "n \<le> nl"
  shows "length (derive_prev labels n W cu pv cons) = length W \<and>
    (\<forall>p. p \<noteq> pv \<longrightarrow> derive_prev labels n W cu pv cons ! p = W ! p) \<and>
    length (derive_prev labels n W cu pv cons ! pv) = 2 * nl \<and>
    (\<forall>i < nl. derive_prev labels n W cu pv cons ! pv ! (2 * i) =
        (if i < n then (if i = labels ! pv \<and> cons then W ! cu ! (2 * i + 1) - 1 else W ! cu ! (2 * i + 1))
         else W ! pv ! (2 * i)) \<and>
      derive_prev labels n W cu pv cons ! pv ! (2 * i + 1) =
        (if i < n then (if i = labels ! pv \<and> \<not> cons then W ! cu ! (2 * i + 1) + 1 else W ! cu ! (2 * i + 1))
         else W ! pv ! (2 * i + 1)))"
  using assms(4)
proof (induction n)
  case 0
  then show ?case using assms(3) by (simp add: derive_prev_0)
next
  case (Suc n)
  define D where "D = derive_prev labels n W cu pv cons"
  define D' where "D' = derive_prev labels (Suc n) W cu pv cons"
  define sh where "sh = W ! cu ! (2 * n + 1)"
  define A where "A = (if n = labels ! pv \<and> cons then sh - 1 else sh)"
  define B where "B = (if n = labels ! pv \<and> \<not> cons then sh + 1 else sh)"
  from Suc have IH: "length D = length W" "\<And>p. p \<noteq> pv \<Longrightarrow> D ! p = W ! p" "length (D ! pv) = 2 * nl"
    "\<And>i. i < nl \<Longrightarrow> D ! pv ! (2 * i) =
        (if i < n then (if i = labels ! pv \<and> cons then W ! cu ! (2 * i + 1) - 1 else W ! cu ! (2 * i + 1))
         else W ! pv ! (2 * i))"
    "\<And>i. i < nl \<Longrightarrow> D ! pv ! (2 * i + 1) =
        (if i < n then (if i = labels ! pv \<and> \<not> cons then W ! cu ! (2 * i + 1) + 1 else W ! cu ! (2 * i + 1))
         else W ! pv ! (2 * i + 1))"
    by (simp_all add: D_def)
  have n: "n < nl" using Suc.prems by simp
  have cu: "D ! cu ! (2 * n + 1) = sh" using IH(2) [of cu] assms(1) by (simp add: sh_def)
  have pvl: "pv < length D" using IH(1) assms(2) by simp
  have c0: "2 * n < length (D ! pv)" "2 * n + 1 < length (D ! pv)"
    using IH(3) n by simp_all
  have D': "D' = set_coeff (set_coeff D pv (2 * n) A) pv (2 * n + 1) B \<or>
            D' = set_coeff (set_coeff D pv (2 * n + 1) B) pv (2 * n) A"
    unfolding D'_def derive_prev_Suc D_def [symmetric] Let_def cu A_def B_def
    by (cases "n = labels ! pv"; cases cons) simp_all
  have len: "length D' = length W" using D' IH(1) by auto
  have others: "D' ! p = W ! p" if "p \<noteq> pv" for p
    using D' IH(2) [OF that] that by (auto simp: set_coeff_other_row)
  have rowlen: "length (D' ! pv) = 2 * nl" using D' IH(3) by auto
  have entry: "D' ! pv ! c = (if c = 2 * n then A else if c = 2 * n + 1 then B else D ! pv ! c)" for c
    using D' pvl c0 by (auto simp: set_coeff_nth)
  have even: "D' ! pv ! (2 * i) =
        (if i < Suc n then (if i = labels ! pv \<and> cons then W ! cu ! (2 * i + 1) - 1 else W ! cu ! (2 * i + 1))
         else W ! pv ! (2 * i))" if "i < nl" for i
  proof (cases "i = n")
    case True
    then show ?thesis by (simp add: entry A_def sh_def)
  next
    case False
    then have "2 * i \<noteq> 2 * n" "2 * i \<noteq> 2 * n + 1" by presburger+
    then show ?thesis using IH(4) [OF that] False by (simp add: entry less_Suc_eq)
  qed
  have odd: "D' ! pv ! (2 * i + 1) =
        (if i < Suc n then (if i = labels ! pv \<and> \<not> cons then W ! cu ! (2 * i + 1) + 1 else W ! cu ! (2 * i + 1))
         else W ! pv ! (2 * i + 1))" if "i < nl" for i
  proof (cases "i = n")
    case True
    then show ?thesis by (simp add: entry B_def sh_def)
  next
    case False
    then have "2 * i + 1 \<noteq> 2 * n" "2 * i + 1 \<noteq> 2 * n + 1" by presburger+
    then show ?thesis using IH(5) [OF that] False by (simp add: entry less_Suc_eq)
  qed
  show ?case
    using len others rowlen even odd unfolding D'_def by blast
qed

lemma next_index_less: "curr_i < n \<Longrightarrow> next_index n curr_i b < n"
  by (simp add: next_index_def)

lemma prev_index_less: "curr_i < n \<Longrightarrow> prev_index n curr_i b < n"
  by (simp add: prev_index_def)

lemma assigned_differs:
  "winding_num_assigned W p \<Longrightarrow> \<not> winding_num_assigned W q \<Longrightarrow> q \<noteq> p"
  by auto

text \<open>
  Claim C2. A dequeued patch \<open>curr_patch_idx\<close> with a fully assigned row stands at position
  \<open>curr_i\<close> of a curve's order. If its forward neighbour is assigned, nothing is written
  and nothing is queued. Otherwise the neighbour is queued, only its row changes, and for
  every label \<open>k\<close> the pair (front, back) of that row is: both equal to the shared
  value, the front entry of the current patch, when \<open>k\<close> is not the neighbour's label;
  \<open>(shared - 1, shared)\<close> for the neighbour's label when the two orientation flags
  match; \<open>(shared, shared + 1)\<close> when they differ. The backward neighbour is the mirror:
  the shared value is the back entry of the current patch, and the pair of the
  neighbour's label is \<open>(shared, shared + 1)\<close> when the flags match and
  \<open>(shared - 1, shared)\<close> when they differ.
\<close>

theorem assign_neighbours_spec:
  assumes "length patch_W = num_patches"
    and "\<forall>p < num_patches. length (patch_W ! p) = 2 * num_labels"
    and "\<forall>p \<in> set order. p < num_patches"
    and "curr_i < length order"
    and "winding_num_assigned patch_W curr_patch_idx"
  shows "(let curr_ori = orientation ! curr_i;
             next_i = next_index (length order) curr_i curr_ori;
             next_patch_idx = order ! next_i;
             flags_match = (orientation ! next_i = curr_ori);
             s' = assign_next labels num_labels order orientation curr_patch_idx curr_i (patch_W, Q)
         in (winding_num_assigned patch_W next_patch_idx \<longrightarrow> s' = (patch_W, Q)) \<and>
            (\<not> winding_num_assigned patch_W next_patch_idx \<longrightarrow>
               snd s' = Q @ [next_patch_idx] \<and> length (fst s') = num_patches \<and>
               (\<forall>p. p \<noteq> next_patch_idx \<longrightarrow> fst s' ! p = patch_W ! p) \<and>
               (\<forall>k < num_labels.
                  (fst s' ! next_patch_idx ! (2 * k), fst s' ! next_patch_idx ! (2 * k + 1)) =
                    (let shared = patch_W ! curr_patch_idx ! (2 * k) in
                     if k \<noteq> labels ! next_patch_idx then (shared, shared)
                     else if flags_match then (shared - 1, shared)
                     else (shared, shared + 1))))) \<and>
         (let curr_ori = orientation ! curr_i;
             prev_i = prev_index (length order) curr_i curr_ori;
             prev_patch_idx = order ! prev_i;
             flags_match = (orientation ! prev_i = curr_ori);
             s' = assign_prev labels num_labels order orientation curr_patch_idx curr_i (patch_W, Q)
         in (winding_num_assigned patch_W prev_patch_idx \<longrightarrow> s' = (patch_W, Q)) \<and>
            (\<not> winding_num_assigned patch_W prev_patch_idx \<longrightarrow>
               snd s' = Q @ [prev_patch_idx] \<and> length (fst s') = num_patches \<and>
               (\<forall>p. p \<noteq> prev_patch_idx \<longrightarrow> fst s' ! p = patch_W ! p) \<and>
               (\<forall>k < num_labels.
                  (fst s' ! prev_patch_idx ! (2 * k), fst s' ! prev_patch_idx ! (2 * k + 1)) =
                    (let shared = patch_W ! curr_patch_idx ! (2 * k + 1) in
                     if k \<noteq> labels ! prev_patch_idx then (shared, shared)
                     else if flags_match then (shared, shared + 1)
                     else (shared - 1, shared)))))"
proof -
  define nx where "nx = order ! next_index (length order) curr_i (orientation ! curr_i)"
  define pv where "pv = order ! prev_index (length order) curr_i (orientation ! curr_i)"
  have nx: "nx < length patch_W" and pv: "pv < length patch_W"
    using assms(1,3,4) by (simp_all add: nx_def pv_def next_index_less prev_index_less)
  have rows: "length (patch_W ! nx) = 2 * num_labels" "length (patch_W ! pv) = 2 * num_labels"
    using nx pv assms(1,2) by simp_all
  have forward: "let curr_ori = orientation ! curr_i;
             next_i = next_index (length order) curr_i curr_ori;
             next_patch_idx = order ! next_i;
             flags_match = (orientation ! next_i = curr_ori);
             s' = assign_next labels num_labels order orientation curr_patch_idx curr_i (patch_W, Q)
         in (winding_num_assigned patch_W next_patch_idx \<longrightarrow> s' = (patch_W, Q)) \<and>
            (\<not> winding_num_assigned patch_W next_patch_idx \<longrightarrow>
               snd s' = Q @ [next_patch_idx] \<and> length (fst s') = num_patches \<and>
               (\<forall>p. p \<noteq> next_patch_idx \<longrightarrow> fst s' ! p = patch_W ! p) \<and>
               (\<forall>k < num_labels.
                  (fst s' ! next_patch_idx ! (2 * k), fst s' ! next_patch_idx ! (2 * k + 1)) =
                    (let shared = patch_W ! curr_patch_idx ! (2 * k) in
                     if k \<noteq> labels ! next_patch_idx then (shared, shared)
                     else if flags_match then (shared - 1, shared)
                     else (shared, shared + 1))))"
  proof (cases "winding_num_assigned patch_W nx")
    case True
    then show ?thesis by (simp add: assign_next_def Let_def nx_def)
  next
    case False
    then have ne: "nx \<noteq> curr_patch_idx" using assms(5) by auto
    note d = derive_next_upto [OF ne nx rows(1) order_refl, of labels]
    show ?thesis
      using False d assms(1) unfolding assign_next_def Let_def nx_def [symmetric]
      by (auto simp: nx_def [symmetric])
  qed
  have backward: "let curr_ori = orientation ! curr_i;
             prev_i = prev_index (length order) curr_i curr_ori;
             prev_patch_idx = order ! prev_i;
             flags_match = (orientation ! prev_i = curr_ori);
             s' = assign_prev labels num_labels order orientation curr_patch_idx curr_i (patch_W, Q)
         in (winding_num_assigned patch_W prev_patch_idx \<longrightarrow> s' = (patch_W, Q)) \<and>
            (\<not> winding_num_assigned patch_W prev_patch_idx \<longrightarrow>
               snd s' = Q @ [prev_patch_idx] \<and> length (fst s') = num_patches \<and>
               (\<forall>p. p \<noteq> prev_patch_idx \<longrightarrow> fst s' ! p = patch_W ! p) \<and>
               (\<forall>k < num_labels.
                  (fst s' ! prev_patch_idx ! (2 * k), fst s' ! prev_patch_idx ! (2 * k + 1)) =
                    (let shared = patch_W ! curr_patch_idx ! (2 * k + 1) in
                     if k \<noteq> labels ! prev_patch_idx then (shared, shared)
                     else if flags_match then (shared, shared + 1)
                     else (shared - 1, shared))))"
  proof (cases "winding_num_assigned patch_W pv")
    case True
    then show ?thesis by (simp add: assign_prev_def Let_def pv_def)
  next
    case False
    then have ne: "pv \<noteq> curr_patch_idx" using assms(5) by auto
    note d = derive_prev_upto [OF ne pv rows(2) order_refl, of labels]
    show ?thesis
      using False d assms(1) unfolding assign_prev_def Let_def pv_def [symmetric]
      by (auto simp: pv_def [symmetric])
  qed
  from forward backward show ?thesis by (rule conjI)
qed

theorem assign_neighbours_spec_witness:
  "(let curr_ori = ([False, True, True, False]) ! (0::nat);
             next_i = next_index (length [0, 0, 1, 1 :: nat]) (0::nat) curr_ori;
             next_patch_idx = [0, 0, 1, 1 :: nat] ! next_i;
             flags_match = (([False, True, True, False]) ! next_i = curr_ori);
             s' = assign_next [0, 1 :: nat] (2::nat) [0, 0, 1, 1 :: nat] ([False, True, True, False]) (0::nat) (0::nat) (([[0, 1, 0, 0], [INVALID, INVALID, INVALID, INVALID]]), [] :: nat list)
         in (winding_num_assigned ([[0, 1, 0, 0], [INVALID, INVALID, INVALID, INVALID]]) next_patch_idx \<longrightarrow> s' = (([[0, 1, 0, 0], [INVALID, INVALID, INVALID, INVALID]]), [] :: nat list)) \<and>
            (\<not> winding_num_assigned ([[0, 1, 0, 0], [INVALID, INVALID, INVALID, INVALID]]) next_patch_idx \<longrightarrow>
               snd s' = ([] :: nat list) @ [next_patch_idx] \<and> length (fst s') = (2::nat) \<and>
               (\<forall>p. p \<noteq> next_patch_idx \<longrightarrow> fst s' ! p = ([[0, 1, 0, 0], [INVALID, INVALID, INVALID, INVALID]]) ! p) \<and>
               (\<forall>k < (2::nat).
                  (fst s' ! next_patch_idx ! (2 * k), fst s' ! next_patch_idx ! (2 * k + 1)) =
                    (let shared = ([[0, 1, 0, 0], [INVALID, INVALID, INVALID, INVALID]]) ! (0::nat) ! (2 * k) in
                     if k \<noteq> [0, 1 :: nat] ! next_patch_idx then (shared, shared)
                     else if flags_match then (shared - 1, shared)
                     else (shared, shared + 1))))) \<and>
   (let curr_ori = ([False, True, True, False]) ! (0::nat);
             prev_i = prev_index (length [0, 0, 1, 1 :: nat]) (0::nat) curr_ori;
             prev_patch_idx = [0, 0, 1, 1 :: nat] ! prev_i;
             flags_match = (([False, True, True, False]) ! prev_i = curr_ori);
             s' = assign_prev [0, 1 :: nat] (2::nat) [0, 0, 1, 1 :: nat] ([False, True, True, False]) (0::nat) (0::nat) (([[0, 1, 0, 0], [INVALID, INVALID, INVALID, INVALID]]), [] :: nat list)
         in (winding_num_assigned ([[0, 1, 0, 0], [INVALID, INVALID, INVALID, INVALID]]) prev_patch_idx \<longrightarrow> s' = (([[0, 1, 0, 0], [INVALID, INVALID, INVALID, INVALID]]), [] :: nat list)) \<and>
            (\<not> winding_num_assigned ([[0, 1, 0, 0], [INVALID, INVALID, INVALID, INVALID]]) prev_patch_idx \<longrightarrow>
               snd s' = ([] :: nat list) @ [prev_patch_idx] \<and> length (fst s') = (2::nat) \<and>
               (\<forall>p. p \<noteq> prev_patch_idx \<longrightarrow> fst s' ! p = ([[0, 1, 0, 0], [INVALID, INVALID, INVALID, INVALID]]) ! p) \<and>
               (\<forall>k < (2::nat).
                  (fst s' ! prev_patch_idx ! (2 * k), fst s' ! prev_patch_idx ! (2 * k + 1)) =
                    (let shared = ([[0, 1, 0, 0], [INVALID, INVALID, INVALID, INVALID]]) ! (0::nat) ! (2 * k + 1) in
                     if k \<noteq> [0, 1 :: nat] ! prev_patch_idx then (shared, shared)
                     else if flags_match then (shared, shared + 1)
                     else (shared - 1, shared))))) \<and>
   assign_next [0, 1] 2 [0, 0, 1, 1] [False, True, True, False] 0 0
     ([[0, 1, 0, 0], [INVALID, INVALID, INVALID, INVALID]], []) =
     ([[0, 1, 0, 0], [0, 0, - 1, 0]], [1]) \<and>
   assign_prev [0, 1] 2 [0, 0, 1, 1] [True, False, False, True] 0 0
     ([[0, 1, 0, 0], [INVALID, INVALID, INVALID, INVALID]], []) =
     ([[0, 1, 0, 0], [1, 1, 0, 1]], [1])"
proof -
  have "(let curr_ori = ([False, True, True, False]) ! (0::nat);
             next_i = next_index (length [0, 0, 1, 1 :: nat]) (0::nat) curr_ori;
             next_patch_idx = [0, 0, 1, 1 :: nat] ! next_i;
             flags_match = (([False, True, True, False]) ! next_i = curr_ori);
             s' = assign_next [0, 1 :: nat] (2::nat) [0, 0, 1, 1 :: nat] ([False, True, True, False]) (0::nat) (0::nat) (([[0, 1, 0, 0], [INVALID, INVALID, INVALID, INVALID]]), [] :: nat list)
         in (winding_num_assigned ([[0, 1, 0, 0], [INVALID, INVALID, INVALID, INVALID]]) next_patch_idx \<longrightarrow> s' = (([[0, 1, 0, 0], [INVALID, INVALID, INVALID, INVALID]]), [] :: nat list)) \<and>
            (\<not> winding_num_assigned ([[0, 1, 0, 0], [INVALID, INVALID, INVALID, INVALID]]) next_patch_idx \<longrightarrow>
               snd s' = ([] :: nat list) @ [next_patch_idx] \<and> length (fst s') = (2::nat) \<and>
               (\<forall>p. p \<noteq> next_patch_idx \<longrightarrow> fst s' ! p = ([[0, 1, 0, 0], [INVALID, INVALID, INVALID, INVALID]]) ! p) \<and>
               (\<forall>k < (2::nat).
                  (fst s' ! next_patch_idx ! (2 * k), fst s' ! next_patch_idx ! (2 * k + 1)) =
                    (let shared = ([[0, 1, 0, 0], [INVALID, INVALID, INVALID, INVALID]]) ! (0::nat) ! (2 * k) in
                     if k \<noteq> [0, 1 :: nat] ! next_patch_idx then (shared, shared)
                     else if flags_match then (shared - 1, shared)
                     else (shared, shared + 1))))) \<and>
   (let curr_ori = ([False, True, True, False]) ! (0::nat);
             prev_i = prev_index (length [0, 0, 1, 1 :: nat]) (0::nat) curr_ori;
             prev_patch_idx = [0, 0, 1, 1 :: nat] ! prev_i;
             flags_match = (([False, True, True, False]) ! prev_i = curr_ori);
             s' = assign_prev [0, 1 :: nat] (2::nat) [0, 0, 1, 1 :: nat] ([False, True, True, False]) (0::nat) (0::nat) (([[0, 1, 0, 0], [INVALID, INVALID, INVALID, INVALID]]), [] :: nat list)
         in (winding_num_assigned ([[0, 1, 0, 0], [INVALID, INVALID, INVALID, INVALID]]) prev_patch_idx \<longrightarrow> s' = (([[0, 1, 0, 0], [INVALID, INVALID, INVALID, INVALID]]), [] :: nat list)) \<and>
            (\<not> winding_num_assigned ([[0, 1, 0, 0], [INVALID, INVALID, INVALID, INVALID]]) prev_patch_idx \<longrightarrow>
               snd s' = ([] :: nat list) @ [prev_patch_idx] \<and> length (fst s') = (2::nat) \<and>
               (\<forall>p. p \<noteq> prev_patch_idx \<longrightarrow> fst s' ! p = ([[0, 1, 0, 0], [INVALID, INVALID, INVALID, INVALID]]) ! p) \<and>
               (\<forall>k < (2::nat).
                  (fst s' ! prev_patch_idx ! (2 * k), fst s' ! prev_patch_idx ! (2 * k + 1)) =
                    (let shared = ([[0, 1, 0, 0], [INVALID, INVALID, INVALID, INVALID]]) ! (0::nat) ! (2 * k + 1) in
                     if k \<noteq> [0, 1 :: nat] ! prev_patch_idx then (shared, shared)
                     else if flags_match then (shared, shared + 1)
                     else (shared - 1, shared)))))"
    by (rule assign_neighbours_spec) (simp_all add: winding_num_assigned_def INVALID_def less_Suc_eq numeral_2_eq_2)
  moreover have "assign_next [0, 1] 2 [0, 0, 1, 1] [False, True, True, False] 0 0
     ([[0, 1, 0, 0], [INVALID, INVALID, INVALID, INVALID]], []) =
     ([[0, 1, 0, 0], [0, 0, - 1, 0]], [1])"
    by code_simp
  moreover have "assign_prev [0, 1] 2 [0, 0, 1, 1] [True, False, False, True] 0 0
     ([[0, 1, 0, 0], [INVALID, INVALID, INVALID, INVALID]], []) =
     ([[0, 1, 0, 0], [1, 1, 0, 1]], [1])"
    by code_simp
  ultimately show ?thesis by blast
qed

section \<open>The consistency flag of the patch-wise propagator\<close>

lemma seed_assigned_outer:
  assumes "opi < np" and "l < nl"
  shows "winding_num_assigned (seed_patch_W np nl opi l f) opi"
proof -
  have "seed_patch_W np nl opi l f ! opi ! c \<noteq> INVALID" if "c < 2 * nl" for c
    using seed_patch_W_outer [OF assms that, of f] by (simp add: INVALID_def)
  then show ?thesis
    using assms(1) by (simp add: winding_num_assigned_def list_all_length seed_patch_W_row_length)
qed


lemma curve_is_consistent_iff:
  "curve_is_consistent order orientation W num_labels \<longleftrightarrow>
     (\<forall>j < length order. \<forall>k < num_labels.
        W ! (order ! j) ! (k * 2 + (if orientation ! j then 0 else 1)) =
        W ! (order ! ((j + 1) mod length order)) !
          (k * 2 + (if orientation ! ((j + 1) mod length order) then 1 else 0)))"
  by (simp only: curve_is_consistent_def labels_agree_def Let_def list_all_iff set_upt Ball_def
        atLeastLessThan_iff le0 simp_thms)

lemma curves_are_consistent_Inr:
  assumes "curves_are_consistent orders orientations W num_labels cs = Inr b"
  shows "b \<longleftrightarrow> (\<forall>i \<in> set cs. curve_is_consistent (orders ! i) (orientations ! i) W num_labels)"
  using assms by (induction cs) (auto split: if_splits)

lemma curves_are_consistent_total:
  assumes "\<forall>i \<in> set cs. length (orders ! i) = length (orientations ! i)"
  shows "\<exists>b. curves_are_consistent orders orientations W num_labels cs = Inr b"
  using assms by (induction cs) auto

lemma winding_number_assignment_is_consistent_iff:
  assumes "winding_number_assignment_is_consistent orders orientations W = Inr b"
  shows "b \<longleftrightarrow>
     (\<forall>i < length orders. \<forall>j < length (orders ! i). \<forall>k < cols W div 2.
        W ! (orders ! i ! j) ! (k * 2 + (if orientations ! i ! j then 0 else 1)) =
        W ! (orders ! i ! ((j + 1) mod length (orders ! i))) !
          (k * 2 + (if orientations ! i ! ((j + 1) mod length (orders ! i)) then 1 else 0)))"
  using curves_are_consistent_Inr [OF assms [unfolded winding_number_assignment_is_consistent_def Let_def]]
  by (simp only: curve_is_consistent_iff set_upt Ball_def atLeastLessThan_iff le0 simp_thms)

lemma propagate_from_orders_Inr:
  assumes "propagate_from_orders labels P orders orientations adj ofi flipped = Some (Inr (b, W))"
  shows "winding_number_assignment_is_consistent orders orientations W = Inr b"
    and "list_all (list_all (\<lambda>w. w \<noteq> INVALID)) W"
    and "\<exists>Q. propagate_over_patches labels (Max (set labels) + 1) orders orientations adj
           (seed_patch_W (Max (set P) + 1) (Max (set labels) + 1) (P ! ofi) (labels ! (P ! ofi)) flipped)
           (P ! ofi) = Some (Inr (W, Q))"
  using assms unfolding propagate_from_orders_def Let_def
  by (auto split: option.splits sum.splits if_splits)

lemma winding_num_assigned_iff: "winding_num_assigned W p \<longleftrightarrow> INVALID \<notin> set (W ! p)"
  by (auto simp: winding_num_assigned_def list_all_iff)

lemma all_assigned_iff:
  "list_all (list_all (\<lambda>w. w \<noteq> INVALID)) W \<longleftrightarrow> (\<forall>p < length W. winding_num_assigned W p)"
  by (simp add: winding_num_assigned_def list_all_length)

lemma order_curve_lengths:
  assumes "order_curve ext V F uE uE2E P intersection_curves i adj0 = Inr (oo, adj)"
  shows "length (fst oo) = length (snd oo)"
  using assms unfolding order_curve_def Let_def
  by (auto split: sum.splits prod.splits if_splits)

lemma order_curves_lengths:
  assumes "order_curves ext V F uE uE2E P intersection_curves is (ordered, adj0) = Inr (oo, adj)"
    and "\<forall>x \<in> set ordered. length (fst x) = length (snd x)"
  shows "\<forall>x \<in> set oo. length (fst x) = length (snd x)"
  using assms
proof (induction "is" arbitrary: ordered adj0)
  case Nil
  then show ?case by simp
next
  case (Cons i "is")
  from Cons.prems(1) obtain o1 a1 where
    1: "order_curve ext V F uE uE2E P intersection_curves i adj0 = Inr (o1, a1)"
    and 2: "order_curves ext V F uE uE2E P intersection_curves is (ordered @ [o1], a1) = Inr (oo, adj)"
    by (auto split: sum.splits)
  have "\<forall>x \<in> set (ordered @ [o1]). length (fst x) = length (snd x)"
    using Cons.prems(2) order_curve_lengths [OF 1] by simp
  from Cons.IH [OF 2 this] show ?case .
qed

lemma curves_are_consistent_eq:
  assumes "\<forall>i \<in> set cs. length (orders ! i) = length (orientations ! i)"
  shows "curves_are_consistent orders orientations W num_labels cs =
           Inr (\<forall>i \<in> set cs. curve_is_consistent (orders ! i) (orientations ! i) W num_labels)"
  using assms by (induction cs) auto

lemma winding_number_assignment_is_consistent_eq:
  assumes "\<forall>i < length orders. length (orders ! i) = length (orientations ! i)"
  shows "winding_number_assignment_is_consistent orders orientations W =
     Inr (\<forall>i < length orders. \<forall>j < length (orders ! i). \<forall>k < cols W div 2.
        W ! (orders ! i ! j) ! (k * 2 + (if orientations ! i ! j then 0 else 1)) =
        W ! (orders ! i ! ((j + 1) mod length (orders ! i))) !
          (k * 2 + (if orientations ! i ! ((j + 1) mod length (orders ! i)) then 1 else 0)))"
proof -
  have "\<forall>i \<in> set [0..<length orders]. length (orders ! i) = length (orientations ! i)"
    using assms by simp
  from curves_are_consistent_eq [OF this]
  show ?thesis
    unfolding winding_number_assignment_is_consistent_def Let_def
    by (simp only: curve_is_consistent_iff set_upt Ball_def atLeastLessThan_iff le0 simp_thms)
qed

lemma patch_wise_returns_flag:
  assumes "P \<noteq> []" and "length labels = Max (set P) + 1"
    and "order_curves ext V F uE uE2E P intersection_curves [0..<length intersection_curves]
           ([], replicate (Max (set P) + 1) []) = Inr (oo, adjacency)"
    and "propagate_over_patches labels (Max (set labels) + 1) (map fst oo) (map snd oo) adjacency
           (seed_patch_W (Max (set P) + 1) (Max (set labels) + 1)
              (P ! fst (outer_facet ext V F [0..<length F]))
              (labels ! (P ! fst (outer_facet ext V F [0..<length F])))
              (snd (outer_facet ext V F [0..<length F])))
           (P ! fst (outer_facet ext V F [0..<length F])) = Some (Inr (patch_W, Q))"
    and "list_all (list_all (\<lambda>w. w \<noteq> INVALID)) patch_W"
  shows "propagate_winding_numbers_single_component_patch_wise ext V F uE uE2E labels P intersection_curves =
           Some (Inr (((\<forall>i < length oo. \<forall>j < length (fst (oo ! i)). \<forall>k < cols patch_W div 2.
                    patch_W ! (fst (oo ! i) ! j) ! (k * 2 + (if snd (oo ! i) ! j then 0 else 1)) =
                    patch_W ! (fst (oo ! i) ! ((j + 1) mod length (fst (oo ! i)))) !
                      (k * 2 + (if snd (oo ! i) ! ((j + 1) mod length (fst (oo ! i))) then 1 else 0))),
                 patch_W)))"
proof -
  have "\<forall>x \<in> set oo. length (fst x) = length (snd x)"
    by (rule order_curves_lengths [OF assms(3)]) simp
  then have "\<forall>i < length (map fst oo). length (map fst oo ! i) = length (map snd oo ! i)"
    by simp
  note c = winding_number_assignment_is_consistent_eq [OF this, of patch_W]
  define B where "B \<longleftrightarrow> (\<forall>i < length oo. \<forall>j < length (fst (oo ! i)). \<forall>k < cols patch_W div 2.
                    patch_W ! (fst (oo ! i) ! j) ! (k * 2 + (if snd (oo ! i) ! j then 0 else 1)) =
                    patch_W ! (fst (oo ! i) ! ((j + 1) mod length (fst (oo ! i)))) !
                      (k * 2 + (if snd (oo ! i) ! ((j + 1) mod length (fst (oo ! i))) then 1 else 0)))"
  have c': "winding_number_assignment_is_consistent (map fst oo) (map snd oo) patch_W = Inr B"
    unfolding c B_def by (simp cong: conj_cong)
  have "propagate_from_orders labels P (map fst oo) (map snd oo) adjacency
       (fst (outer_facet ext V F [0..<length F])) (snd (outer_facet ext V F [0..<length F])) =
     Some (Inr (B, patch_W))"
    unfolding propagate_from_orders_def Let_def assms(4)
    using assms(5) by (simp add: c')
  then show ?thesis
    unfolding propagate_winding_numbers_single_component_patch_wise_def Let_def B_def
    using assms(1,2,3) by (simp add: case_prod_beta)
qed

lemma propagate_over_patches_no_curves:
  "propagate_over_patches labels nl [] [] [[]] W 0 = Some (Inr (W, []))"
proof -
  have 1: "queue_nonempty (Inr (W, [0]))" by (simp add: queue_nonempty_def)
  have 2: "dequeue_patch labels nl [] [] [[]] (Inr (W, [0])) = Inr (W, [])"
    by (simp add: dequeue_patch_def)
  have 3: "\<not> queue_nonempty (Inr (W, []))" by (simp add: queue_nonempty_def)
  show ?thesis
    unfolding propagate_over_patches_def
    by (subst while_option_unfold, simp only: 1 2 if_True, subst while_option_unfold, simp only: 3 if_False)
qed

lemma patch_wise_no_curves:
  assumes "P \<noteq> []" and "Max (set P) = 0" and "length labels = 1"
    and "fst (outer_facet ext V F [0..<length F]) < length P"
  shows "propagate_winding_numbers_single_component_patch_wise ext V F uE uE2E labels P [] =
           Some (Inr (True, seed_patch_W 1 (Max (set labels) + 1) 0 (labels ! 0)
                              (snd (outer_facet ext V F [0..<length F]))))"
proof -
  obtain ofi flipped where of: "outer_facet ext V F [0..<length F] = (ofi, flipped)"
    by (cases "outer_facet ext V F [0..<length F]")
  have "P ! ofi \<in> set P" using assms(4) of by simp
  then have "P ! ofi \<le> Max (set P)" by simp
  then have opi: "P ! ofi = 0" using assms(2) by simp
  obtain l where labels: "labels = [l]"
    using assms(3) by (cases labels) simp_all
  let ?W = "seed_patch_W 1 (l + 1) 0 l flipped"
  have asg: "winding_num_assigned ?W 0"
    by (rule seed_assigned_outer) simp_all
  have len: "length ?W = 1" by (rule seed_patch_W_length)
  have all: "list_all (list_all (\<lambda>w. w \<noteq> INVALID)) ?W"
    unfolding all_assigned_iff len using asg by simp
  have cons: "winding_number_assignment_is_consistent [] [] ?W = Inr True"
    by (simp add: winding_number_assignment_is_consistent_def)
  have "propagate_from_orders labels P [] [] [[]] ofi flipped = Some (Inr (True, ?W))"
    unfolding propagate_from_orders_def Let_def
    using all cons by (simp add: opi assms(2) labels propagate_over_patches_no_curves)
  then show ?thesis
    using assms(1-3) of
    by (simp add: propagate_winding_numbers_single_component_patch_wise_def Let_def labels)
qed


text \<open>
  Claim C4. Let the assertions of lines 124-125 hold, let the ordering of the curves
  succeed, and let the traversal end with every row assigned (the assertion of line 317).
  Then \<^verbatim>\<open>propagate_winding_numbers_single_component_patch_wise\<close> returns, and the flag it
  returns is the truth value of: for every curve \<open>i\<close>, every position \<open>j\<close> of its order and
  every label \<open>k\<close>, the entry of the patch at \<open>j\<close> on the side chosen by its orientation
  flag (front if the flag is set, back otherwise) equals the entry of the patch at the
  next position on the opposite choice (back if its flag is set, front otherwise). So a
  mismatch is returned as the flag \<open>False\<close>, together with the matrix; it raises nothing.
  Conversely, whenever the function returns a flag, the flag is that truth value. With no
  intersection curves and a single patch, the function returns \<open>True\<close> together with the
  seeded row.
\<close>

theorem consistency_flag_spec:
  "(P \<noteq> [] \<and> length labels = Max (set P) + 1 \<and>
    order_curves ext V F uE uE2E P intersection_curves [0..<length intersection_curves]
      ([], replicate (Max (set P) + 1) []) = Inr (oo, adjacency) \<and>
    propagate_over_patches labels (Max (set labels) + 1) (map fst oo) (map snd oo) adjacency
      (seed_patch_W (Max (set P) + 1) (Max (set labels) + 1)
         (P ! fst (outer_facet ext V F [0..<length F]))
         (labels ! (P ! fst (outer_facet ext V F [0..<length F])))
         (snd (outer_facet ext V F [0..<length F])))
      (P ! fst (outer_facet ext V F [0..<length F])) = Some (Inr (W, Q)) \<and>
    list_all (list_all (\<lambda>w. w \<noteq> INVALID)) W \<longrightarrow>
    propagate_winding_numbers_single_component_patch_wise ext V F uE uE2E labels P intersection_curves =
      Some (Inr ((\<forall>i < length oo. \<forall>j < length (fst (oo ! i)). \<forall>k < cols W div 2.
                    W ! (fst (oo ! i) ! j) ! (k * 2 + (if snd (oo ! i) ! j then 0 else 1)) =
                    W ! (fst (oo ! i) ! ((j + 1) mod length (fst (oo ! i)))) !
                      (k * 2 + (if snd (oo ! i) ! ((j + 1) mod length (fst (oo ! i))) then 1 else 0))),
                 W))) \<and>
   (propagate_winding_numbers_single_component_patch_wise ext V F uE uE2E labels P intersection_curves =
            Some (Inr (b, patch_W)) \<longrightarrow>
          (\<exists>oo adjacency.
             order_curves ext V F uE uE2E P intersection_curves [0..<length intersection_curves]
               ([], replicate (Max (set P) + 1) []) = Inr (oo, adjacency) \<and>
             b = (\<forall>i < length oo. \<forall>j < length (fst (oo ! i)). \<forall>k < cols patch_W div 2.
                    patch_W ! (fst (oo ! i) ! j) ! (k * 2 + (if snd (oo ! i) ! j then 0 else 1)) =
                    patch_W ! (fst (oo ! i) ! ((j + 1) mod length (fst (oo ! i)))) !
                      (k * 2 + (if snd (oo ! i) ! ((j + 1) mod length (fst (oo ! i))) then 1 else 0))))) \<and>
   (intersection_curves = [] \<and> P \<noteq> [] \<and> Max (set P) = 0 \<and> length labels = 1 \<and>
          fst (outer_facet ext V F [0..<length F]) < length P \<longrightarrow>
    propagate_winding_numbers_single_component_patch_wise ext V F uE uE2E labels P intersection_curves =
            Some (Inr (True, seed_patch_W 1 (Max (set labels) + 1) 0 (labels ! 0)
                               (snd (outer_facet ext V F [0..<length F])))))"
proof (intro conjI impI)
  assume h: "P \<noteq> [] \<and> length labels = Max (set P) + 1 \<and>
    order_curves ext V F uE uE2E P intersection_curves [0..<length intersection_curves]
      ([], replicate (Max (set P) + 1) []) = Inr (oo, adjacency) \<and>
    propagate_over_patches labels (Max (set labels) + 1) (map fst oo) (map snd oo) adjacency
      (seed_patch_W (Max (set P) + 1) (Max (set labels) + 1)
         (P ! fst (outer_facet ext V F [0..<length F]))
         (labels ! (P ! fst (outer_facet ext V F [0..<length F])))
         (snd (outer_facet ext V F [0..<length F])))
      (P ! fst (outer_facet ext V F [0..<length F])) = Some (Inr (W, Q)) \<and>
    list_all (list_all (\<lambda>w. w \<noteq> INVALID)) W"
  show "propagate_winding_numbers_single_component_patch_wise ext V F uE uE2E labels P intersection_curves =
      Some (Inr ((\<forall>i < length oo. \<forall>j < length (fst (oo ! i)). \<forall>k < cols W div 2.
                    W ! (fst (oo ! i) ! j) ! (k * 2 + (if snd (oo ! i) ! j then 0 else 1)) =
                    W ! (fst (oo ! i) ! ((j + 1) mod length (fst (oo ! i)))) !
                      (k * 2 + (if snd (oo ! i) ! ((j + 1) mod length (fst (oo ! i))) then 1 else 0))),
                 W))"
    by (rule patch_wise_returns_flag) (use h in blast)+
next
  assume r: "propagate_winding_numbers_single_component_patch_wise ext V F uE uE2E labels P intersection_curves =
            Some (Inr (b, patch_W))"
  then obtain oo adjacency where oo:
    "order_curves ext V F uE uE2E P intersection_curves [0..<length intersection_curves]
       ([], replicate (Max (set P) + 1) []) = Inr (oo, adjacency)"
    and p: "propagate_from_orders labels P (map fst oo) (map snd oo) adjacency
       (fst (outer_facet ext V F [0..<length F])) (snd (outer_facet ext V F [0..<length F])) =
         Some (Inr (b, patch_W))"
    unfolding propagate_winding_numbers_single_component_patch_wise_def Let_def
    by (auto split: if_splits sum.splits prod.splits)
  note c = winding_number_assignment_is_consistent_iff [OF propagate_from_orders_Inr(1) [OF p]]
  have "b = (\<forall>i < length oo. \<forall>j < length (fst (oo ! i)). \<forall>k < cols patch_W div 2.
                    patch_W ! (fst (oo ! i) ! j) ! (k * 2 + (if snd (oo ! i) ! j then 0 else 1)) =
                    patch_W ! (fst (oo ! i) ! ((j + 1) mod length (fst (oo ! i)))) !
                      (k * 2 + (if snd (oo ! i) ! ((j + 1) mod length (fst (oo ! i))) then 1 else 0)))"
    unfolding c by (simp cong: conj_cong)
  with oo show "\<exists>oo adjacency.
             order_curves ext V F uE uE2E P intersection_curves [0..<length intersection_curves]
               ([], replicate (Max (set P) + 1) []) = Inr (oo, adjacency) \<and>
             b = (\<forall>i < length oo. \<forall>j < length (fst (oo ! i)). \<forall>k < cols patch_W div 2.
                    patch_W ! (fst (oo ! i) ! j) ! (k * 2 + (if snd (oo ! i) ! j then 0 else 1)) =
                    patch_W ! (fst (oo ! i) ! ((j + 1) mod length (fst (oo ! i)))) !
                      (k * 2 + (if snd (oo ! i) ! ((j + 1) mod length (fst (oo ! i))) then 1 else 0)))"
    by blast
next
  assume "intersection_curves = [] \<and> P \<noteq> [] \<and> Max (set P) = 0 \<and> length labels = 1 \<and>
          fst (outer_facet ext V F [0..<length F]) < length P"
  then show "propagate_winding_numbers_single_component_patch_wise ext V F uE uE2E labels P intersection_curves =
            Some (Inr (True, seed_patch_W 1 (Max (set labels) + 1) 0 (labels ! 0)
                               (snd (outer_facet ext V F [0..<length F]))))"
    using patch_wise_no_curves [of P labels ext V F uE uE2E] by simp
qed

theorem consistency_flag_spec_witness:
  "propagate_winding_numbers_single_component_patch_wise ext_nested V_example F_nested uE_nested uE2E_nested
     [0, 1] [0, 0, 0, 0, 1, 1, 1, 1] [[0]] = Some (Inr (True, [[0, 1, 0, 0], [1, 1, 0, 1]])) \<and>
   (\<exists>oo adjacency.
             order_curves (ext_nested) (V_example) (F_nested) (uE_nested) (uE2E_nested) ([0, 0, 0, 0, 1, 1, 1, 1 :: nat]) ([[0 :: nat]]) [0..<length ([[0 :: nat]])]
               ([], replicate (Max (set ([0, 0, 0, 0, 1, 1, 1, 1 :: nat])) + 1) []) = Inr (oo, adjacency) \<and>
             (True) = (\<forall>i < length oo. \<forall>j < length (fst (oo ! i)). \<forall>k < cols ([[0, 1, 0, 0], [1, 1, 0, 1 :: int]]) div 2.
                    ([[0, 1, 0, 0], [1, 1, 0, 1 :: int]]) ! (fst (oo ! i) ! j) ! (k * 2 + (if snd (oo ! i) ! j then 0 else 1)) =
                    ([[0, 1, 0, 0], [1, 1, 0, 1 :: int]]) ! (fst (oo ! i) ! ((j + 1) mod length (fst (oo ! i)))) !
                      (k * 2 + (if snd (oo ! i) ! ((j + 1) mod length (fst (oo ! i))) then 1 else 0)))) \<and>
   propagate_winding_numbers_single_component_patch_wise ext_flipped V_example F_flipped uE_flipped uE2E_flipped
     [0, 1] [0, 0, 0, 0, 1, 1, 1, 1] [[0]] = Some (Inr (False, [[0, 1, 0, 0], [1, 1, 0, 1]])) \<and>
   (\<exists>oo adjacency.
             order_curves (ext_flipped) (V_example) (F_flipped) (uE_flipped) (uE2E_flipped) ([0, 0, 0, 0, 1, 1, 1, 1 :: nat]) ([[0 :: nat]]) [0..<length ([[0 :: nat]])]
               ([], replicate (Max (set ([0, 0, 0, 0, 1, 1, 1, 1 :: nat])) + 1) []) = Inr (oo, adjacency) \<and>
             (False) = (\<forall>i < length oo. \<forall>j < length (fst (oo ! i)). \<forall>k < cols ([[0, 1, 0, 0], [1, 1, 0, 1 :: int]]) div 2.
                    ([[0, 1, 0, 0], [1, 1, 0, 1 :: int]]) ! (fst (oo ! i) ! j) ! (k * 2 + (if snd (oo ! i) ! j then 0 else 1)) =
                    ([[0, 1, 0, 0], [1, 1, 0, 1 :: int]]) ! (fst (oo ! i) ! ((j + 1) mod length (fst (oo ! i)))) !
                      (k * 2 + (if snd (oo ! i) ! ((j + 1) mod length (fst (oo ! i))) then 1 else 0)))) \<and>
   propagate_winding_numbers_single_component_patch_wise ext_tetrahedron V_example F_tetrahedron
     uE_tetrahedron uE2E_tetrahedron [0] [0, 0, 0, 0] [] = Some (Inr (True, [[0, 1]])) \<and>
   propagate_winding_numbers_single_component_patch_wise (ext_nested) (V_example) (F_nested) (uE_nested) (uE2E_nested) ([0, 1 :: nat]) ([0, 0, 0, 0, 1, 1, 1, 1 :: nat]) ([[0 :: nat]]) =
      Some (Inr ((\<forall>i < length ([([0, 0, 1, 1 :: nat], [True, False, False, True])]). \<forall>j < length (fst (([([0, 0, 1, 1 :: nat], [True, False, False, True])]) ! i)). \<forall>k < cols ([[0, 1, 0, 0], [1, 1, 0, 1 :: int]]) div 2.
                    ([[0, 1, 0, 0], [1, 1, 0, 1 :: int]]) ! (fst (([([0, 0, 1, 1 :: nat], [True, False, False, True])]) ! i) ! j) ! (k * 2 + (if snd (([([0, 0, 1, 1 :: nat], [True, False, False, True])]) ! i) ! j then 0 else 1)) =
                    ([[0, 1, 0, 0], [1, 1, 0, 1 :: int]]) ! (fst (([([0, 0, 1, 1 :: nat], [True, False, False, True])]) ! i) ! ((j + 1) mod length (fst (([([0, 0, 1, 1 :: nat], [True, False, False, True])]) ! i)))) !
                      (k * 2 + (if snd (([([0, 0, 1, 1 :: nat], [True, False, False, True])]) ! i) ! ((j + 1) mod length (fst (([([0, 0, 1, 1 :: nat], [True, False, False, True])]) ! i))) then 1 else 0))),
                 ([[0, 1, 0, 0], [1, 1, 0, 1 :: int]]))) \<and>
   propagate_winding_numbers_single_component_patch_wise (ext_flipped) (V_example) (F_flipped) (uE_flipped) (uE2E_flipped) ([0, 1 :: nat]) ([0, 0, 0, 0, 1, 1, 1, 1 :: nat]) ([[0 :: nat]]) =
      Some (Inr ((\<forall>i < length ([([0, 0, 1, 1 :: nat], [True, True, True, True])]). \<forall>j < length (fst (([([0, 0, 1, 1 :: nat], [True, True, True, True])]) ! i)). \<forall>k < cols ([[0, 1, 0, 0], [1, 1, 0, 1 :: int]]) div 2.
                    ([[0, 1, 0, 0], [1, 1, 0, 1 :: int]]) ! (fst (([([0, 0, 1, 1 :: nat], [True, True, True, True])]) ! i) ! j) ! (k * 2 + (if snd (([([0, 0, 1, 1 :: nat], [True, True, True, True])]) ! i) ! j then 0 else 1)) =
                    ([[0, 1, 0, 0], [1, 1, 0, 1 :: int]]) ! (fst (([([0, 0, 1, 1 :: nat], [True, True, True, True])]) ! i) ! ((j + 1) mod length (fst (([([0, 0, 1, 1 :: nat], [True, True, True, True])]) ! i)))) !
                      (k * 2 + (if snd (([([0, 0, 1, 1 :: nat], [True, True, True, True])]) ! i) ! ((j + 1) mod length (fst (([([0, 0, 1, 1 :: nat], [True, True, True, True])]) ! i))) then 1 else 0))),
                 ([[0, 1, 0, 0], [1, 1, 0, 1 :: int]])))"
proof (intro conjI)
  show n: "propagate_winding_numbers_single_component_patch_wise ext_nested V_example F_nested uE_nested uE2E_nested
     [0, 1] [0, 0, 0, 0, 1, 1, 1, 1] [[0]] = Some (Inr (True, [[0, 1, 0, 0], [1, 1, 0, 1]]))"
    by code_simp
  show "\<exists>oo adjacency.
             order_curves (ext_nested) (V_example) (F_nested) (uE_nested) (uE2E_nested) ([0, 0, 0, 0, 1, 1, 1, 1 :: nat]) ([[0 :: nat]]) [0..<length ([[0 :: nat]])]
               ([], replicate (Max (set ([0, 0, 0, 0, 1, 1, 1, 1 :: nat])) + 1) []) = Inr (oo, adjacency) \<and>
             (True) = (\<forall>i < length oo. \<forall>j < length (fst (oo ! i)). \<forall>k < cols ([[0, 1, 0, 0], [1, 1, 0, 1 :: int]]) div 2.
                    ([[0, 1, 0, 0], [1, 1, 0, 1 :: int]]) ! (fst (oo ! i) ! j) ! (k * 2 + (if snd (oo ! i) ! j then 0 else 1)) =
                    ([[0, 1, 0, 0], [1, 1, 0, 1 :: int]]) ! (fst (oo ! i) ! ((j + 1) mod length (fst (oo ! i)))) !
                      (k * 2 + (if snd (oo ! i) ! ((j + 1) mod length (fst (oo ! i))) then 1 else 0)))"
    using consistency_flag_spec [where ext = ext_nested and V = V_example and F = F_nested
      and uE = uE_nested and uE2E = uE2E_nested and labels = "[0, 1]" and P = "[0, 0, 0, 0, 1, 1, 1, 1]"
      and intersection_curves = "[[0]]" and b = True and patch_W = "[[0, 1, 0, 0], [1, 1, 0, 1]]",
      THEN conjunct2, THEN conjunct1] n
    by blast
  show f: "propagate_winding_numbers_single_component_patch_wise ext_flipped V_example F_flipped uE_flipped uE2E_flipped
     [0, 1] [0, 0, 0, 0, 1, 1, 1, 1] [[0]] = Some (Inr (False, [[0, 1, 0, 0], [1, 1, 0, 1]]))"
    by code_simp
  show "\<exists>oo adjacency.
             order_curves (ext_flipped) (V_example) (F_flipped) (uE_flipped) (uE2E_flipped) ([0, 0, 0, 0, 1, 1, 1, 1 :: nat]) ([[0 :: nat]]) [0..<length ([[0 :: nat]])]
               ([], replicate (Max (set ([0, 0, 0, 0, 1, 1, 1, 1 :: nat])) + 1) []) = Inr (oo, adjacency) \<and>
             (False) = (\<forall>i < length oo. \<forall>j < length (fst (oo ! i)). \<forall>k < cols ([[0, 1, 0, 0], [1, 1, 0, 1 :: int]]) div 2.
                    ([[0, 1, 0, 0], [1, 1, 0, 1 :: int]]) ! (fst (oo ! i) ! j) ! (k * 2 + (if snd (oo ! i) ! j then 0 else 1)) =
                    ([[0, 1, 0, 0], [1, 1, 0, 1 :: int]]) ! (fst (oo ! i) ! ((j + 1) mod length (fst (oo ! i)))) !
                      (k * 2 + (if snd (oo ! i) ! ((j + 1) mod length (fst (oo ! i))) then 1 else 0)))"
    using consistency_flag_spec [where ext = ext_flipped and V = V_example and F = F_flipped
      and uE = uE_flipped and uE2E = uE2E_flipped and labels = "[0, 1]" and P = "[0, 0, 0, 0, 1, 1, 1, 1]"
      and intersection_curves = "[[0]]" and b = False and patch_W = "[[0, 1, 0, 0], [1, 1, 0, 1]]",
      THEN conjunct2, THEN conjunct1] f
    by blast
  have "propagate_winding_numbers_single_component_patch_wise ext_tetrahedron V_example F_tetrahedron
     uE_tetrahedron uE2E_tetrahedron [0] [0, 0, 0, 0] [] =
       Some (Inr (True, seed_patch_W 1 (Max (set [0 :: nat]) + 1) 0 ([0 :: nat] ! 0)
         (snd (outer_facet ext_tetrahedron V_example F_tetrahedron [0..<length F_tetrahedron]))))"
    using consistency_flag_spec [where ext = ext_tetrahedron and V = V_example
      and F = F_tetrahedron and uE = uE_tetrahedron and uE2E = uE2E_tetrahedron and labels = "[0]"
      and P = "[0, 0, 0, 0]" and intersection_curves = "[]", THEN conjunct2, THEN conjunct2]
    by (simp add: ext_tetrahedron_def F_tetrahedron_def)
  also have "seed_patch_W 1 (Max (set [0 :: nat]) + 1) 0 ([0 :: nat] ! 0)
         (snd (outer_facet ext_tetrahedron V_example F_tetrahedron [0..<length F_tetrahedron])) = [[0, 1]]"
    by code_simp
  finally show "propagate_winding_numbers_single_component_patch_wise ext_tetrahedron V_example F_tetrahedron
     uE_tetrahedron uE2E_tetrahedron [0] [0, 0, 0, 0] [] = Some (Inr (True, [[0, 1]]))" .
  have "([0, 0, 0, 0, 1, 1, 1, 1 :: nat]) \<noteq> [] \<and> length ([0, 1 :: nat]) = Max (set ([0, 0, 0, 0, 1, 1, 1, 1 :: nat])) + 1 \<and>
    order_curves (ext_nested) (V_example) (F_nested) (uE_nested) (uE2E_nested) ([0, 0, 0, 0, 1, 1, 1, 1 :: nat]) ([[0 :: nat]]) [0..<length ([[0 :: nat]])]
      ([], replicate (Max (set ([0, 0, 0, 0, 1, 1, 1, 1 :: nat])) + 1) []) = Inr (([([0, 0, 1, 1 :: nat], [True, False, False, True])]), ([[0, 0], [0, 0 :: nat]])) \<and>
    propagate_over_patches ([0, 1 :: nat]) (Max (set ([0, 1 :: nat])) + 1) (map fst ([([0, 0, 1, 1 :: nat], [True, False, False, True])])) (map snd ([([0, 0, 1, 1 :: nat], [True, False, False, True])])) ([[0, 0], [0, 0 :: nat]])
      (seed_patch_W (Max (set ([0, 0, 0, 0, 1, 1, 1, 1 :: nat])) + 1) (Max (set ([0, 1 :: nat])) + 1)
         (([0, 0, 0, 0, 1, 1, 1, 1 :: nat]) ! fst (outer_facet (ext_nested) (V_example) (F_nested) [0..<length (F_nested)]))
         (([0, 1 :: nat]) ! (([0, 0, 0, 0, 1, 1, 1, 1 :: nat]) ! fst (outer_facet (ext_nested) (V_example) (F_nested) [0..<length (F_nested)])))
         (snd (outer_facet (ext_nested) (V_example) (F_nested) [0..<length (F_nested)])))
      (([0, 0, 0, 0, 1, 1, 1, 1 :: nat]) ! fst (outer_facet (ext_nested) (V_example) (F_nested) [0..<length (F_nested)])) = Some (Inr (([[0, 1, 0, 0], [1, 1, 0, 1 :: int]]), ([] :: nat list))) \<and>
    list_all (list_all (\<lambda>w. w \<noteq> INVALID)) ([[0, 1, 0, 0], [1, 1, 0, 1 :: int]])"
    by (intro conjI; code_simp)
  from consistency_flag_spec [where ext = "ext_nested" and V = "V_example" and F = "F_nested" and uE = "uE_nested" and uE2E = "uE2E_nested" and labels = "[0, 1 :: nat]" and P = "[0, 0, 0, 0, 1, 1, 1, 1 :: nat]" and intersection_curves = "[[0 :: nat]]" and oo = "[([0, 0, 1, 1 :: nat], [True, False, False, True])]" and adjacency = "[[0, 0], [0, 0 :: nat]]" and W = "[[0, 1, 0, 0], [1, 1, 0, 1 :: int]]" and Q = "[] :: nat list", THEN conjunct1, THEN mp, OF this]
  show "propagate_winding_numbers_single_component_patch_wise (ext_nested) (V_example) (F_nested) (uE_nested) (uE2E_nested) ([0, 1 :: nat]) ([0, 0, 0, 0, 1, 1, 1, 1 :: nat]) ([[0 :: nat]]) =
      Some (Inr ((\<forall>i < length ([([0, 0, 1, 1 :: nat], [True, False, False, True])]). \<forall>j < length (fst (([([0, 0, 1, 1 :: nat], [True, False, False, True])]) ! i)). \<forall>k < cols ([[0, 1, 0, 0], [1, 1, 0, 1 :: int]]) div 2.
                    ([[0, 1, 0, 0], [1, 1, 0, 1 :: int]]) ! (fst (([([0, 0, 1, 1 :: nat], [True, False, False, True])]) ! i) ! j) ! (k * 2 + (if snd (([([0, 0, 1, 1 :: nat], [True, False, False, True])]) ! i) ! j then 0 else 1)) =
                    ([[0, 1, 0, 0], [1, 1, 0, 1 :: int]]) ! (fst (([([0, 0, 1, 1 :: nat], [True, False, False, True])]) ! i) ! ((j + 1) mod length (fst (([([0, 0, 1, 1 :: nat], [True, False, False, True])]) ! i)))) !
                      (k * 2 + (if snd (([([0, 0, 1, 1 :: nat], [True, False, False, True])]) ! i) ! ((j + 1) mod length (fst (([([0, 0, 1, 1 :: nat], [True, False, False, True])]) ! i))) then 1 else 0))),
                 ([[0, 1, 0, 0], [1, 1, 0, 1 :: int]])))" .
  have "([0, 0, 0, 0, 1, 1, 1, 1 :: nat]) \<noteq> [] \<and> length ([0, 1 :: nat]) = Max (set ([0, 0, 0, 0, 1, 1, 1, 1 :: nat])) + 1 \<and>
    order_curves (ext_flipped) (V_example) (F_flipped) (uE_flipped) (uE2E_flipped) ([0, 0, 0, 0, 1, 1, 1, 1 :: nat]) ([[0 :: nat]]) [0..<length ([[0 :: nat]])]
      ([], replicate (Max (set ([0, 0, 0, 0, 1, 1, 1, 1 :: nat])) + 1) []) = Inr (([([0, 0, 1, 1 :: nat], [True, True, True, True])]), ([[0, 0], [0, 0 :: nat]])) \<and>
    propagate_over_patches ([0, 1 :: nat]) (Max (set ([0, 1 :: nat])) + 1) (map fst ([([0, 0, 1, 1 :: nat], [True, True, True, True])])) (map snd ([([0, 0, 1, 1 :: nat], [True, True, True, True])])) ([[0, 0], [0, 0 :: nat]])
      (seed_patch_W (Max (set ([0, 0, 0, 0, 1, 1, 1, 1 :: nat])) + 1) (Max (set ([0, 1 :: nat])) + 1)
         (([0, 0, 0, 0, 1, 1, 1, 1 :: nat]) ! fst (outer_facet (ext_flipped) (V_example) (F_flipped) [0..<length (F_flipped)]))
         (([0, 1 :: nat]) ! (([0, 0, 0, 0, 1, 1, 1, 1 :: nat]) ! fst (outer_facet (ext_flipped) (V_example) (F_flipped) [0..<length (F_flipped)])))
         (snd (outer_facet (ext_flipped) (V_example) (F_flipped) [0..<length (F_flipped)])))
      (([0, 0, 0, 0, 1, 1, 1, 1 :: nat]) ! fst (outer_facet (ext_flipped) (V_example) (F_flipped) [0..<length (F_flipped)])) = Some (Inr (([[0, 1, 0, 0], [1, 1, 0, 1 :: int]]), ([] :: nat list))) \<and>
    list_all (list_all (\<lambda>w. w \<noteq> INVALID)) ([[0, 1, 0, 0], [1, 1, 0, 1 :: int]])"
    by (intro conjI; code_simp)
  from consistency_flag_spec [where ext = "ext_flipped" and V = "V_example" and F = "F_flipped" and uE = "uE_flipped" and uE2E = "uE2E_flipped" and labels = "[0, 1 :: nat]" and P = "[0, 0, 0, 0, 1, 1, 1, 1 :: nat]" and intersection_curves = "[[0 :: nat]]" and oo = "[([0, 0, 1, 1 :: nat], [True, True, True, True])]" and adjacency = "[[0, 0], [0, 0 :: nat]]" and W = "[[0, 1, 0, 0], [1, 1, 0, 1 :: int]]" and Q = "[] :: nat list", THEN conjunct1, THEN mp, OF this]
  show "propagate_winding_numbers_single_component_patch_wise (ext_flipped) (V_example) (F_flipped) (uE_flipped) (uE2E_flipped) ([0, 1 :: nat]) ([0, 0, 0, 0, 1, 1, 1, 1 :: nat]) ([[0 :: nat]]) =
      Some (Inr ((\<forall>i < length ([([0, 0, 1, 1 :: nat], [True, True, True, True])]). \<forall>j < length (fst (([([0, 0, 1, 1 :: nat], [True, True, True, True])]) ! i)). \<forall>k < cols ([[0, 1, 0, 0], [1, 1, 0, 1 :: int]]) div 2.
                    ([[0, 1, 0, 0], [1, 1, 0, 1 :: int]]) ! (fst (([([0, 0, 1, 1 :: nat], [True, True, True, True])]) ! i) ! j) ! (k * 2 + (if snd (([([0, 0, 1, 1 :: nat], [True, True, True, True])]) ! i) ! j then 0 else 1)) =
                    ([[0, 1, 0, 0], [1, 1, 0, 1 :: int]]) ! (fst (([([0, 0, 1, 1 :: nat], [True, True, True, True])]) ! i) ! ((j + 1) mod length (fst (([([0, 0, 1, 1 :: nat], [True, True, True, True])]) ! i)))) !
                      (k * 2 + (if snd (([([0, 0, 1, 1 :: nat], [True, True, True, True])]) ! i) ! ((j + 1) mod length (fst (([([0, 0, 1, 1 :: nat], [True, True, True, True])]) ! i))) then 1 else 0))),
                 ([[0, 1, 0, 0], [1, 1, 0, 1 :: int]])))" .
qed

section \<open>The check of the edge degrees\<close>


lemma visit_curve_not_odd:
  "visit_curve labels nl orders orientations q s c \<noteq> Inl OddFacesPerEdge"
  by (simp add: visit_curve_def Let_def split: option.splits)

lemma visit_curves_not_odd:
  "visit_curves labels nl orders orientations q s cs \<noteq> Inl OddFacesPerEdge"
  by (induction cs arbitrary: s) (auto simp: visit_curve_not_odd split: sum.splits)

lemma dequeue_patch_not_odd:
  "st \<noteq> Inl OddFacesPerEdge \<Longrightarrow>
   dequeue_patch labels nl orders orientations adj st \<noteq> Inl OddFacesPerEdge"
  by (cases st) (simp_all add: dequeue_patch_def Let_def visit_curves_not_odd)

lemma propagate_over_patches_not_odd:
  "propagate_over_patches labels nl orders orientations adj W opi \<noteq> Some (Inl OddFacesPerEdge)"
proof
  assume a: "propagate_over_patches labels nl orders orientations adj W opi = Some (Inl OddFacesPerEdge)"
  have "Inl OddFacesPerEdge \<noteq> (Inl OddFacesPerEdge :: error + matrix \<times> nat list)"
    by (rule while_option_rule [where P = "\<lambda>st. st \<noteq> Inl OddFacesPerEdge",
          OF _ a [unfolded propagate_over_patches_def]])
       (simp_all add: dequeue_patch_not_odd)
  then show False by simp
qed

lemma curves_are_consistent_not_odd:
  "curves_are_consistent orders orientations W nl cs \<noteq> Inl OddFacesPerEdge"
  by (induction cs) auto

lemma propagate_from_orders_not_odd:
  "propagate_from_orders labels P orders orientations adj ofi flipped \<noteq> Some (Inl OddFacesPerEdge)"
  using propagate_over_patches_not_odd [of labels "Max (set labels) + 1" orders orientations adj
      "seed_patch_W (Max (set P) + 1) (Max (set labels) + 1) (P ! ofi) (labels ! (P ! ofi)) flipped" "P ! ofi"]
    curves_are_consistent_not_odd
  by (auto simp: propagate_from_orders_def Let_def winding_number_assignment_is_consistent_def
      split: option.splits sum.splits)

lemma adjacent_faces_not_odd:
  "adjacent_faces F P i s d eis acc \<noteq> Inl OddFacesPerEdge"
  by (induction eis arbitrary: acc)
     (auto simp: Let_def compute_signed_index_def is_positively_orientated_def split: sum.splits if_splits)

lemma order_curve_not_odd:
  "order_curve ext V F uE uE2E P curves i adj \<noteq> Inl OddFacesPerEdge"
  using adjacent_faces_not_odd
  by (auto simp: order_curve_def Let_def split: sum.splits prod.splits if_splits)

lemma order_curves_not_odd:
  "order_curves ext V F uE uE2E P curves is acc \<noteq> Inl OddFacesPerEdge"
  by (induction "is" arbitrary: acc) (auto simp: order_curve_not_odd split: sum.splits prod.splits)

lemma patch_wise_not_odd:
  "propagate_winding_numbers_single_component_patch_wise ext V F uE uE2E labels P curves \<noteq>
     Some (Inl OddFacesPerEdge)"
  using order_curves_not_odd propagate_from_orders_not_odd
  by (auto simp: propagate_winding_numbers_single_component_patch_wise_def Let_def
      split: sum.splits prod.splits if_splits)

lemma gather_patch_labels_not_odd:
  "gather_patch_labels line P labels patch_labels is \<noteq> Inl OddFacesPerEdge"
  by (induction "is" arbitrary: patch_labels) auto

lemma single_component_not_odd:
  "propagate_winding_numbers_single_component ext V F labels \<noteq> Some (Inl OddFacesPerEdge)"
  using patch_wise_not_odd gather_patch_labels_not_odd
  by (auto simp: propagate_winding_numbers_single_component_def Let_def
      split: sum.splits prod.splits if_splits option.splits)

lemma propagate_components_not_odd:
  "propagate_components ext V comp_faces comp_labels components is out \<noteq> Some (Inl OddFacesPerEdge)"
  by (induction "is" arbitrary: out)
     (auto simp: single_component_not_odd Let_def split: option.splits sum.splits prod.splits)

lemma has_odd_edge_iff: "has_odd_edge uE2E \<longleftrightarrow> (\<exists>adj_faces \<in> set uE2E. odd (length adj_faces))"
  by (auto simp: has_odd_edge_def list_ex_iff odd_iff_mod_2_eq_one)


text \<open>
  Claim C3. If some unique edge has an odd number of incident half-edges,
  \<^verbatim>\<open>propagate_winding_numbers\<close> throws its runtime error, whatever the vertices, the labels
  and the other collaborators (the component extraction, the patches, the geometric
  queries) are: none of them is consulted before the check. If every unique edge has an
  even number of incident half-edges, the check passes and that error is not raised, by
  the check or by anything after it.
\<close>

theorem odd_edge_is_rejected_first:
  "let uE2E = snd (snd (snd (unique_edge_map ext F))) in
     ((\<exists>adj_faces \<in> set uE2E. odd (length adj_faces)) \<longrightarrow>
        (\<forall>ext' V' labels'. unique_edge_map ext' F = unique_edge_map ext F \<longrightarrow>
           propagate_winding_numbers ext' V' F labels' = Some (Inl OddFacesPerEdge))) \<and>
     ((\<forall>adj_faces \<in> set uE2E. even (length adj_faces)) \<longrightarrow>
        \<not> has_odd_edge uE2E \<and>
        propagate_winding_numbers ext V F labels \<noteq> Some (Inl OddFacesPerEdge))"
proof -
  obtain E uE EMAP uE2E where u: "unique_edge_map ext F = (E, uE, EMAP, uE2E)"
    by (cases "unique_edge_map ext F") auto
  have odd: "propagate_winding_numbers ext' V' F labels' = Some (Inl OddFacesPerEdge)"
    if "has_odd_edge uE2E" "unique_edge_map ext' F = unique_edge_map ext F" for ext' V' labels'
    using that by (simp add: propagate_winding_numbers_def u)
  have even: "propagate_winding_numbers ext V F labels \<noteq> Some (Inl OddFacesPerEdge)"
    if "\<not> has_odd_edge uE2E"
    using that propagate_components_not_odd
    by (auto simp: propagate_winding_numbers_def u Let_def split: prod.splits option.splits sum.splits)
  show ?thesis
    using odd even by (auto simp: u has_odd_edge_iff)
qed

theorem odd_edge_is_rejected_first_witness:
  "(\<exists>adj_faces \<in> set (snd (snd (snd (unique_edge_map ext_triangle F_triangle)))). odd (length adj_faces)) \<and>
   propagate_winding_numbers ext_triangle V_example F_triangle [0] = Some (Inl OddFacesPerEdge) \<and>
   propagate_winding_numbers (ext_triangle\<lparr>facet_components := (\<lambda>TT. ([], []))\<rparr>) [] F_triangle [] =
     Some (Inl OddFacesPerEdge) \<and>
   list_all (\<lambda>adj_faces. even (length adj_faces))
     (snd (snd (snd (unique_edge_map ext_tetrahedron F_tetrahedron)))) \<and>
   \<not> has_odd_edge (snd (snd (snd (unique_edge_map ext_tetrahedron F_tetrahedron)))) \<and>
   propagate_winding_numbers ext_tetrahedron V_example F_tetrahedron [0, 0, 0, 0] \<noteq>
     Some (Inl OddFacesPerEdge) \<and>
   propagate_winding_numbers ext_tetrahedron V_example F_tetrahedron [0, 0, 0, 0] =
     Some (Inr \<lparr>W_out = [[0, 1], [0, 1], [0, 1], [0, 1]], reported = []\<rparr>)"
proof -
  have o: "\<exists>adj_faces \<in> set (snd (snd (snd (unique_edge_map ext_triangle F_triangle)))). odd (length adj_faces)"
    by (simp add: ext_triangle_def uE2E_triangle_def)
  have e: "\<forall>adj_faces \<in> set (snd (snd (snd (unique_edge_map ext_tetrahedron F_tetrahedron)))).
      even (length adj_faces)"
    by (simp add: ext_tetrahedron_def uE2E_tetrahedron_def)
  note tri = odd_edge_is_rejected_first [of ext_triangle F_triangle, unfolded Let_def, THEN conjunct1, THEN mp, OF o, rule_format]
  note tet = odd_edge_is_rejected_first [of ext_tetrahedron F_tetrahedron V_example "[0, 0, 0, 0]",
      unfolded Let_def, THEN conjunct2, THEN mp, OF e]
  have 1: "propagate_winding_numbers ext_triangle V_example F_triangle [0] = Some (Inl OddFacesPerEdge)"
    by (rule tri) simp
  have 2: "propagate_winding_numbers (ext_triangle\<lparr>facet_components := (\<lambda>TT. ([], []))\<rparr>) [] F_triangle [] =
     Some (Inl OddFacesPerEdge)"
    by (rule tri) (simp add: ext_triangle_def)
  have 3: "propagate_winding_numbers ext_tetrahedron V_example F_tetrahedron [0, 0, 0, 0] =
     Some (Inr \<lparr>W_out = [[0, 1], [0, 1], [0, 1], [0, 1]], reported = []\<rparr>)"
    by code_simp
  from o e 1 2 3 tet show ?thesis
    by (simp add: list_all_iff)
qed

section \<open>What the entry point hands back\<close>

subsection \<open>Dimensions\<close>


lemma map_length_set_coeff [simp]: "map length (set_coeff M r c v) = map length M"
  by (rule nth_equalityI) simp_all

lemma map_length_derive_next [simp]:
  "map length (derive_next labels nl W cu nx cons) = map length W"
  by (induction nl) (auto simp add: derive_next_0 derive_next_Suc Let_def)

lemma map_length_derive_prev [simp]:
  "map length (derive_prev labels nl W cu pv cons) = map length W"
  by (induction nl) (auto simp add: derive_prev_0 derive_prev_Suc Let_def)

lemma map_length_assign_next [simp]:
  "map length (fst (assign_next labels nl order orientation q curr_i s)) = map length (fst s)"
  by (simp add: assign_next_def Let_def)

lemma map_length_assign_prev [simp]:
  "map length (fst (assign_prev labels nl order orientation q curr_i s)) = map length (fst s)"
  by (simp add: assign_prev_def Let_def)

lemma map_length_visit_curve:
  "visit_curve labels nl orders orientations q s c = Inr s' \<Longrightarrow> map length (fst s') = map length (fst s)"
  by (auto simp: visit_curve_def Let_def split: if_splits option.splits)

lemma map_length_visit_curves:
  "visit_curves labels nl orders orientations q s cs = Inr s' \<Longrightarrow> map length (fst s') = map length (fst s)"
proof (induction cs arbitrary: s)
  case Nil
  then show ?case by simp
next
  case (Cons c cs)
  then show ?case
    by (auto split: sum.splits dest!: map_length_visit_curve)
qed

lemma rows_are_dequeue_patch:
  "rows_are L st \<Longrightarrow> rows_are L (dequeue_patch labels nl orders orientations adj st)"
  by (cases st)
     (auto simp: rows_are_def dequeue_patch_def Let_def split: sum.splits dest!: map_length_visit_curves)

lemma map_length_propagate_over_patches:
  assumes "propagate_over_patches labels nl orders orientations adj W opi = Some (Inr s)"
  shows "map length (fst s) = map length W"
proof -
  have "rows_are (map length W) (Inr s)"
    by (rule while_option_rule [where P = "rows_are (map length W)",
          OF _ assms [unfolded propagate_over_patches_def]])
       (simp_all add: rows_are_dequeue_patch, simp add: rows_are_def)
  then show ?thesis by (simp add: rows_are_def)
qed

lemma map_length_seed:
  "map length (seed_patch_W np nl opi l f) = replicate np (2 * nl)"
  by (rule nth_equalityI) (simp_all add: seed_patch_W_length seed_patch_W_row_length)

lemma propagate_from_orders_dims:
  assumes "propagate_from_orders labels P orders orientations adj ofi flipped = Some (Inr (b, W))"
  shows "map length W = replicate (Max (set P) + 1) (2 * (Max (set labels) + 1))"
proof -
  from propagate_from_orders_Inr(3) [OF assms] obtain Q where
    "propagate_over_patches labels (Max (set labels) + 1) orders orientations adj
       (seed_patch_W (Max (set P) + 1) (Max (set labels) + 1) (P ! ofi) (labels ! (P ! ofi)) flipped)
       (P ! ofi) = Some (Inr (W, Q))" by blast
  from map_length_propagate_over_patches [OF this] show ?thesis
    by (simp add: map_length_seed)
qed

lemma patch_wise_dims:
  assumes "propagate_winding_numbers_single_component_patch_wise ext V F uE uE2E labels P curves =
             Some (Inr (b, W))"
  shows "map length W = replicate (Max (set P) + 1) (2 * (Max (set labels) + 1))"
  using assms propagate_from_orders_dims
  unfolding propagate_winding_numbers_single_component_patch_wise_def Let_def
  by (auto split: if_splits sum.splits prod.splits)


lemma single_component_Inr:
  assumes "propagate_winding_numbers_single_component ext V F labels = Some (Inr (b, W))"
  obtains E uE EMAP uE2E P patch_labels winding_numbers where
    "unique_edge_map ext F = (E, uE, EMAP, uE2E)"
    "snd (extract_manifold_patches ext F EMAP uE2E) = P"
    "length P = length F" "P \<noteq> []"
    "propagate_winding_numbers_single_component_patch_wise ext V F uE uE2E (map nat patch_labels) P
       (extract_non_manifold_edge_curves ext F EMAP uE2E) = Some (Inr (b, winding_numbers))"
    "W = map (\<lambda>i. winding_numbers ! (P ! i)) [0..<length F]"
  using assms unfolding propagate_winding_numbers_single_component_def Let_def
  by (auto split: if_splits sum.splits prod.splits option.splits)

lemma cols_nth: "M \<noteq> [] \<Longrightarrow> cols M = length (M ! 0)"
  by (cases M) (simp_all add: cols_def)

lemma map_length_replicateD:
  assumes "map length M = replicate k n"
  shows "length M = k" and "\<forall>r \<in> set M. length r = n"
proof -
  show "length M = k" using assms by (metis length_map length_replicate)
  show "\<forall>r \<in> set M. length r = n"
  proof
    fix r assume "r \<in> set M"
    then have "length r \<in> set (map length M)" by simp
    then show "length r = n" unfolding assms by simp
  qed
qed

lemma single_component_dims:
  assumes "propagate_winding_numbers_single_component ext V F labels = Some (Inr (b, W))"
  shows "length W = length F" and "\<forall>r \<in> set W. length r = cols W"
proof -
  from assms obtain E uE EMAP uE2E P patch_labels wn where
    P: "length P = length F" "P \<noteq> []"
    and pw: "propagate_winding_numbers_single_component_patch_wise ext V F uE uE2E (map nat patch_labels) P
       (extract_non_manifold_edge_curves ext F EMAP uE2E) = Some (Inr (b, wn))"
    and W: "W = map (\<lambda>i. wn ! (P ! i)) [0..<length F]"
    by (rule single_component_Inr)
  define n where "n = 2 * (Max (set (map nat patch_labels)) + 1)"
  have wn: "map length wn = replicate (Max (set P) + 1) n"
    using patch_wise_dims [OF pw] by (simp add: n_def)
  note len = map_length_replicateD(1) [OF wn]
  have row: "length (wn ! p) = n" if "p < Max (set P) + 1" for p
    using map_length_replicateD(2) [OF wn] that len by (metis nth_mem)
  have rows: "length (W ! i) = n" if "i < length F" for i
  proof -
    have "P ! i \<in> set P" using that P(1) by simp
    then have "P ! i \<le> Max (set P)" by simp
    then show ?thesis using row [of "P ! i"] that by (simp add: W)
  qed
  show lenW: "length W = length F" by (simp add: W)
  have F: "0 < length F" using P by (cases P) auto
  then have ne: "W \<noteq> []" using lenW by auto
  have "cols W = n" using rows [OF F] ne by (simp add: cols_nth)
  then show "\<forall>r \<in> set W. length r = cols W"
    using rows lenW by (auto simp: in_set_conv_nth)
qed


lemma gather_components_Suc:
  "gather_components C nc (Suc n) =
     (gather_components C nc n)[C ! n := gather_components C nc n ! (C ! n) @ [n]]"
  by (simp add: gather_components_def)

lemma gather_components_length [simp]: "length (gather_components C nc nf) = nc"
  by (induction nf) (simp_all add: gather_components_Suc, simp add: gather_components_def)

lemma gather_components_less:
  assumes "component \<in> set (gather_components C nc nf)" and "f \<in> set component"
  shows "f < nf"
  using assms
proof (induction nf arbitrary: component f)
  case 0
  then show ?case by (simp add: gather_components_def)
next
  case (Suc n)
  let ?g = "gather_components C nc n"
  from Suc.prems(1) have "component \<in> set (?g[C ! n := ?g ! (C ! n) @ [n]])"
    by (simp add: gather_components_Suc)
  then have "component \<in> set ?g \<or> (C ! n < nc \<and> component = ?g ! (C ! n) @ [n])"
    by (cases "C ! n < nc")
       (auto simp: list_update_beyond not_less dest: set_update_subset_insert [THEN subsetD])
  then show ?case
  proof
    assume "component \<in> set ?g"
    then show ?thesis using Suc.IH Suc.prems(2) less_Suc_eq by blast
  next
    assume a: "C ! n < nc \<and> component = ?g ! (C ! n) @ [n]"
    then have mem: "?g ! (C ! n) \<in> set ?g" by simp
    from a Suc.prems(2) have "f = n \<or> f \<in> set (?g ! (C ! n))" by auto
    then show ?thesis
    proof
      assume "f = n"
      then show ?thesis by simp
    next
      assume "f \<in> set (?g ! (C ! n))"
      then have "f < n" using Suc.IH [OF mem] by blast
      then show ?thesis by simp
    qed
  qed
qed

lemma map_length_block_update:
  assumes "length x = width" and "r < length W \<longrightarrow> width \<le> length (W ! r)"
  shows "map length (W[r := take width x @ drop width (W ! r)]) = map length W"
proof (cases "r < length W")
  case True
  then have "length (take width x @ drop width (W ! r)) = length (W ! r)"
    using assms by simp
  then show ?thesis
    by (metis list_update_id map_update)
next
  case False
  then show ?thesis by (simp add: list_update_beyond not_less)
qed

lemma map_length_store_component:
  assumes "\<forall>j < length component. length (Ws_i ! j) = width"
    and "\<forall>r \<in> set W. width \<le> length r"
  shows "map length (store_component W component Ws_i width) = map length W"
proof -
  have "map length (foldl (\<lambda>W j. W[component ! j := take width (Ws_i ! j) @ drop width (W ! (component ! j))])
           W [0..<n]) = map length W" if "n \<le> length component" for n
    using that
  proof (induction n)
    case 0
    then show ?case by simp
  next
    case (Suc n)
    let ?W = "foldl (\<lambda>W j. W[component ! j := take width (Ws_i ! j) @ drop width (W ! (component ! j))])
           W [0..<n]"
    have IH: "map length ?W = map length W" using Suc by simp
    have "\<forall>r \<in> set ?W. width \<le> length r"
    proof
      fix r assume "r \<in> set ?W"
      then have "length r \<in> set (map length ?W)" by simp
      then have "length r \<in> length ` set W" unfolding IH by simp
      then show "width \<le> length r" using assms(2) by auto
    qed
    then have "component ! n < length ?W \<longrightarrow> width \<le> length (?W ! (component ! n))"
      by simp
    moreover have "length (Ws_i ! n) = width" using assms(1) Suc.prems by simp
    ultimately have "map length (?W[component ! n := take width (Ws_i ! n) @ drop width (?W ! (component ! n))]) =
        map length ?W"
      by (rule map_length_block_update [rotated])
    then show ?case using IH by simp
  qed
  then show ?thesis by (simp add: store_component_def)
qed

lemma add_row_length [simp]: "length (add_row r c) = length r"
  by (simp add: add_row_def)

lemma map_length_update_same:
  "length x = length (W ! r) \<Longrightarrow> map length (W[r := x]) = map length W"
  by (metis list_update_id map_update)

lemma map_length_apply_corrections [simp]:
  "map length (apply_corrections components ac W) = map length W"
proof -
  have inner: "map length (foldl (\<lambda>W fid. W[fid := add_row (W ! fid) c]) W fs) = map length W" for c fs W
    by (induction fs arbitrary: W) (simp_all add: map_length_update_same)
  have "map length (foldl (\<lambda>W i. foldl (\<lambda>W fid. W[fid := add_row (W ! fid) (ac ! i)]) W (components ! i))
       W is) = map length W" for "is"
    by (induction "is" arbitrary: W) (simp_all add: inner)
  then show ?thesis by (simp add: apply_corrections_def)
qed

lemma map_length_nesting_correction [simp]:
  "map length (nesting_correction ext V comp_faces components nl W) = map length W"
  by (simp add: nesting_correction_def)


lemma rows_of_map_length:
  assumes "map length W' = map length W" and "\<forall>r \<in> set W. length r = n"
  shows "\<forall>r \<in> set W'. length r = n"
proof
  fix r assume "r \<in> set W'"
  then have "length r \<in> set (map length W')" by simp
  then have "length r \<in> length ` set W" unfolding assms(1) by simp
  then show "length r = n" using assms(2) by auto
qed

lemma propagate_components_spec:
  assumes "propagate_components ext V comp_faces comp_labels components is out = Some (Inr out')"
    and "\<forall>i \<in> set is. \<forall>l \<in> set (comp_labels ! i). l < nl"
    and "\<forall>i \<in> set is. length (comp_faces ! i) = length (components ! i)"
    and "\<forall>r \<in> set (W_out out). length r = 2 * nl"
  shows "map length (W_out out') = map length (W_out out) \<and>
         reported out' = reported out @
           filter (\<lambda>i. component_flag ext V comp_faces comp_labels i = Some (Inr False)) is \<and>
         (\<forall>i \<in> set is. component_flag ext V comp_faces comp_labels i = Some (Inr True) \<or>
                        component_flag ext V comp_faces comp_labels i = Some (Inr False))"
  using assms
proof (induction "is" arbitrary: out)
  case Nil
  then show ?case by simp
next
  case (Cons i "is")
  let ?width = "(Max (set (comp_labels ! i)) + 1) * 2"
  from Cons.prems(1) obtain b Ws_i where
    sc: "propagate_winding_numbers_single_component ext V (comp_faces ! i) (comp_labels ! i) =
           Some (Inr (b, Ws_i))"
    and ne: "comp_labels ! i \<noteq> []"
    and cols: "cols Ws_i = ?width"
    and len: "length Ws_i = length (comp_faces ! i)"
    and rest: "propagate_components ext V comp_faces comp_labels components is
           \<lparr>W_out = store_component (W_out out) (components ! i) Ws_i ?width,
            reported = (if \<not> b then reported out @ [i] else reported out)\<rparr> = Some (Inr out')"
    by (auto simp: Let_def split: option.splits sum.splits if_splits)
  have flag: "component_flag ext V comp_faces comp_labels i = Some (Inr b)"
    by (simp add: component_flag_def sc)
  have "Max (set (comp_labels ! i)) \<in> set (comp_labels ! i)" using ne by simp
  then have "Max (set (comp_labels ! i)) < nl" using Cons.prems(2) by simp
  then have w: "?width \<le> 2 * nl" by simp
  have rows: "\<forall>j < length (components ! i). length (Ws_i ! j) = ?width"
    using single_component_dims(2) [OF sc] cols len Cons.prems(3) by simp
  have wide: "\<forall>r \<in> set (W_out out). ?width \<le> length r"
    using Cons.prems(4) w by simp
  have st: "map length (store_component (W_out out) (components ! i) Ws_i ?width) = map length (W_out out)"
    by (rule map_length_store_component [OF rows wide])
  have dims': "\<forall>r \<in> set (store_component (W_out out) (components ! i) Ws_i ?width). length r = 2 * nl"
    by (rule rows_of_map_length [OF st Cons.prems(4)])
  from Cons.IH [OF rest] Cons.prems(2,3) dims'
  have IH: "map length (W_out out') =
      map length (store_component (W_out out) (components ! i) Ws_i ?width)"
    "reported out' = (if \<not> b then reported out @ [i] else reported out) @
       filter (\<lambda>i. component_flag ext V comp_faces comp_labels i = Some (Inr False)) is"
    "\<forall>i \<in> set is. component_flag ext V comp_faces comp_labels i = Some (Inr True) \<or>
                        component_flag ext V comp_faces comp_labels i = Some (Inr False)"
    by simp_all
  show ?case
    using IH st flag by (cases b) simp_all
qed


lemma mesh_components_less:
  assumes "component \<in> set (mesh_components ext F)" and "f \<in> set component"
  shows "f < length F"
  using assms gather_components_less
  unfolding mesh_components_def Let_def by (auto split: prod.splits)

lemma propagate_winding_numbers_Inr:
  assumes "propagate_winding_numbers ext V F labels = Some (Inr out)"
  obtains out' where
    "labels \<noteq> []"
    "propagate_components ext V (map (map (\<lambda>j. F ! j)) (mesh_components ext F))
       (map (map (\<lambda>j. labels ! j)) (mesh_components ext F)) (mesh_components ext F)
       [0..<length (mesh_components ext F)]
       \<lparr>W_out = replicate (length F) (replicate (2 * (Max (set labels) + 1)) 0), reported = []\<rparr> =
         Some (Inr out')"
    "out = out'\<lparr>W_out := nesting_correction ext V (map (map (\<lambda>j. F ! j)) (mesh_components ext F))
       (mesh_components ext F) (Max (set labels) + 1) (W_out out')\<rparr>"
  using assms
  unfolding propagate_winding_numbers_def mesh_components_def Let_def
  by (auto split: prod.splits if_splits option.splits sum.splits)

lemma gather_patch_labels_spec:
  assumes "gather_patch_labels line P labels pl0 is = Inr pl"
    and "\<forall>i \<in> set is. P ! i < length pl0"
    and "\<forall>i \<in> set is. int (labels ! i) \<noteq> INVALID"
  shows "length pl = length pl0 \<and>
         (\<forall>p < length pl0. pl0 ! p \<noteq> INVALID \<longrightarrow> pl ! p = pl0 ! p) \<and>
         (\<forall>i \<in> set is. pl ! (P ! i) = int (labels ! i)) \<and>
         (\<forall>p < length pl0. pl ! p = pl0 ! p \<or> (\<exists>i \<in> set is. pl ! p = int (labels ! i)))"
  using assms
proof (induction "is" arbitrary: pl0)
  case Nil
  then show ?case by simp
next
  case (Cons i "is")
  have Pi: "P ! i < length pl0" and li: "int (labels ! i) \<noteq> INVALID"
    using Cons.prems(2,3) by simp_all
  show ?case
  proof (cases "pl0 ! (P ! i) = INVALID")
    case True
    let ?pl1 = "pl0[P ! i := int (labels ! i)]"
    from Cons.prems(1) True have r: "gather_patch_labels line P labels ?pl1 is = Inr pl" by simp
    have "\<forall>i \<in> set is. P ! i < length ?pl1" using Cons.prems(2) by simp
    from Cons.IH [OF r this] Cons.prems(3)
    have IH: "length pl = length pl0"
      "\<And>p. p < length pl0 \<Longrightarrow> ?pl1 ! p \<noteq> INVALID \<Longrightarrow> pl ! p = ?pl1 ! p"
      "\<And>j. j \<in> set is \<Longrightarrow> pl ! (P ! j) = int (labels ! j)"
      "\<And>p. p < length pl0 \<Longrightarrow> pl ! p = ?pl1 ! p \<or> (\<exists>i \<in> set is. pl ! p = int (labels ! i))"
      by simp_all
    have here: "pl ! (P ! i) = int (labels ! i)"
      using IH(2) [OF Pi] Pi li by simp
    have stable: "pl ! p = pl0 ! p" if "p < length pl0" "pl0 ! p \<noteq> INVALID" for p
    proof -
      have "p \<noteq> P ! i" using that True by auto
      then show ?thesis using IH(2) [OF that(1)] that(2) by simp
    qed
    have origin: "pl ! p = pl0 ! p \<or> (\<exists>j \<in> set (i # is). pl ! p = int (labels ! j))"
      if "p < length pl0" for p
    proof (cases "p = P ! i")
      case True
      then show ?thesis using here by simp
    next
      case False
      then show ?thesis using IH(4) [OF that] by auto
    qed
    show ?thesis using IH(1,3) here stable origin by simp
  next
    case False
    with Cons.prems(1) have eq: "pl0 ! (P ! i) = int (labels ! i)"
      and r: "gather_patch_labels line P labels pl0 is = Inr pl"
      by (auto split: if_splits)
    have "\<forall>i \<in> set is. P ! i < length pl0" using Cons.prems(2) by simp
    from Cons.IH [OF r this] Cons.prems(3)
    have IH: "length pl = length pl0"
      "\<And>p. p < length pl0 \<Longrightarrow> pl0 ! p \<noteq> INVALID \<Longrightarrow> pl ! p = pl0 ! p"
      "\<And>j. j \<in> set is \<Longrightarrow> pl ! (P ! j) = int (labels ! j)"
      "\<And>p. p < length pl0 \<Longrightarrow> pl ! p = pl0 ! p \<or> (\<exists>i \<in> set is. pl ! p = int (labels ! i))"
      by simp_all
    have here: "pl ! (P ! i) = int (labels ! i)"
      using IH(2) [OF Pi False] eq by simp
    show ?thesis using IH here by auto
  qed
qed

lemma gathered_labels_set:
  assumes g: "gather_patch_labels line P labels (replicate np INVALID) [0..<nf] = Inr pl"
    and all: "list_all (\<lambda>l. l \<noteq> INVALID) pl"
    and P: "length P = nf" "\<forall>p \<in> set P. p < np"
    and labels: "length labels = nf" "\<forall>l \<in> set labels. l < 2147483647"
  shows "set (map nat pl) = set labels"
proof -
  have 1: "\<forall>i \<in> set [0..<nf]. P ! i < length (replicate np INVALID)"
    using P by simp
  have 2: "\<forall>i \<in> set [0..<nf]. int (labels ! i) \<noteq> INVALID"
  proof
    fix i assume "i \<in> set [0..<nf]"
    then have "labels ! i \<in> set labels" using labels(1) by simp
    then have "labels ! i < 2147483647" using labels(2) by blast
    then show "int (labels ! i) \<noteq> INVALID" by (simp add: INVALID_def)
  qed
  note spec = gather_patch_labels_spec [OF g 1 2]
  have len: "length pl = np" using spec by simp
  have at: "pl ! (P ! i) = int (labels ! i)" if "i < nf" for i
    using spec that by simp
  have origin: "pl ! p = INVALID \<or> (\<exists>i < nf. pl ! p = int (labels ! i))" if "p < np" for p
  proof -
    from spec that have "pl ! p = replicate np INVALID ! p \<or>
        (\<exists>i \<in> set [0..<nf]. pl ! p = int (labels ! i))" by simp
    then show ?thesis using that by auto
  qed
  have "set pl = int ` set labels"
  proof (intro equalityI subsetI)
    fix x assume "x \<in> set pl"
    then obtain p where p: "p < np" "x = pl ! p" using len by (auto simp: in_set_conv_nth)
    have "x \<noteq> INVALID" using all \<open>x \<in> set pl\<close> by (simp add: list_all_iff)
    with origin [OF p(1)] p(2) obtain i where "i < nf" "x = int (labels ! i)" by auto
    then show "x \<in> int ` set labels" using labels(1) by auto
  next
    fix x assume "x \<in> int ` set labels"
    then obtain i where i: "i < nf" "x = int (labels ! i)"
      using labels(1) by (auto simp: in_set_conv_nth)
    have "P ! i < np" using P i(1) by simp
    then have "pl ! (P ! i) \<in> set pl" using len by simp
    then show "x \<in> set pl" using at [OF i(1)] i(2) by simp
  qed
  then show ?thesis by (simp add: image_image)
qed


lemma single_component_shape:
  assumes "propagate_winding_numbers_single_component ext V F labels = Some (Inr (b, W))"
  shows "\<exists>P pl. gather_patch_labels 646 P labels (replicate (Max (set P) + 1) INVALID) [0..<length F] = Inr pl \<and>
           list_all (\<lambda>l. l \<noteq> INVALID) pl \<and> length P = length F \<and> P \<noteq> [] \<and>
           map length W = replicate (length F) (2 * (Max (set (map nat pl)) + 1))"
proof -
  from assms obtain E uE EMAP uE2E np P pl wn where
    P: "length P = length F" "P \<noteq> []" "Max (set P) + 1 = np"
    and g: "gather_patch_labels 646 P labels (replicate np INVALID) [0..<length F] = Inr pl"
    and a: "list_all (\<lambda>l. l \<noteq> INVALID) pl"
    and pw: "propagate_winding_numbers_single_component_patch_wise ext V F uE uE2E (map nat pl) P
       (extract_non_manifold_edge_curves ext F EMAP uE2E) = Some (Inr (b, wn))"
    and W: "W = map (\<lambda>i. wn ! (P ! i)) [0..<length F]"
    unfolding propagate_winding_numbers_single_component_def Let_def
    by (auto split: if_splits sum.splits prod.splits option.splits)
  define n where "n = 2 * (Max (set (map nat pl)) + 1)"
  have wn: "map length wn = replicate (Max (set P) + 1) n"
    using patch_wise_dims [OF pw] by (simp add: n_def)
  note len = map_length_replicateD(1) [OF wn]
  have row: "length (wn ! p) = n" if "p < Max (set P) + 1" for p
    using map_length_replicateD(2) [OF wn] that len by (metis nth_mem)
  have rows: "length (W ! i) = n" if "i < length F" for i
  proof -
    have "P ! i \<in> set P" using that P(1) by simp
    then have "P ! i \<le> Max (set P)" by simp
    then show ?thesis using row [of "P ! i"] that by (simp add: W)
  qed
  have "length W = length F" by (simp add: W)
  then have "map length W = replicate (length F) n"
    using rows by (intro nth_equalityI) simp_all
  then show ?thesis
    using g a P unfolding n_def by blast
qed

lemma single_component_cols:
  assumes "propagate_winding_numbers_single_component ext V F labels = Some (Inr (b, W))"
    and "length labels = length F" and "\<forall>l \<in> set labels. l < 2147483647"
  shows "labels \<noteq> []" and "cols W = 2 * (Max (set labels) + 1)"
proof -
  from single_component_shape [OF assms(1)] obtain P pl where
    g: "gather_patch_labels 646 P labels (replicate (Max (set P) + 1) INVALID) [0..<length F] = Inr pl"
    and a: "list_all (\<lambda>l. l \<noteq> INVALID) pl" and P: "length P = length F" "P \<noteq> []"
    and W: "map length W = replicate (length F) (2 * (Max (set (map nat pl)) + 1))"
    by blast
  have "\<forall>p \<in> set P. p < Max (set P) + 1" by (simp add: less_Suc_eq_le)
  from gathered_labels_set [OF g a P(1) this assms(2,3)]
  have s: "set (map nat pl) = set labels" .
  have F: "0 < length F" using P by (cases P) auto
  then show "labels \<noteq> []" using assms(2) by auto
  have "W \<noteq> []" using map_length_replicateD(1) [OF W] F by auto
  moreover have "length (W ! 0) = 2 * (Max (set labels) + 1)"
    using W F s by (metis nth_map nth_replicate map_length_replicateD(1))
  ultimately show "cols W = 2 * (Max (set labels) + 1)" by (simp add: cols_nth)
qed

lemma component_flagD:
  assumes "component_flag ext V comp_faces comp_labels i = Some (Inr b)"
  shows "\<exists>Ws. propagate_winding_numbers_single_component ext V (comp_faces ! i) (comp_labels ! i) =
           Some (Inr (b, Ws))"
proof (cases "propagate_winding_numbers_single_component ext V (comp_faces ! i) (comp_labels ! i)")
  case None
  then show ?thesis using assms by (simp add: component_flag_def)
next
  case (Some r)
  then show ?thesis using assms by (cases r) (auto simp: component_flag_def)
qed

lemma propagate_components_returns:
  assumes "\<forall>i \<in> set is. component_flag ext V comp_faces comp_labels i = Some (Inr True) \<or>
                          component_flag ext V comp_faces comp_labels i = Some (Inr False)"
    and "\<forall>i \<in> set is. length (comp_labels ! i) = length (comp_faces ! i) \<and>
                          (\<forall>l \<in> set (comp_labels ! i). l < 2147483647)"
  shows "\<exists>out'. propagate_components ext V comp_faces comp_labels components is out = Some (Inr out')"
  using assms
proof (induction "is" arbitrary: out)
  case Nil
  then show ?case by simp
next
  case (Cons i "is")
  from Cons.prems(1) obtain b where "component_flag ext V comp_faces comp_labels i = Some (Inr b)"
    by auto
  from component_flagD [OF this] obtain Ws_i where
    sc: "propagate_winding_numbers_single_component ext V (comp_faces ! i) (comp_labels ! i) =
           Some (Inr (b, Ws_i))"
    by blast
  have l: "length (comp_labels ! i) = length (comp_faces ! i)"
    "\<forall>l \<in> set (comp_labels ! i). l < 2147483647"
    using Cons.prems(2) by simp_all
  note c = single_component_cols [OF sc l]
  note d = single_component_dims(1) [OF sc]
  have "\<exists>out'. propagate_components ext V comp_faces comp_labels components is
      \<lparr>W_out = store_component (W_out out) (components ! i) Ws_i ((Max (set (comp_labels ! i)) + 1) * 2),
       reported = (if \<not> b then reported out @ [i] else reported out)\<rparr> = Some (Inr out')"
    by (rule Cons.IH) (use Cons.prems in simp_all)
  then show ?case
    using c d by (simp add: sc Let_def)
qed


lemma propagate_winding_numbers_eq:
  assumes "\<not> has_odd_edge (snd (snd (snd (unique_edge_map ext F))))" and "labels \<noteq> []"
  shows "propagate_winding_numbers ext V F labels =
     (case propagate_components ext V (map (map (\<lambda>j. F ! j)) (mesh_components ext F))
             (map (map (\<lambda>j. labels ! j)) (mesh_components ext F)) (mesh_components ext F)
             [0..<length (mesh_components ext F)]
             \<lparr>W_out = replicate (length F) (replicate (2 * (Max (set labels) + 1)) 0), reported = []\<rparr> of
        None \<Rightarrow> None
      | Some (Inl e) \<Rightarrow> Some (Inl e)
      | Some (Inr out) \<Rightarrow>
          Some (Inr (out\<lparr>W_out := nesting_correction ext V (map (map (\<lambda>j. F ! j)) (mesh_components ext F))
             (mesh_components ext F) (Max (set labels) + 1) (W_out out)\<rparr>)))"
proof -
  obtain E uE EMAP uE2E where u: "unique_edge_map ext F = (E, uE, EMAP, uE2E)"
    by (cases "unique_edge_map ext F") auto
  obtain C counts where
    fc: "facet_components ext (triangle_triangle_adjacency ext E EMAP uE2E False) = (C, counts)"
    by (cases "facet_components ext (triangle_triangle_adjacency ext E EMAP uE2E False)") auto
  have mc: "mesh_components ext F = gather_components C (length counts) (length F)"
    by (simp add: mesh_components_def u fc)
  have "\<not> has_odd_edge uE2E" using assms(1) by (simp add: u)
  then show ?thesis
    unfolding mc using assms(2)
    by (simp add: propagate_winding_numbers_def u fc Let_def del: replicate_Suc
          split: option.splits sum.splits)
qed

lemma propagate_winding_numbers_result:
  assumes "propagate_winding_numbers ext V F labels = Some (Inr out)"
    and "length labels = length F"
  shows "map length (W_out out) = replicate (length F) (2 * (Max (set labels) + 1)) \<and>
         reported out = filter (\<lambda>i. is_consistent_component ext V F labels i = Some (Inr False))
                          [0..<length (mesh_components ext F)] \<and>
         list_all (\<lambda>i. is_consistent_component ext V F labels i = Some (Inr True) \<or>
                       is_consistent_component ext V F labels i = Some (Inr False))
           [0..<length (mesh_components ext F)]"
proof -
  let ?cs = "mesh_components ext F"
  let ?nl = "Max (set labels) + 1"
  from assms(1) obtain out' where
    ne: "labels \<noteq> []"
    and pc: "propagate_components ext V (map (map (\<lambda>j. F ! j)) ?cs) (map (map (\<lambda>j. labels ! j)) ?cs) ?cs
       [0..<length ?cs] \<lparr>W_out = replicate (length F) (replicate (2 * ?nl) 0), reported = []\<rparr> =
         Some (Inr out')"
    and out: "out = out'\<lparr>W_out := nesting_correction ext V (map (map (\<lambda>j. F ! j)) ?cs)
       ?cs ?nl (W_out out')\<rparr>"
    by (rule propagate_winding_numbers_Inr)
  have widths: "\<forall>i \<in> set [0..<length ?cs]. \<forall>l \<in> set (map (map (\<lambda>j. labels ! j)) ?cs ! i). l < ?nl"
  proof (intro ballI)
    fix i l assume i: "i \<in> set [0..<length ?cs]" and l: "l \<in> set (map (map (\<lambda>j. labels ! j)) ?cs ! i)"
    from i have il: "i < length ?cs" by simp
    with l obtain f where f: "f \<in> set (?cs ! i)" and lf: "l = labels ! f" by auto
    have "?cs ! i \<in> set ?cs" using il by simp
    then have "f < length F" using f by (rule mesh_components_less)
    then have "l \<in> set labels" using lf assms(2) by simp
    then have "l \<le> Max (set labels)" by simp
    then show "l < ?nl" by simp
  qed
  have lens: "\<forall>i \<in> set [0..<length ?cs]. length (map (map (\<lambda>j. F ! j)) ?cs ! i) = length (?cs ! i)"
    by simp
  have dims: "\<forall>r \<in> set (W_out \<lparr>W_out = replicate (length F) (replicate (2 * ?nl) 0), reported = []\<rparr>).
      length r = 2 * ?nl"
    by simp
  note spec = propagate_components_spec [OF pc widths lens dims]
  have "map length (W_out out) = map length (W_out out')" by (simp add: out)
  also have "\<dots> = replicate (length F) (2 * ?nl)"
    using spec by (simp add: map_replicate_const del: replicate_Suc)
  finally have 1: "map length (W_out out) = replicate (length F) (2 * ?nl)" .
  have 2: "reported out = filter (\<lambda>i. is_consistent_component ext V F labels i = Some (Inr False))
                          [0..<length ?cs]"
    using spec by (simp add: out is_consistent_component_def)
  have 3: "list_all (\<lambda>i. is_consistent_component ext V F labels i = Some (Inr True) \<or>
                       is_consistent_component ext V F labels i = Some (Inr False)) [0..<length ?cs]"
    using spec unfolding list_all_iff is_consistent_component_def by blast
  from 1 2 3 show ?thesis by blast
qed


lemma propagate_winding_numbers_returns:
  assumes nodd: "\<not> has_odd_edge (snd (snd (snd (unique_edge_map ext F))))"
    and ne: "labels \<noteq> []" and len: "length labels = length F"
    and bound: "\<forall>l \<in> set labels. l < 2147483647"
    and flags: "list_all (\<lambda>i. is_consistent_component ext V F labels i = Some (Inr True) \<or>
                       is_consistent_component ext V F labels i = Some (Inr False))
           [0..<length (mesh_components ext F)]"
  shows "\<exists>out. propagate_winding_numbers ext V F labels = Some (Inr out) \<and>
           map length (W_out out) = replicate (length F) (2 * (Max (set labels) + 1)) \<and>
           reported out = filter (\<lambda>i. is_consistent_component ext V F labels i = Some (Inr False))
                            [0..<length (mesh_components ext F)]"
proof -
  let ?cs = "mesh_components ext F"
  let ?cf = "map (map (\<lambda>j. F ! j)) ?cs"
  let ?cl = "map (map (\<lambda>j. labels ! j)) ?cs"
  have 1: "\<forall>i \<in> set [0..<length ?cs]. component_flag ext V ?cf ?cl i = Some (Inr True) \<or>
                          component_flag ext V ?cf ?cl i = Some (Inr False)"
    using flags by (simp add: list_all_iff is_consistent_component_def)
  have 2: "\<forall>i \<in> set [0..<length ?cs]. length (?cl ! i) = length (?cf ! i) \<and>
                          (\<forall>l \<in> set (?cl ! i). l < 2147483647)"
  proof (intro ballI conjI)
    fix i assume "i \<in> set [0..<length ?cs]"
    then have il: "i < length ?cs" by simp
    then show "length (?cl ! i) = length (?cf ! i)" by simp
    fix l assume "l \<in> set (?cl ! i)"
    with il obtain f where f: "f \<in> set (?cs ! i)" and lf: "l = labels ! f" by auto
    have "?cs ! i \<in> set ?cs" using il by simp
    then have "f < length F" using f by (rule mesh_components_less)
    then have "l \<in> set labels" using lf len by simp
    then show "l < 2147483647" using bound by blast
  qed
  from propagate_components_returns [OF 1 2] obtain out' where
    "propagate_components ext V ?cf ?cl ?cs [0..<length ?cs]
       \<lparr>W_out = replicate (length F) (replicate (2 * (Max (set labels) + 1)) 0), reported = []\<rparr> =
     Some (Inr out')"
    by blast
  then have "propagate_winding_numbers ext V F labels =
      Some (Inr (out'\<lparr>W_out := nesting_correction ext V ?cf ?cs (Max (set labels) + 1) (W_out out')\<rparr>))"
    unfolding propagate_winding_numbers_eq [OF nodd ne] by simp
  with propagate_winding_numbers_result [OF _ len] show ?thesis by blast
qed

text \<open>
  Claim C1. \<^verbatim>\<open>propagate_winding_numbers\<close> is declared \<^verbatim>\<open>void\<close>: the caller receives the
  matrix \<^verbatim>\<open>W\<close> and nothing else. Let no unique edge have an odd number of incident
  half-edges, let there be one label per face, each below \<open>2147483647\<close>, and let the
  propagation of every component return a flag, true or false. Then the function returns:
  \<^verbatim>\<open>W\<close> has one row per face, each of \<open>2 * (max label + 1)\<close> integers, and the components
  whose flag is false are exactly the ones named on the standard output, in increasing
  order. So an inconsistent component raises nothing and does not stop the function.
  Conversely, whenever the function returns, every component's propagation has returned a
  flag, and \<^verbatim>\<open>W\<close> and the report are as described.
\<close>

theorem propagate_winding_numbers_reports_only:
  "(\<not> has_odd_edge (snd (snd (snd (unique_edge_map ext F)))) \<and> labels \<noteq> [] \<and>
    length labels = length F \<and> (\<forall>l \<in> set labels. l < 2147483647) \<and>
    list_all (\<lambda>i. is_consistent_component ext V F labels i = Some (Inr True) \<or>
                  is_consistent_component ext V F labels i = Some (Inr False))
      [0..<length (mesh_components ext F)] \<longrightarrow>
    (\<exists>res. propagate_winding_numbers ext V F labels = Some (Inr res) \<and>
       map length (W_out res) = replicate (length F) (2 * (Max (set labels) + 1)) \<and>
       reported res = filter (\<lambda>i. is_consistent_component ext V F labels i = Some (Inr False))
                        [0..<length (mesh_components ext F)])) \<and>
   (propagate_winding_numbers ext V F labels = Some (Inr out) \<and> length labels = length F \<longrightarrow>
    map length (W_out out) = replicate (length F) (2 * (Max (set labels) + 1)) \<and>
    reported out = filter (\<lambda>i. is_consistent_component ext V F labels i = Some (Inr False))
                     [0..<length (mesh_components ext F)] \<and>
    list_all (\<lambda>i. is_consistent_component ext V F labels i = Some (Inr True) \<or>
                  is_consistent_component ext V F labels i = Some (Inr False))
      [0..<length (mesh_components ext F)])"
proof (rule conjI; rule impI)
  assume h: "\<not> has_odd_edge (snd (snd (snd (unique_edge_map ext F)))) \<and> labels \<noteq> [] \<and>
    length labels = length F \<and> (\<forall>l \<in> set labels. l < 2147483647) \<and>
    list_all (\<lambda>i. is_consistent_component ext V F labels i = Some (Inr True) \<or>
                  is_consistent_component ext V F labels i = Some (Inr False))
      [0..<length (mesh_components ext F)]"
  show "\<exists>res. propagate_winding_numbers ext V F labels = Some (Inr res) \<and>
       map length (W_out res) = replicate (length F) (2 * (Max (set labels) + 1)) \<and>
       reported res = filter (\<lambda>i. is_consistent_component ext V F labels i = Some (Inr False))
                        [0..<length (mesh_components ext F)]"
    by (rule propagate_winding_numbers_returns) (use h in blast)+
next
  assume h: "propagate_winding_numbers ext V F labels = Some (Inr out) \<and> length labels = length F"
  show "map length (W_out out) = replicate (length F) (2 * (Max (set labels) + 1)) \<and>
    reported out = filter (\<lambda>i. is_consistent_component ext V F labels i = Some (Inr False))
                     [0..<length (mesh_components ext F)] \<and>
    list_all (\<lambda>i. is_consistent_component ext V F labels i = Some (Inr True) \<or>
                  is_consistent_component ext V F labels i = Some (Inr False))
      [0..<length (mesh_components ext F)]"
    by (rule propagate_winding_numbers_result) (use h in blast)+
qed

theorem propagate_winding_numbers_reports_only_witness:
  "(\<exists>res. propagate_winding_numbers ext_flipped V_example F_flipped ([0, 0, 0, 0, 1, 1, 1, 1 :: nat]) = Some (Inr res) \<and>
       map length (W_out res) = replicate (length F_flipped) (2 * (Max (set ([0, 0, 0, 0, 1, 1, 1, 1 :: nat])) + 1)) \<and>
       reported res = filter (\<lambda>i. is_consistent_component ext_flipped V_example F_flipped ([0, 0, 0, 0, 1, 1, 1, 1 :: nat]) i = Some (Inr False))
                        [0..<length (mesh_components ext_flipped F_flipped)]) \<and>
   propagate_winding_numbers ext_flipped V_example F_flipped [0, 0, 0, 0, 1, 1, 1, 1] =
     Some (Inr \<lparr>W_out = [[0, 1, 0, 0], [0, 1, 0, 0], [0, 1, 0, 0], [0, 1, 0, 0],
                          [1, 1, 0, 1], [1, 1, 0, 1], [1, 1, 0, 1], [1, 1, 0, 1]], reported = [0]\<rparr>) \<and>
   mesh_components ext_flipped F_flipped = [[0, 1, 2, 3, 4, 5, 6, 7]] \<and>
   is_consistent_component ext_flipped V_example F_flipped [0, 0, 0, 0, 1, 1, 1, 1] 0 = Some (Inr False) \<and>
   reported \<lparr>W_out = [[0, 1, 0, 0], [0, 1, 0, 0], [0, 1, 0, 0], [0, 1, 0, 0],
                       [1, 1, 0, 1], [1, 1, 0, 1], [1, 1, 0, 1], [1, 1, 0, 1 :: int]], reported = [0 :: nat]\<rparr> =
     filter (\<lambda>i. is_consistent_component ext_flipped V_example F_flipped [0, 0, 0, 0, 1, 1, 1, 1] i =
                  Some (Inr False)) [0..<length (mesh_components ext_flipped F_flipped)]"
proof -
  have run: "propagate_winding_numbers ext_flipped V_example F_flipped [0, 0, 0, 0, 1, 1, 1, 1] =
     Some (Inr \<lparr>W_out = [[0, 1, 0, 0], [0, 1, 0, 0], [0, 1, 0, 0], [0, 1, 0, 0],
                          [1, 1, 0, 1], [1, 1, 0, 1], [1, 1, 0, 1], [1, 1, 0, 1]], reported = [0]\<rparr>)"
    by code_simp
  have len: "length [0, 0, 0, 0, 1, 1, 1, 1 :: nat] = length F_flipped"
    by code_simp
  have cs: "mesh_components ext_flipped F_flipped = [[0, 1, 2, 3, 4, 5, 6, 7]]"
    by code_simp
  have flag: "is_consistent_component ext_flipped V_example F_flipped [0, 0, 0, 0, 1, 1, 1, 1] 0 = Some (Inr False)"
    by code_simp
  have "\<not> has_odd_edge (snd (snd (snd (unique_edge_map ext_flipped F_flipped)))) \<and> ([0, 0, 0, 0, 1, 1, 1, 1 :: nat]) \<noteq> [] \<and>
    length ([0, 0, 0, 0, 1, 1, 1, 1 :: nat]) = length F_flipped \<and> (\<forall>l \<in> set ([0, 0, 0, 0, 1, 1, 1, 1 :: nat]). l < 2147483647) \<and>
    list_all (\<lambda>i. is_consistent_component ext_flipped V_example F_flipped ([0, 0, 0, 0, 1, 1, 1, 1 :: nat]) i = Some (Inr True) \<or>
                  is_consistent_component ext_flipped V_example F_flipped ([0, 0, 0, 0, 1, 1, 1, 1 :: nat]) i = Some (Inr False))
      [0..<length (mesh_components ext_flipped F_flipped)]"
  proof (intro conjI)
    show "\<not> has_odd_edge (snd (snd (snd (unique_edge_map ext_flipped F_flipped))))"
      by code_simp
    show "([0, 0, 0, 0, 1, 1, 1, 1 :: nat]) \<noteq> []" by simp
    show "length ([0, 0, 0, 0, 1, 1, 1, 1 :: nat]) = length F_flipped" by (rule len)
    show "\<forall>l \<in> set ([0, 0, 0, 0, 1, 1, 1, 1 :: nat]). l < 2147483647" by simp
    show "list_all (\<lambda>i. is_consistent_component ext_flipped V_example F_flipped ([0, 0, 0, 0, 1, 1, 1, 1 :: nat]) i = Some (Inr True) \<or>
                  is_consistent_component ext_flipped V_example F_flipped ([0, 0, 0, 0, 1, 1, 1, 1 :: nat]) i = Some (Inr False))
      [0..<length (mesh_components ext_flipped F_flipped)]"
      by code_simp
  qed
  note total = propagate_winding_numbers_reports_only [where ext = ext_flipped and V = V_example
      and F = F_flipped and labels = "[0, 0, 0, 0, 1, 1, 1, 1]", THEN conjunct1, THEN mp, OF this]
  note partial = propagate_winding_numbers_reports_only [where ext = ext_flipped and V = V_example
      and F = F_flipped and labels = "[0, 0, 0, 0, 1, 1, 1, 1]", THEN conjunct2, THEN mp, OF conjI [OF run len]]
  have rep: "reported \<lparr>W_out = [[0, 1, 0, 0], [0, 1, 0, 0], [0, 1, 0, 0], [0, 1, 0, 0],
                       [1, 1, 0, 1], [1, 1, 0, 1], [1, 1, 0, 1], [1, 1, 0, 1 :: int]], reported = [0 :: nat]\<rparr> =
     filter (\<lambda>i. is_consistent_component ext_flipped V_example F_flipped [0, 0, 0, 0, 1, 1, 1, 1] i =
                  Some (Inr False)) [0..<length (mesh_components ext_flipped F_flipped)]"
    using partial by (rule conjunct2 [THEN conjunct1])
  show ?thesis
    by (intro conjI total run cs flag rep)
qed

text \<open>
  Two closed surfaces, one nested in the other, with consistent and with flipped
  orientation of the inner one: the caller receives the same \<^verbatim>\<open>W\<close> in both runs, although
  the propagation is consistent in the first and inconsistent in the second. The
  difference is only printed.
\<close>

theorem consistency_is_not_returned:
  "propagate_winding_numbers ext_nested V_example F_nested [0, 0, 0, 0, 1, 1, 1, 1] =
     Some (Inr \<lparr>W_out = [[0, 1, 0, 0], [0, 1, 0, 0], [0, 1, 0, 0], [0, 1, 0, 0],
                          [1, 1, 0, 1], [1, 1, 0, 1], [1, 1, 0, 1], [1, 1, 0, 1]], reported = []\<rparr>) \<and>
   is_consistent_component ext_nested V_example F_nested [0, 0, 0, 0, 1, 1, 1, 1] 0 = Some (Inr True) \<and>
   propagate_winding_numbers ext_flipped V_example F_flipped [0, 0, 0, 0, 1, 1, 1, 1] =
     Some (Inr \<lparr>W_out = [[0, 1, 0, 0], [0, 1, 0, 0], [0, 1, 0, 0], [0, 1, 0, 0],
                          [1, 1, 0, 1], [1, 1, 0, 1], [1, 1, 0, 1], [1, 1, 0, 1]], reported = [0]\<rparr>) \<and>
   is_consistent_component ext_flipped V_example F_flipped [0, 0, 0, 0, 1, 1, 1, 1] 0 = Some (Inr False)"
  by (intro conjI; code_simp)


section \<open>The nesting correction\<close>


lemma sum_list_indicator:
  "sum_list (map (\<lambda>i. if i = k then (x i :: int) else 0) [0..<n]) = (if k < n then x k else 0)"
  by (induction n) auto

lemma foldl_upt_sum:
  fixes get :: "'a \<Rightarrow> int"
  assumes "P a0"
    and "\<And>a i. i < n \<Longrightarrow> P a \<Longrightarrow> P (step a i) \<and> get (step a i) = get a + t i"
  shows "P (foldl step a0 [0..<n]) \<and> get (foldl step a0 [0..<n]) = get a0 + sum_list (map t [0..<n])"
proof -
  have "P (foldl step a0 [0..<m]) \<and> get (foldl step a0 [0..<m]) = get a0 + sum_list (map t [0..<m])"
    if "m \<le> n" for m
    using that
  proof (induction m)
    case 0
    then show ?case using assms(1) by simp
  next
    case (Suc m)
    then have IH: "P (foldl step a0 [0..<m])"
      "get (foldl step a0 [0..<m]) = get a0 + sum_list (map t [0..<m])" by simp_all
    from Suc.prems have "m < n" by simp
    from assms(2) [OF this IH(1)] IH(2) show ?case by simp
  qed
  then show ?thesis by simp
qed

lemma rows_replicateD:
  assumes "map length M = replicate n w"
  shows "length M = n" and "r < n \<Longrightarrow> length (M ! r) = w"
proof -
  show l: "length M = n" using assms by (metis length_map length_replicate)
  show "length (M ! r) = w" if "r < n"
    using that l assms by (metis nth_map nth_replicate)
qed

lemma accumulate_step:
  fixes ac :: matrix
  assumes "map length ac = replicate nc (2 * nl)" and "j < nc" and "k < nl" and "p < nc" and "c < 2 * nl"
  shows "set_coeff (set_coeff ac j (k * 2) (ac ! j ! (k * 2) + x)) j (k * 2 + 1)
           (set_coeff ac j (k * 2) (ac ! j ! (k * 2) + x) ! j ! (k * 2 + 1) + x) ! p ! c =
         ac ! p ! c + (if p = j \<and> c div 2 = k then x else 0)"
proof -
  have l: "length ac = nc" "length (ac ! j) = 2 * nl"
    using rows_replicateD [OF assms(1)] assms(2) by simp_all
  have c: "c div 2 = k \<longleftrightarrow> c = k * 2 \<or> c = k * 2 + 1" by auto
  show ?thesis
    using assms l by (auto simp: set_coeff_nth c)
qed

lemma accumulate_correction_nth:
  assumes "map length ac = replicate nc (2 * nl)" and "j < nc" and "p < nc" and "c < 2 * nl"
  shows "map length (accumulate_correction W nl ac j row ori) = replicate nc (2 * nl) \<and>
         accumulate_correction W nl ac j row ori ! p ! c =
           ac ! p ! c + (if p = j then W ! row ! ((c div 2) * 2 + (if ori then 0 else 1)) else 0)"
proof -
  let ?x = "\<lambda>k. W ! row ! (k * 2 + (if ori then 0 else 1))"
  let ?step = "\<lambda>ac k.
        (let correction = W ! row ! (k * 2 + (if ori then 0 else 1));
             ac = set_coeff ac j (k * 2) (ac ! j ! (k * 2) + correction)
         in set_coeff ac j (k * 2 + 1) (ac ! j ! (k * 2 + 1) + correction))"
  have "(map length (foldl ?step ac [0..<nl]) = replicate nc (2 * nl)) \<and>
        (foldl ?step ac [0..<nl]) ! p ! c =
          ac ! p ! c + sum_list (map (\<lambda>k. if k = c div 2 then (if p = j then ?x k else 0) else 0) [0..<nl])"
  proof (rule foldl_upt_sum [where P = "\<lambda>a. map length a = replicate nc (2 * nl)" and get = "\<lambda>a. a ! p ! c"])
    show "map length ac = replicate nc (2 * nl)" by (rule assms(1))
  next
    fix a :: matrix and k assume k: "k < nl" and a: "map length a = replicate nc (2 * nl)"
    have "?step a k ! p ! c = a ! p ! c + (if p = j \<and> c div 2 = k then ?x k else 0)"
      unfolding Let_def by (rule accumulate_step [OF a assms(2) k assms(3,4)])
    moreover have "map length (?step a k) = replicate nc (2 * nl)"
      using a by (simp add: Let_def)
    ultimately show "map length (?step a k) = replicate nc (2 * nl) \<and>
        ?step a k ! p ! c = a ! p ! c + (if k = c div 2 then (if p = j then ?x k else 0) else 0)"
      by auto
  qed
  moreover have "c div 2 < nl" using assms(4) by auto
  ultimately show ?thesis
    unfolding accumulate_correction_def sum_list_indicator by simp
qed


lemma correct_against_nth:
  assumes "map length ac = replicate nc (2 * nl)" and "p < nc" and "c < 2 * nl"
  shows "map length (correct_against ext V comp_faces components W nl nc ac i) = replicate nc (2 * nl) \<and>
         correct_against ext V comp_faces components W nl nc ac i ! p ! c =
           ac ! p ! c + (if i \<noteq> p then nearest_entry ext V comp_faces components W nc i p (c div 2) else 0)"
proof -
  obtain fids orientation where cf: "closest_facet ext V (comp_faces ! i)
      (map (sample_component V comp_faces) (filter (\<lambda>j. j \<noteq> i) [0..<nc])) = (fids, orientation)"
    by (cases "closest_facet ext V (comp_faces ! i)
      (map (sample_component V comp_faces) (filter (\<lambda>j. j \<noteq> i) [0..<nc]))") auto
  let ?t = "\<lambda>j. nearest_entry ext V comp_faces components W nc i j (c div 2)"
  let ?step = "\<lambda>ac j.
           if i = j then ac
           else (let index = index_without_i i j;
                     fid = fids ! index;
                     ori = orientation ! index
                 in accumulate_correction W nl ac j (components ! i ! fid) ori)"
  have "(map length (foldl ?step ac [0..<nc]) = replicate nc (2 * nl)) \<and>
        (foldl ?step ac [0..<nc]) ! p ! c =
          ac ! p ! c + sum_list (map (\<lambda>j. if j = p then (if i \<noteq> j then ?t j else 0) else 0) [0..<nc])"
  proof (rule foldl_upt_sum [where P = "\<lambda>a. map length a = replicate nc (2 * nl)" and get = "\<lambda>a. a ! p ! c"])
    show "map length ac = replicate nc (2 * nl)" by (rule assms(1))
  next
    fix a :: matrix and j assume j: "j < nc" and a: "map length a = replicate nc (2 * nl)"
    show "map length (?step a j) = replicate nc (2 * nl) \<and>
        ?step a j ! p ! c = a ! p ! c + (if j = p then (if i \<noteq> j then ?t j else 0) else 0)"
      using accumulate_correction_nth [OF a j assms(2,3)] a
      by (auto simp: Let_def nearest_entry_def cf)
  qed
  then show ?thesis
    unfolding correct_against_def sum_list_indicator Let_def cf using assms(2) by simp
qed

lemma ambient_corrections_nth:
  assumes "p < nc" and "c < 2 * nl"
  shows "map length (ambient_corrections ext V comp_faces components W nl nc) = replicate nc (2 * nl) \<and>
         ambient_corrections ext V comp_faces components W nl nc ! p ! c =
           (if nc > 1
            then sum_list (map (\<lambda>i. nearest_entry ext V comp_faces components W nc i p (c div 2))
                    (filter (\<lambda>i. i \<noteq> p) [0..<nc]))
            else 0)"
proof (cases "nc > 1")
  case False
  then show ?thesis using assms by (simp add: ambient_corrections_def del: replicate_Suc)
next
  case True
  let ?z = "replicate nc (replicate (2 * nl) (0 :: int))"
  let ?t = "\<lambda>i. if i \<noteq> p then nearest_entry ext V comp_faces components W nc i p (c div 2) else 0"
  have "(map length (foldl (correct_against ext V comp_faces components W nl nc) ?z [0..<nc]) =
           replicate nc (2 * nl)) \<and>
        (foldl (correct_against ext V comp_faces components W nl nc) ?z [0..<nc]) ! p ! c =
          ?z ! p ! c + sum_list (map ?t [0..<nc])"
  proof (rule foldl_upt_sum [where P = "\<lambda>a. map length a = replicate nc (2 * nl)" and get = "\<lambda>a. a ! p ! c"])
    show "map length ?z = replicate nc (2 * nl)" by (simp del: replicate_Suc)
  next
    fix a :: matrix and i assume "i < nc" and a: "map length a = replicate nc (2 * nl)"
    show "map length (correct_against ext V comp_faces components W nl nc a i) = replicate nc (2 * nl) \<and>
        correct_against ext V comp_faces components W nl nc a i ! p ! c = a ! p ! c + ?t i"
      by (rule correct_against_nth [OF a assms])
  qed
  moreover have "sum_list (map ?t [0..<nc]) =
      sum_list (map (\<lambda>i. nearest_entry ext V comp_faces components W nc i p (c div 2))
                    (filter (\<lambda>i. i \<noteq> p) [0..<nc]))"
    by (simp add: sum_list_map_filter')
  ultimately show ?thesis
    using True assms by (simp add: ambient_corrections_def del: replicate_Suc)
qed

lemma ambient_corrections_paired:
  assumes "p < nc" and "k < nl"
  shows "ambient_corrections ext V comp_faces components W nl nc ! p ! (2 * k) =
         ambient_corrections ext V comp_faces components W nl nc ! p ! (2 * k + 1)"
proof -
  have "2 * k < 2 * nl" "2 * k + 1 < 2 * nl" using assms(2) by simp_all
  from ambient_corrections_nth [OF assms(1) this(1)] ambient_corrections_nth [OF assms(1) this(2)]
  show ?thesis by simp
qed

lemma filter_neq_upt:
  assumes "i < n"
  shows "filter (\<lambda>j. j \<noteq> i) [0..<n] = [0..<i] @ [Suc i..<n]"
proof -
  have "[0..<n] = [0..<i] @ i # [Suc i..<n]"
    using assms by (metis less_imp_le_nat upt_add_eq_append upt_conv_Cons plus_nat.add_0 le_add_diff_inverse zero_le)
  then show ?thesis by (auto simp: filter_empty_conv)
qed

lemma sample_of_component:
  assumes "i < n" and "j < n" and "j \<noteq> i"
  shows "index_without_i i j < length (filter (\<lambda>j. j \<noteq> i) [0..<n]) \<and>
         map g (filter (\<lambda>j. j \<noteq> i) [0..<n]) ! index_without_i i j = g j"
proof -
  have "index_without_i i j < length ([0..<i] @ [Suc i..<n]) \<and>
        ([0..<i] @ [Suc i..<n]) ! index_without_i i j = j"
    using assms by (auto simp: index_without_i_def nth_append)
  then show ?thesis
    unfolding filter_neq_upt [OF assms(1)] by (metis nth_map)
qed


lemma add_row_nth: "c < length r \<Longrightarrow> add_row r correction ! c = r ! c + correction ! c"
  by (simp add: add_row_def)

lemma add_rows_nth:
  fixes W :: matrix
  assumes "f < length W" and "c < length (W ! f)"
  shows "length (foldl (\<lambda>W fid. W[fid := add_row (W ! fid) corr]) W fs) = length W \<and>
         length (foldl (\<lambda>W fid. W[fid := add_row (W ! fid) corr]) W fs ! f) = length (W ! f) \<and>
         foldl (\<lambda>W fid. W[fid := add_row (W ! fid) corr]) W fs ! f ! c =
           W ! f ! c + int (count_list fs f) * corr ! c"
  using assms
proof (induction fs arbitrary: W)
  case Nil
  then show ?case by simp
next
  case (Cons fid fs)
  let ?W = "W[fid := add_row (W ! fid) corr]"
  have l: "length ?W = length W" by simp
  have r: "length (?W ! f) = length (W ! f)"
    using Cons.prems by (cases "fid = f") (simp_all add: add_row_def)
  have v: "?W ! f ! c = W ! f ! c + (if fid = f then corr ! c else 0)"
    using Cons.prems by (cases "fid = f") (simp_all add: add_row_nth)
  have "f < length ?W" "c < length (?W ! f)" using Cons.prems l r by simp_all
  from Cons.IH [OF this] l r v show ?case
    by (simp add: algebra_simps)
qed

lemma apply_corrections_nth:
  fixes W :: matrix
  assumes "f < length W" and "c < length (W ! f)"
  shows "apply_corrections components ac W ! f ! c =
           W ! f ! c + sum_list (map (\<lambda>i. int (count_list (components ! i) f) * ac ! i ! c)
                          [0..<length components])"
proof -
  let ?step = "\<lambda>W i. foldl (\<lambda>W fid. W[fid := add_row (W ! fid) (ac ! i)]) W (components ! i)"
  have "(length (foldl ?step W [0..<length components]) = length W \<and>
         length (foldl ?step W [0..<length components] ! f) = length (W ! f)) \<and>
        foldl ?step W [0..<length components] ! f ! c =
          W ! f ! c + sum_list (map (\<lambda>i. int (count_list (components ! i) f) * ac ! i ! c)
                          [0..<length components])"
  proof (rule foldl_upt_sum [where P = "\<lambda>a. length a = length W \<and> length (a ! f) = length (W ! f)"
        and get = "\<lambda>a. a ! f ! c"])
    show "length W = length W \<and> length (W ! f) = length (W ! f)" by simp
  next
    fix a :: matrix and i
    assume "i < length components" and a: "length a = length W \<and> length (a ! f) = length (W ! f)"
    then have "f < length a" "c < length (a ! f)" using assms by simp_all
    from add_rows_nth [OF this, of "ac ! i" "components ! i"] a
    show "(length (?step a i) = length W \<and> length (?step a i ! f) = length (W ! f)) \<and>
        ?step a i ! f ! c = a ! f ! c + int (count_list (components ! i) f) * ac ! i ! c"
      by simp
  qed
  then show ?thesis by (simp add: apply_corrections_def)
qed

lemma sum_list_cong_upt:
  "(\<And>i. i < n \<Longrightarrow> f i = (g i :: int)) \<Longrightarrow> sum_list (map f [0..<n]) = sum_list (map g [0..<n])"
  by (rule arg_cong [where f = sum_list]) simp

text \<open>
  Claim C10. The correction phase of \<^verbatim>\<open>propagate_winding_numbers\<close> (lines 778-823),
  applied to a matrix \<^verbatim>\<open>W\<close> of \<open>2 * num_labels\<close> columns, changes the front entry
  \<open>W(f, 2k)\<close> and the back entry \<open>W(f, 2k + 1)\<close> of every face \<open>f\<close> and every label \<open>k\<close>
  by the same integer; so the difference of the two entries is the same before and after
  the phase.
\<close>

theorem nesting_correction_keeps_difference:
  assumes "\<forall>r \<in> set W. length r = 2 * num_labels" and "f < length W" and "k < num_labels"
  shows "let W' = nesting_correction ext V comp_faces components num_labels W in
           W' ! f ! (2 * k) - W ! f ! (2 * k) = W' ! f ! (2 * k + 1) - W ! f ! (2 * k + 1) \<and>
           W' ! f ! (2 * k) - W' ! f ! (2 * k + 1) = W ! f ! (2 * k) - W ! f ! (2 * k + 1)"
proof -
  let ?ac = "ambient_corrections ext V comp_faces components W num_labels (length components)"
  have len: "length (W ! f) = 2 * num_labels" using assms(1,2) by simp
  then have c: "2 * k < length (W ! f)" "2 * k + 1 < length (W ! f)" using assms(3) by simp_all
  have "sum_list (map (\<lambda>i. int (count_list (components ! i) f) * ?ac ! i ! (2 * k)) [0..<length components]) =
        sum_list (map (\<lambda>i. int (count_list (components ! i) f) * ?ac ! i ! (2 * k + 1)) [0..<length components])"
    by (rule sum_list_cong_upt) (simp add: ambient_corrections_paired [OF _ assms(3)])
  with apply_corrections_nth [OF assms(2) c(1), of components ?ac]
       apply_corrections_nth [OF assms(2) c(2), of components ?ac]
  show ?thesis by (simp add: nesting_correction_def Let_def)
qed

lemma count_list_distinct:
  "distinct xs \<Longrightarrow> x \<in> set xs \<Longrightarrow> count_list xs x = 1"
  by (induction xs) auto

lemma count_list_component:
  assumes "distinct (concat components)" and "j < length components" and "f \<in> set (components ! j)"
    and "i < length components"
  shows "count_list (components ! i) f = (if i = j then 1 else 0)"
  using assms
proof (induction components arbitrary: i j)
  case Nil
  then show ?case by simp
next
  case (Cons x xs)
  from Cons.prems(1) have d: "distinct x" "distinct (concat xs)" "set x \<inter> set (concat xs) = {}"
    by simp_all
  have in_concat: "g \<in> set (concat xs)" if "g \<in> set (xs ! n)" "n < length xs" for g n
    using that by (auto intro: nth_mem)
  show ?case
  proof (cases j)
    case 0
    then have fx: "f \<in> set x" using Cons.prems(3) by simp
    show ?thesis
    proof (cases i)
      case 0
      then show ?thesis using \<open>j = 0\<close> fx d(1) by (simp add: count_list_distinct)
    next
      case (Suc i')
      then have "i' < length xs" using Cons.prems(4) by simp
      then have "f \<notin> set (xs ! i')" using in_concat fx d(3) by blast
      then show ?thesis using Suc \<open>j = 0\<close> by (simp add: count_list_0_iff)
    qed
  next
    case (Suc j')
    then have j': "j' < length xs" "f \<in> set (xs ! j')" using Cons.prems(2,3) by simp_all
    show ?thesis
    proof (cases i)
      case 0
      have "f \<notin> set x" using in_concat [OF j'(2,1)] d(3) by blast
      then show ?thesis using 0 Suc by (simp add: count_list_0_iff)
    next
      case (Suc i')
      then have "i' < length xs" using Cons.prems(4) by simp
      from Cons.IH [OF d(2) j' this] show ?thesis using Suc \<open>j = Suc j'\<close> by simp
    qed
  qed
qed

text \<open>
  Claim C6. The correction phase on components that share no face, for a face \<open>f\<close> of
  component \<open>j\<close> and a column \<open>c\<close> of label \<open>c div 2\<close>: the entry after the phase is the entry
  before it plus, when there are several components, the sum over all components
  \<open>i \<noteq> j\<close> of the entry \<^const>\<open>nearest_entry\<close> reads: \<^verbatim>\<open>closest_facet\<close> is asked on
  component \<open>i\<close> for the nearest face and its orientation flag, the sample standing for
  component \<open>j\<close> being the centroid of the first face of \<open>j\<close>, and the flag selects the front
  or the back entry of that face's row in the matrix as it was before the phase. With one
  component nothing is added.
\<close>

theorem nesting_correction_spec:
  assumes "\<forall>r \<in> set W. length r = 2 * num_labels"
    and "distinct (concat components)"
    and "j < length components" and "f \<in> set (components ! j)" and "f < length W"
    and "c < 2 * num_labels"
  shows "let num_components = length components;
             W' = nesting_correction ext V comp_faces components num_labels W
         in W' ! f ! c = W ! f ! c +
              (if num_components > 1
               then sum_list (map (\<lambda>i. nearest_entry ext V comp_faces components W num_components i j (c div 2))
                      (filter (\<lambda>i. i \<noteq> j) [0..<num_components]))
               else 0) \<and>
            (\<forall>i < num_components. i \<noteq> j \<longrightarrow>
               map (sample_component V comp_faces) (filter (\<lambda>j. j \<noteq> i) [0..<num_components]) !
                 index_without_i i j = sample_component V comp_faces j)"
proof -
  let ?nc = "length components"
  let ?ac = "ambient_corrections ext V comp_faces components W num_labels ?nc"
  have len: "c < length (W ! f)" using assms(1,5,6) by simp
  have "sum_list (map (\<lambda>i. int (count_list (components ! i) f) * ?ac ! i ! c) [0..<?nc]) =
        sum_list (map (\<lambda>i. if i = j then ?ac ! i ! c else 0) [0..<?nc])"
    by (rule sum_list_cong_upt) (simp add: count_list_component [OF assms(2,3,4)])
  also have "\<dots> = ?ac ! j ! c" using assms(3) by (simp add: sum_list_indicator)
  finally have "apply_corrections components ?ac W ! f ! c = W ! f ! c + ?ac ! j ! c"
    using apply_corrections_nth [OF assms(5) len, of components ?ac] by simp
  then have 1: "nesting_correction ext V comp_faces components num_labels W ! f ! c = W ! f ! c +
              (if ?nc > 1
               then sum_list (map (\<lambda>i. nearest_entry ext V comp_faces components W ?nc i j (c div 2))
                      (filter (\<lambda>i. i \<noteq> j) [0..<?nc]))
               else 0)"
    using ambient_corrections_nth [OF assms(3,6), of ext V comp_faces components W]
    by (simp add: nesting_correction_def)
  have 2: "\<forall>i < ?nc. i \<noteq> j \<longrightarrow>
               map (sample_component V comp_faces) (filter (\<lambda>j. j \<noteq> i) [0..<?nc]) !
                 index_without_i i j = sample_component V comp_faces j"
    using sample_of_component [OF _ assms(3)] by blast
  from 1 2 show ?thesis by (simp add: Let_def)
qed


theorem nesting_correction_keeps_difference_witness:
  "(let W' = nesting_correction ext_disjoint V_disjoint [F_tetrahedron, F_inner] [[0, 1, 2, 3], [4, 5, 6, 7 :: nat]] 2
       [[0, 1, 0, 0], [0, 1, 0, 0], [0, 1, 0, 0], [0, 1, 0, 0], [0, 0, 0, 1], [0, 0, 0, 1], [0, 0, 0, 1], [0, 0, 0, 1 :: int]] in
           W' ! 4 ! (2 * 0) - [[0, 1, 0, 0], [0, 1, 0, 0], [0, 1, 0, 0], [0, 1, 0, 0], [0, 0, 0, 1], [0, 0, 0, 1], [0, 0, 0, 1], [0, 0, 0, 1 :: int]] ! 4 ! (2 * 0) = W' ! 4 ! (2 * 0 + 1) - [[0, 1, 0, 0], [0, 1, 0, 0], [0, 1, 0, 0], [0, 1, 0, 0], [0, 0, 0, 1], [0, 0, 0, 1], [0, 0, 0, 1], [0, 0, 0, 1 :: int]] ! 4 ! (2 * 0 + 1) \<and>
           W' ! 4 ! (2 * 0) - W' ! 4 ! (2 * 0 + 1) = [[0, 1, 0, 0], [0, 1, 0, 0], [0, 1, 0, 0], [0, 1, 0, 0], [0, 0, 0, 1], [0, 0, 0, 1], [0, 0, 0, 1], [0, 0, 0, 1 :: int]] ! 4 ! (2 * 0) - [[0, 1, 0, 0], [0, 1, 0, 0], [0, 1, 0, 0], [0, 1, 0, 0], [0, 0, 0, 1], [0, 0, 0, 1], [0, 0, 0, 1], [0, 0, 0, 1 :: int]] ! 4 ! (2 * 0 + 1)) \<and>
   nesting_correction ext_disjoint V_disjoint [F_tetrahedron, F_inner] [[0, 1, 2, 3], [4, 5, 6, 7 :: nat]] 2
       [[0, 1, 0, 0], [0, 1, 0, 0], [0, 1, 0, 0], [0, 1, 0, 0], [0, 0, 0, 1], [0, 0, 0, 1], [0, 0, 0, 1], [0, 0, 0, 1 :: int]] =
       [[0, 1, 0, 0], [0, 1, 0, 0], [0, 1, 0, 0], [0, 1, 0, 0], [1, 1, 0, 1], [1, 1, 0, 1], [1, 1, 0, 1], [1, 1, 0, 1]] \<and>
   propagate_winding_numbers ext_disjoint V_disjoint F_disjoint [0, 0, 0, 0, 1, 1, 1, 1] =
       Some (Inr \<lparr>W_out = [[0, 1, 0, 0], [0, 1, 0, 0], [0, 1, 0, 0], [0, 1, 0, 0], [1, 1, 0, 1], [1, 1, 0, 1], [1, 1, 0, 1], [1, 1, 0, 1]], reported = []\<rparr>)"
proof (intro conjI)
  show "let W' = nesting_correction ext_disjoint V_disjoint [F_tetrahedron, F_inner] [[0, 1, 2, 3], [4, 5, 6, 7 :: nat]] 2
       [[0, 1, 0, 0], [0, 1, 0, 0], [0, 1, 0, 0], [0, 1, 0, 0], [0, 0, 0, 1], [0, 0, 0, 1], [0, 0, 0, 1], [0, 0, 0, 1 :: int]] in
           W' ! 4 ! (2 * 0) - [[0, 1, 0, 0], [0, 1, 0, 0], [0, 1, 0, 0], [0, 1, 0, 0], [0, 0, 0, 1], [0, 0, 0, 1], [0, 0, 0, 1], [0, 0, 0, 1 :: int]] ! 4 ! (2 * 0) = W' ! 4 ! (2 * 0 + 1) - [[0, 1, 0, 0], [0, 1, 0, 0], [0, 1, 0, 0], [0, 1, 0, 0], [0, 0, 0, 1], [0, 0, 0, 1], [0, 0, 0, 1], [0, 0, 0, 1 :: int]] ! 4 ! (2 * 0 + 1) \<and>
           W' ! 4 ! (2 * 0) - W' ! 4 ! (2 * 0 + 1) = [[0, 1, 0, 0], [0, 1, 0, 0], [0, 1, 0, 0], [0, 1, 0, 0], [0, 0, 0, 1], [0, 0, 0, 1], [0, 0, 0, 1], [0, 0, 0, 1 :: int]] ! 4 ! (2 * 0) - [[0, 1, 0, 0], [0, 1, 0, 0], [0, 1, 0, 0], [0, 1, 0, 0], [0, 0, 0, 1], [0, 0, 0, 1], [0, 0, 0, 1], [0, 0, 0, 1 :: int]] ! 4 ! (2 * 0 + 1)"
    by (rule nesting_correction_keeps_difference) simp_all
  show "nesting_correction ext_disjoint V_disjoint [F_tetrahedron, F_inner] [[0, 1, 2, 3], [4, 5, 6, 7 :: nat]] 2
       [[0, 1, 0, 0], [0, 1, 0, 0], [0, 1, 0, 0], [0, 1, 0, 0], [0, 0, 0, 1], [0, 0, 0, 1], [0, 0, 0, 1], [0, 0, 0, 1 :: int]] =
       [[0, 1, 0, 0], [0, 1, 0, 0], [0, 1, 0, 0], [0, 1, 0, 0], [1, 1, 0, 1], [1, 1, 0, 1], [1, 1, 0, 1], [1, 1, 0, 1]]"
    by code_simp
  show "propagate_winding_numbers ext_disjoint V_disjoint F_disjoint [0, 0, 0, 0, 1, 1, 1, 1] =
       Some (Inr \<lparr>W_out = [[0, 1, 0, 0], [0, 1, 0, 0], [0, 1, 0, 0], [0, 1, 0, 0], [1, 1, 0, 1], [1, 1, 0, 1], [1, 1, 0, 1], [1, 1, 0, 1]], reported = []\<rparr>)"
    by code_simp
qed

theorem nesting_correction_spec_witness:
  "(let num_components = length [[0, 1, 2, 3], [4, 5, 6, 7 :: nat]];
             W' = nesting_correction ext_disjoint V_disjoint [F_tetrahedron, F_inner] [[0, 1, 2, 3], [4, 5, 6, 7 :: nat]] 2
       [[0, 1, 0, 0], [0, 1, 0, 0], [0, 1, 0, 0], [0, 1, 0, 0], [0, 0, 0, 1], [0, 0, 0, 1], [0, 0, 0, 1], [0, 0, 0, 1 :: int]]
         in W' ! 4 ! 1 = [[0, 1, 0, 0], [0, 1, 0, 0], [0, 1, 0, 0], [0, 1, 0, 0], [0, 0, 0, 1], [0, 0, 0, 1], [0, 0, 0, 1], [0, 0, 0, 1 :: int]] ! 4 ! 1 +
              (if num_components > 1
               then sum_list (map (\<lambda>i. nearest_entry ext_disjoint V_disjoint [F_tetrahedron, F_inner] [[0, 1, 2, 3], [4, 5, 6, 7 :: nat]]
                       [[0, 1, 0, 0], [0, 1, 0, 0], [0, 1, 0, 0], [0, 1, 0, 0], [0, 0, 0, 1], [0, 0, 0, 1], [0, 0, 0, 1], [0, 0, 0, 1 :: int]] num_components i 1 (1 div 2))
                      (filter (\<lambda>i. i \<noteq> 1) [0..<num_components]))
               else 0) \<and>
            (\<forall>i < num_components. i \<noteq> 1 \<longrightarrow>
               map (sample_component V_disjoint [F_tetrahedron, F_inner]) (filter (\<lambda>j. j \<noteq> i) [0..<num_components]) !
                 index_without_i i 1 = sample_component V_disjoint [F_tetrahedron, F_inner] 1)) \<and>
   nearest_entry ext_disjoint V_disjoint [F_tetrahedron, F_inner] [[0, 1, 2, 3], [4, 5, 6, 7 :: nat]]
       [[0, 1, 0, 0], [0, 1, 0, 0], [0, 1, 0, 0], [0, 1, 0, 0], [0, 0, 0, 1], [0, 0, 0, 1], [0, 0, 0, 1], [0, 0, 0, 1 :: int]] 2 0 1 0 = 1 \<and>
   nearest_entry ext_disjoint V_disjoint [F_tetrahedron, F_inner] [[0, 1, 2, 3], [4, 5, 6, 7 :: nat]]
       [[0, 1, 0, 0], [0, 1, 0, 0], [0, 1, 0, 0], [0, 1, 0, 0], [0, 0, 0, 1], [0, 0, 0, 1], [0, 0, 0, 1], [0, 0, 0, 1 :: int]] 2 1 0 0 = 0 \<and>
   sample_component V_disjoint [F_tetrahedron, F_inner] 1 = [1, 7 / 6, 2] \<and>
   nesting_correction ext_disjoint V_disjoint [F_tetrahedron, F_inner] [[0, 1, 2, 3], [4, 5, 6, 7 :: nat]] 2
       [[0, 1, 0, 0], [0, 1, 0, 0], [0, 1, 0, 0], [0, 1, 0, 0], [0, 0, 0, 1], [0, 0, 0, 1], [0, 0, 0, 1], [0, 0, 0, 1 :: int]] ! 4 ! 1 = 1 \<and>
   nesting_correction ext_tetrahedron V_example [F_tetrahedron] [[0, 1, 2, 3]] 1 [[0, 1], [0, 1], [0, 1], [0, 1]] =
       [[0, 1], [0, 1], [0, 1], [0, 1]]"
proof (intro conjI)
  show "let num_components = length [[0, 1, 2, 3], [4, 5, 6, 7 :: nat]];
             W' = nesting_correction ext_disjoint V_disjoint [F_tetrahedron, F_inner] [[0, 1, 2, 3], [4, 5, 6, 7 :: nat]] 2
       [[0, 1, 0, 0], [0, 1, 0, 0], [0, 1, 0, 0], [0, 1, 0, 0], [0, 0, 0, 1], [0, 0, 0, 1], [0, 0, 0, 1], [0, 0, 0, 1 :: int]]
         in W' ! 4 ! 1 = [[0, 1, 0, 0], [0, 1, 0, 0], [0, 1, 0, 0], [0, 1, 0, 0], [0, 0, 0, 1], [0, 0, 0, 1], [0, 0, 0, 1], [0, 0, 0, 1 :: int]] ! 4 ! 1 +
              (if num_components > 1
               then sum_list (map (\<lambda>i. nearest_entry ext_disjoint V_disjoint [F_tetrahedron, F_inner] [[0, 1, 2, 3], [4, 5, 6, 7 :: nat]]
                       [[0, 1, 0, 0], [0, 1, 0, 0], [0, 1, 0, 0], [0, 1, 0, 0], [0, 0, 0, 1], [0, 0, 0, 1], [0, 0, 0, 1], [0, 0, 0, 1 :: int]] num_components i 1 (1 div 2))
                      (filter (\<lambda>i. i \<noteq> 1) [0..<num_components]))
               else 0) \<and>
            (\<forall>i < num_components. i \<noteq> 1 \<longrightarrow>
               map (sample_component V_disjoint [F_tetrahedron, F_inner]) (filter (\<lambda>j. j \<noteq> i) [0..<num_components]) !
                 index_without_i i 1 = sample_component V_disjoint [F_tetrahedron, F_inner] 1)"
    by (rule nesting_correction_spec) simp_all
  show "nearest_entry ext_disjoint V_disjoint [F_tetrahedron, F_inner] [[0, 1, 2, 3], [4, 5, 6, 7 :: nat]]
       [[0, 1, 0, 0], [0, 1, 0, 0], [0, 1, 0, 0], [0, 1, 0, 0], [0, 0, 0, 1], [0, 0, 0, 1], [0, 0, 0, 1], [0, 0, 0, 1 :: int]] 2 0 1 0 = 1"
    by code_simp
  show "nearest_entry ext_disjoint V_disjoint [F_tetrahedron, F_inner] [[0, 1, 2, 3], [4, 5, 6, 7 :: nat]]
       [[0, 1, 0, 0], [0, 1, 0, 0], [0, 1, 0, 0], [0, 1, 0, 0], [0, 0, 0, 1], [0, 0, 0, 1], [0, 0, 0, 1], [0, 0, 0, 1 :: int]] 2 1 0 0 = 0"
    by code_simp
  show "sample_component V_disjoint [F_tetrahedron, F_inner] 1 = [1, 7 / 6, 2]"
    by code_simp
  show "nesting_correction ext_disjoint V_disjoint [F_tetrahedron, F_inner] [[0, 1, 2, 3], [4, 5, 6, 7 :: nat]] 2
       [[0, 1, 0, 0], [0, 1, 0, 0], [0, 1, 0, 0], [0, 1, 0, 0], [0, 0, 0, 1], [0, 0, 0, 1], [0, 0, 0, 1], [0, 0, 0, 1 :: int]] ! 4 ! 1 = 1"
    by code_simp
  show "nesting_correction ext_tetrahedron V_example [F_tetrahedron] [[0, 1, 2, 3]] 1 [[0, 1], [0, 1], [0, 1], [0, 1]] =
       [[0, 1], [0, 1], [0, 1], [0, 1]]"
    by code_simp
qed


section \<open>A patch with two places around a curve\<close>


section \<open>The traversal of the cells\<close>


lemma propagate_over_cells_once:
  "propagate_over_cells cell_adjacency patch_labels num_labels num_cells infinity_cell =
     Some (foldl (visit_neighbor patch_labels num_labels infinity_cell)
             (Inr (seed_cell_W num_cells num_labels infinity_cell)) (cell_adjacency ! infinity_cell), [])"
proof -
  let ?s = "(Inr (seed_cell_W num_cells num_labels infinity_cell), [infinity_cell]) :: (error + matrix) \<times> nat list"
  let ?c = "dequeue_cell cell_adjacency patch_labels num_labels"
  have 1: "cells_remain ?s" by (simp add: cells_remain_def)
  have 2: "\<not> cells_remain (?c ?s)"
    by (simp add: cells_remain_def dequeue_cell_def split: sum.splits)
  have "while_option cells_remain ?c ?s = while_option cells_remain ?c (?c ?s)"
    using 1 by (subst while_option_unfold) simp
  also have "\<dots> = Some (?c ?s)"
    using 2 by (subst while_option_unfold) simp
  finally show ?thesis
    by (simp add: propagate_over_cells_def dequeue_cell_def)
qed






lemma propagate_cells_and_read_off_Inr:
  assumes "propagate_cells_and_read_off V F labels num_patches P num_cells per_patch_cells cell_adjacency
             (outer_idx, flipped) = Some (Inr W)"
  shows "\<exists>patch_labels per_cell_W.
           gather_patch_labels 955 P labels (replicate num_patches INVALID) [0..<length F] = Inr patch_labels \<and>
           foldl (visit_neighbor (map nat patch_labels) (nat (Max (set patch_labels) + 1))
                    (per_patch_cells ! (P ! outer_idx) ! (if flipped then 1 else 0)))
             (Inr (seed_cell_W num_cells (nat (Max (set patch_labels) + 1))
                     (per_patch_cells ! (P ! outer_idx) ! (if flipped then 1 else 0))))
             (cell_adjacency ! (per_patch_cells ! (P ! outer_idx) ! (if flipped then 1 else 0))) =
             Inr per_cell_W \<and>
           W = read_off_faces P per_patch_cells per_cell_W (nat (Max (set patch_labels) + 1)) (length F)"
  using assms
  unfolding propagate_cells_and_read_off_def Let_def propagate_over_cells_once
  by (auto split: sum.splits if_splits)


lemma set_emplace [simp]: "set (emplace x xs) = insert x (set xs)"
  by (auto simp: emplace_def set_insort_key)






end
